(* ===== verification/Prelude.thy ===== *)
theory Prelude
  imports Complex_Main "HOL-Library.AList"
begin

text \<open>
  What every component of the development shares.
  \<^item> The types of the model: instants and durations are whole microseconds (the resolution of
    Python's \<open>datetime\<close> and of Postgres' \<open>timestamptz\<close>), counted from the Unix epoch in UTC;
    a UUID is the value of its \<open>int\<close> attribute.
  \<^item> \<open>exc\<close>: the exceptions the program raises or lets through, and \<open>result\<close>: a value or
    the exception that left the function.
  \<^item> The SQL statements the code issues, as functions on a table: a table is the list of its rows
    in some physical order. An \<open>ORDER BY\<close> is a stable sort, so rows with equal sort keys come in
    list order; Postgres promises no order for them, and since every theorem holds for every
    list, each order Postgres may choose is covered.
  \<^item> Two interfaces: a guarded \<open>UPDATE\<close> (\<open>row_update\<close>) and a transition system with an
    invariant (\<open>transition_system\<close>).
\<close>

named_theorems sql_simps

subsection \<open>Types\<close>

type_synonym datetime = int
type_synonym timedelta = int
type_synonym uuid = nat

abbreviation seconds :: "int \<Rightarrow> timedelta" where
  "seconds n \<equiv> n * 1000000"

text \<open>
  The exceptions of the program. The first group is Python's own, the second the CelesTrak
  driver's, the third \<open>app/core/exceptions\<close>, the fourth the ones that come out of the libraries.
\<close>

datatype exc =
    ValueError string
  | KeyError string
  | IndexError
  | AttributeError
  | ZeroDivisionError
  | OverflowError
  | RuntimeError string
  | TimeoutError
  | CancelledError
  | CelestrakError string
  | TleNotFound string
  | RateLimitedError string
  | TransientError string
  | DomainException string
  | NotFoundError string "uuid option"
  | ConflictError string
  | BusinessValidationError string
  | ExternalServiceError string
  | IntegrityError string
  | DataError string
  | MultipleResultsFound
  | RequestValidationError
  | LibraryError string

text \<open>The values of the \<open>status\<close> columns of \<open>scheduled_jobs\<close> and \<open>outbox_events\<close>.\<close>

datatype row_status = PENDING | RUNNING | PROCESSED | FAILED

text \<open>
  \<open>except Exception\<close> catches every exception but those that derive from \<open>BaseException\<close>
  only; of the ones above that is \<open>asyncio.CancelledError\<close>.
\<close>

definition is_Exception :: "exc \<Rightarrow> bool" where
  "is_Exception e = (e \<noteq> CancelledError)"

type_synonym 'a result = "exc + 'a"

subsection \<open>Sequencing of results\<close>

definition rbind :: "'a result \<Rightarrow> ('a \<Rightarrow> 'b result) \<Rightarrow> 'b result" where
  "rbind m f = (case m of Inl e \<Rightarrow> Inl e | Inr x \<Rightarrow> f x)"

lemma rbind_simps [simp]:
  "rbind (Inl e) f = Inl e"
  "rbind (Inr x) f = f x"
  by (simp_all add: rbind_def)

lemma rbind_eq_Inr: "rbind m f = Inr y \<longleftrightarrow> (\<exists>x. m = Inr x \<and> f x = Inr y)"
  by (cases m) auto

lemma rbind_eq_Inl: "rbind m f = Inl e \<longleftrightarrow> m = Inl e \<or> (\<exists>x. m = Inr x \<and> f x = Inl e)"
  by (cases m) auto

lemma rbind_assoc: "rbind (rbind m f) g = rbind m (\<lambda>x. rbind (f x) g)"
  by (cases m) auto

lemma rbind_cong [fundef_cong]:
  "m = m' \<Longrightarrow> (\<And>x. m' = Inr x \<Longrightarrow> f x = f' x) \<Longrightarrow> rbind m f = rbind m' f'"
  by (cases m') auto

text \<open>A list comprehension whose body may raise: the first exception ends it.\<close>

fun map_r :: "('a \<Rightarrow> 'b result) \<Rightarrow> 'a list \<Rightarrow> 'b list result" where
  "map_r f [] = Inr []"
| "map_r f (x # xs) = rbind (f x) (\<lambda>y. rbind (map_r f xs) (\<lambda>ys. Inr (y # ys)))"

lemma map_r_Inr_iff: "map_r f xs = Inr ys \<longleftrightarrow> list_all2 (\<lambda>x y. f x = Inr y) xs ys"
  by (induction xs arbitrary: ys) (auto simp: rbind_eq_Inr list_all2_Cons1)

lemma map_r_length: "map_r f xs = Inr ys \<Longrightarrow> length ys = length xs"
  by (auto simp: map_r_Inr_iff dest: list_all2_lengthD)

lemma map_r_total: "(\<And>x. x \<in> set xs \<Longrightarrow> f x = Inr (g x)) \<Longrightarrow> map_r f xs = Inr (map g xs)"
  by (induction xs) auto

lemma list_all2_right: "list_all2 P xs ys \<Longrightarrow> y \<in> set ys \<Longrightarrow> \<exists>x \<in> set xs. P x y"
  by (induction rule: list_all2_induct) auto

lemma list_all2_left: "list_all2 P xs ys \<Longrightarrow> x \<in> set xs \<Longrightarrow> \<exists>y \<in> set ys. P x y"
  by (induction rule: list_all2_induct) auto

text \<open>A \<open>for\<close> loop that threads a state and may raise.\<close>

fun fold_r :: "('a \<Rightarrow> 's \<Rightarrow> 's result) \<Rightarrow> 'a list \<Rightarrow> 's \<Rightarrow> 's result" where
  "fold_r f [] s = Inr s"
| "fold_r f (x # xs) s = rbind (f x s) (fold_r f xs)"

lemma fold_r_append: "fold_r f (xs @ ys) s = rbind (fold_r f xs s) (fold_r f ys)"
  by (induction xs arbitrary: s) (auto simp: rbind_assoc intro!: rbind_cong)

lemma fold_r_invariant:
  assumes "fold_r f xs s = Inr s'" and "P s"
    and "\<And>x t t'. x \<in> set xs \<Longrightarrow> P t \<Longrightarrow> f x t = Inr t' \<Longrightarrow> P t'"
  shows "P s'"
  using assms
proof (induction xs arbitrary: s)
  case Nil
  then show ?case by simp
next
  case (Cons x xs)
  from Cons.prems(1) obtain t where t: "f x s = Inr t" "fold_r f xs t = Inr s'"
    by (auto simp: rbind_eq_Inr)
  moreover have "P t"
    using Cons.prems(2) Cons.prems(3)[OF _ Cons.prems(2) t(1)] by simp
  ultimately show ?case
    using Cons.IH[of t] Cons.prems(3) by auto
qed

subsection \<open>SQL statements on a table\<close>

definition update_where :: "('r \<Rightarrow> bool) \<Rightarrow> ('r \<Rightarrow> 'r) \<Rightarrow> 'r list \<Rightarrow> 'r list" where
  "update_where p f rows = map (\<lambda>r. if p r then f r else r) rows"

definition delete_where :: "('r \<Rightarrow> bool) \<Rightarrow> 'r list \<Rightarrow> 'r list" where
  "delete_where p rows = filter (\<lambda>r. \<not> p r) rows"

definition select_order_by :: "('r \<Rightarrow> 'k::linorder) \<Rightarrow> ('r \<Rightarrow> bool) \<Rightarrow> 'r list \<Rightarrow> 'r list" where
  "select_order_by k p rows = sort_key k (filter p rows)"

text \<open>\<open>scalars().first()\<close>: the first row of a result, or None.\<close>

definition first_row :: "'r list \<Rightarrow> 'r option" where
  "first_row rows = (case rows of [] \<Rightarrow> None | r # _ \<Rightarrow> Some r)"

text \<open>\<open>one_or_none()\<close>: more than one row is an error.\<close>

definition one_or_none :: "'r list \<Rightarrow> 'r option result" where
  "one_or_none rows =
     (case rows of [] \<Rightarrow> Inr None | [r] \<Rightarrow> Inr (Some r) | _ \<Rightarrow> Inl MultipleResultsFound)"

lemma first_row_simps [simp]:
  "first_row [] = None"
  "first_row (r # rs) = Some r"
  by (simp_all add: first_row_def)

lemma first_row_None_iff: "first_row rows = None \<longleftrightarrow> rows = []"
  by (cases rows) auto

lemma first_row_SomeD: "first_row rows = Some r \<Longrightarrow> r \<in> set rows"
  by (cases rows) auto

lemma length_update_where [sql_simps]: "length (update_where p f rows) = length rows"
  by (simp add: update_where_def)

lemma set_update_where:
  "set (update_where p f rows) = f ` {r \<in> set rows. p r} \<union> {r \<in> set rows. \<not> p r}"
  by (auto simp: update_where_def)

lemma set_select_order_by [sql_simps]:
  "set (select_order_by k p rows) = {r \<in> set rows. p r}"
  by (auto simp: select_order_by_def)

lemma sorted_select_order_by: "sorted (map k (select_order_by k p rows))"
  by (simp add: select_order_by_def)

lemma set_delete_where [sql_simps]: "set (delete_where p rows) = {r \<in> set rows. \<not> p r}"
  by (auto simp: delete_where_def)

lemma delete_where_idem [sql_simps]:
  "delete_where p (delete_where p rows) = delete_where p rows"
  by (simp add: delete_where_def)

lemma update_where_id:
  "(\<And>r. r \<in> set rows \<Longrightarrow> \<not> p r) \<Longrightarrow> update_where p f rows = rows"
  by (induction rows) (auto simp: update_where_def)

text \<open>A column with a unique constraint, and looking a row up by it.\<close>

lemma unique_column:
  "distinct (map key rows) \<Longrightarrow> r \<in> set rows \<Longrightarrow> r' \<in> set rows \<Longrightarrow> key r = key r' \<Longrightarrow> r = r'"
  by (simp add: distinct_map inj_on_def)

lemma filter_unique:
  assumes "distinct (map key rows)" and "r \<in> set rows"
  shows "filter (\<lambda>x. key x = key r) rows = [r]"
  using assms
proof (induction rows)
  case Nil
  then show ?case by simp
next
  case (Cons a rows)
  then show ?case
    by (cases "a = r") (auto simp: filter_empty_conv intro: rev_image_eqI)
qed

lemma first_row_unique:
  "distinct (map key rows) \<Longrightarrow> r \<in> set rows \<Longrightarrow> first_row (filter (\<lambda>x. key x = key r) rows) = Some r"
  by (simp add: filter_unique)

lemma first_row_filterD:
  "first_row (filter p rows) = Some r \<Longrightarrow> r \<in> set rows \<and> p r"
  by (auto dest: first_row_SomeD)

lemma first_row_filter_None:
  "first_row (filter p rows) = None \<longleftrightarrow> (\<forall>r \<in> set rows. \<not> p r)"
  by (auto simp: first_row_None_iff filter_empty_conv)

text \<open>Looking a row up by a key, as \<open>SELECT \<dots> WHERE key = k\<close> and \<open>scalars().first()\<close> do.\<close>

definition lookup :: "('r \<Rightarrow> 'k) \<Rightarrow> 'k \<Rightarrow> 'r list \<Rightarrow> 'r option" where
  "lookup key k rows = first_row (filter (\<lambda>r. key r = k) rows)"

lemma lookup_simps [simp]:
  "lookup key k [] = None"
  "lookup key k (r # rows) = (if key r = k then Some r else lookup key k rows)"
  by (simp_all add: lookup_def)

lemma lookup_SomeD: "lookup key k rows = Some r \<Longrightarrow> r \<in> set rows \<and> key r = k"
  unfolding lookup_def by (rule first_row_filterD)

lemma lookup_None_iff: "lookup key k rows = None \<longleftrightarrow> k \<notin> key ` set rows"
  by (auto simp: lookup_def first_row_filter_None)

lemma lookup_unique: "distinct (map key rows) \<Longrightarrow> r \<in> set rows \<Longrightarrow> lookup key (key r) rows = Some r"
  unfolding lookup_def by (rule first_row_unique)

lemma lookup_append:
  "lookup key k (xs @ ys) = (case lookup key k xs of None \<Rightarrow> lookup key k ys | Some r \<Rightarrow> Some r)"
  by (induction xs) auto

lemma lookup_update_where:
  "(\<And>r. key (f r) = key r) \<Longrightarrow>
   lookup key k (update_where p f rows) =
     map_option (\<lambda>r. if p r then f r else r) (lookup key k rows)"
  by (induction rows) (auto simp: update_where_def)

lemma lookup_update_key:
  assumes "\<And>r. key (f r) = key r"
  shows "lookup key k (update_where (\<lambda>r. key r = k') f rows) =
     (if k = k' then map_option f (lookup key k rows) else lookup key k rows)"
  using lookup_SomeD[of key k rows]
  by (cases "lookup key k rows") (auto simp: lookup_update_where assms)

lemma lookup_map:
  "(\<And>r. r \<in> set rows \<Longrightarrow> key (f r) = key r) \<Longrightarrow> lookup key k (map f rows) = map_option f (lookup key k rows)"
  by (induction rows) auto

text \<open>Replacing the row with a given key in a table whose keys are unique.\<close>

lemma replace_row:
  assumes "distinct (map key rows)" and "e \<in> set rows"
  shows "update_where (\<lambda>r. key r = key e) (\<lambda>_. row) rows = map (\<lambda>r. if r = e then row else r) rows"
  using unique_column[OF assms(1) _ assms(2)] by (auto simp: update_where_def)

text \<open>The head of an ordered selection has the least sort key of all the selected rows.\<close>

lemma first_row_select_least:
  assumes "first_row (select_order_by k p rows) = Some r"
  shows "r \<in> set rows" "p r" "\<And>r'. r' \<in> set rows \<Longrightarrow> p r' \<Longrightarrow> k r \<le> k r'"
proof -
  obtain rs where rs: "select_order_by k p rows = r # rs"
    using assms by (cases "select_order_by k p rows") auto
  then have "r \<in> set (select_order_by k p rows)" by simp
  then show "r \<in> set rows" "p r" by (simp_all add: sql_simps)
  have "sorted (k r # map k rs)"
    using sorted_select_order_by[of k p rows] rs by simp
  then show "k r \<le> k r'" if "r' \<in> set rows" "p r'" for r'
    using that rs set_select_order_by[of k p rows] by auto
qed

text \<open>What a limited, ordered selection leaves out is not due earlier than what it takes.\<close>

lemma take_select_order:
  assumes "r \<in> set (take n (select_order_by k p rows))"
    and "r' \<in> set (drop n (select_order_by k p rows))"
  shows "k r \<le> k r'"
proof -
  let ?s = "select_order_by k p rows"
  have "sorted (map k (take n ?s) @ map k (drop n ?s))"
    using sorted_select_order_by[of k p rows]
    by (metis append_take_drop_id map_append)
  then show ?thesis
    using assms by (auto simp: sorted_append)
qed

subsection \<open>Interface: a guarded UPDATE\<close>

text \<open>
  \<open>UPDATE t SET \<dots> WHERE guard\<close>: the assigned values keep the row's key and, where the guard
  holds, its well-formedness. The table operations that follow this shape share the lemmas.
\<close>

locale row_update =
  fixes key :: "'r \<Rightarrow> 'k"
    and row_ok :: "'r \<Rightarrow> bool"
    and guard :: "'r \<Rightarrow> bool"
    and assign :: "'r \<Rightarrow> 'r"
  assumes key_kept: "key (assign r) = key r"
    and ok_kept: "row_ok r \<Longrightarrow> guard r \<Longrightarrow> row_ok (assign r)"
begin

lemma keys_kept: "map key (update_where guard assign rows) = map key rows"
  by (simp add: update_where_def key_kept)

lemma rows_ok_kept:
  "\<forall>r \<in> set rows. row_ok r \<Longrightarrow> \<forall>r \<in> set (update_where guard assign rows). row_ok r"
  by (auto simp: set_update_where ok_kept)

lemma updated_row:
  assumes "distinct (map key rows)" and "r \<in> set rows"
  shows "first_row (filter (\<lambda>x. key x = key r) (update_where guard assign rows)) =
         Some (if guard r then assign r else r)"
proof -
  let ?r = "if guard r then assign r else r"
  have "?r \<in> set (update_where guard assign rows)"
    using assms(2) by (auto simp: set_update_where)
  moreover have "key ?r = key r" by (simp add: key_kept)
  ultimately show ?thesis
    using assms(1) first_row_unique[of key "update_where guard assign rows" ?r]
    by (simp add: keys_kept)
qed

end

subsection \<open>Interface: a transition system with an invariant\<close>

locale transition_system =
  fixes start :: "'s \<Rightarrow> bool"
    and step :: "'s \<Rightarrow> 's \<Rightarrow> bool"
    and inv :: "'s \<Rightarrow> bool"
  assumes inv_start: "start s \<Longrightarrow> inv s"
    and inv_step: "inv s \<Longrightarrow> step s t \<Longrightarrow> inv t"
begin

lemma inv_steps: "step\<^sup>*\<^sup>* s t \<Longrightarrow> inv s \<Longrightarrow> inv t"
  by (induction rule: rtranclp_induct) (auto intro: inv_step)

lemma inv_reachable: "start s \<Longrightarrow> step\<^sup>*\<^sup>* s t \<Longrightarrow> inv t"
  using inv_steps inv_start by blast

end

end
