(* ===== verification/PyStr.thy ===== *)
theory PyStr
  imports Prelude
begin

text \<open>
  The operations of Python's \<open>str\<close> and \<open>int\<close> that the program uses.
  A \<open>char\<close> stands for the code point of the same number, so the model covers strings over
  U+0000..U+00FF (CelesTrak serves ASCII); \<open>length\<close> and slices count code points, as in Python.
  The white-space and line-break sets are CPython's, restricted to that range.
\<close>

subsection \<open>White space\<close>

definition char_code :: "char \<Rightarrow> nat" where
  "char_code c = of_char c"

text \<open>\<open>str.isspace\<close> of one character.\<close>

definition is_space :: "char \<Rightarrow> bool" where
  "is_space c = (let n = char_code c in
     (9 \<le> n \<and> n \<le> 13) \<or> (28 \<le> n \<and> n \<le> 32) \<or> n = 133 \<or> n = 160)"

definition lstrip :: "string \<Rightarrow> string" where
  "lstrip s = dropWhile is_space s"

definition rstrip :: "string \<Rightarrow> string" where
  "rstrip s = rev (dropWhile is_space (rev s))"

definition strip :: "string \<Rightarrow> string" where
  "strip s = rstrip (lstrip s)"

lemma rstrip_Nil_iff: "rstrip s = [] \<longleftrightarrow> (\<forall>c \<in> set s. is_space c)"
  by (simp add: rstrip_def)

lemma all_dropWhile: "(\<forall>c \<in> set (dropWhile p s). p c) \<longleftrightarrow> (\<forall>c \<in> set s. p c)"
  by (induction s) auto

lemma strip_Nil_iff: "strip s = [] \<longleftrightarrow> (\<forall>c \<in> set s. is_space c)"
  unfolding strip_def lstrip_def rstrip_Nil_iff by (rule all_dropWhile)

lemma rstrip_idem: "rstrip (rstrip s) = rstrip s"
  by (simp add: rstrip_def)

lemma last_rstrip: "rstrip s \<noteq> [] \<Longrightarrow> \<not> is_space (last (rstrip s))"
  unfolding rstrip_def
  by (metis hd_dropWhile last_rev rev.simps(1) rev_rev_ident)

lemma rstrip_id: "s = [] \<or> \<not> is_space (last s) \<Longrightarrow> rstrip s = s"
  by (cases s rule: rev_cases) (auto simp: rstrip_def)

lemma lstrip_id: "s = [] \<or> \<not> is_space (hd s) \<Longrightarrow> lstrip s = s"
  by (cases s) (auto simp: lstrip_def)

lemma rstrip_append_space:
  "(\<forall>c \<in> set w. is_space c) \<Longrightarrow> rstrip (s @ w) = rstrip s"
  by (simp add: rstrip_def dropWhile_append)

lemma strip_idem: "strip (strip s) = strip s"
proof (cases "strip s = []")
  case True
  have "strip [] = []" by (simp add: strip_def lstrip_def rstrip_def)
  then show ?thesis by (simp add: True)
next
  case False
  have "rstrip (lstrip s) \<noteq> []" using False by (simp add: strip_def)
  moreover have "\<exists>w. lstrip s = rstrip (lstrip s) @ w"
    by (metis rstrip_def rev_append rev_rev_ident takeWhile_dropWhile_id)
  ultimately have "hd (rstrip (lstrip s)) = hd (lstrip s)" by (metis hd_append2)
  moreover have "\<not> is_space (hd (lstrip s))"
  proof -
    have "lstrip s \<noteq> []" using \<open>rstrip (lstrip s) \<noteq> []\<close> by (auto simp: rstrip_def)
    then show ?thesis unfolding lstrip_def by (rule hd_dropWhile)
  qed
  ultimately show ?thesis
    by (simp add: strip_def lstrip_id rstrip_idem)
qed

lemma rstrip_prefix: "\<exists>w. s = rstrip s @ w"
  by (metis rstrip_def rev_append rev_rev_ident takeWhile_dropWhile_id)

lemma set_rstrip: "set (rstrip s) \<subseteq> set s"
  using rstrip_prefix[of s] by (metis set_append sup_ge1)

subsection \<open>Lines\<close>

text \<open>The characters \<open>str.splitlines\<close> ends a line at; CR LF counts as one line end.\<close>

definition is_linebreak :: "char \<Rightarrow> bool" where
  "is_linebreak c = (let n = char_code c in
     (10 \<le> n \<and> n \<le> 13) \<or> (28 \<le> n \<and> n \<le> 30) \<or> n = 133)"

fun splitlines_from :: "string \<Rightarrow> string \<Rightarrow> string list" where
  "splitlines_from acc [] = (if acc = [] then [] else [rev acc])"
| "splitlines_from acc [c] =
     (if is_linebreak c then [rev acc] else [rev (c # acc)])"
| "splitlines_from acc (c # d # cs) =
     (if char_code c = 13 \<and> char_code d = 10 then rev acc # splitlines_from [] cs
      else if is_linebreak c then rev acc # splitlines_from [] (d # cs)
      else splitlines_from (c # acc) (d # cs))"

definition splitlines :: "string \<Rightarrow> string list" where
  "splitlines s = splitlines_from [] s"

lemma splitlines_from_no_break:
  "filter is_linebreak acc = [] \<Longrightarrow> l \<in> set (splitlines_from acc s) \<Longrightarrow> filter is_linebreak l = []"
proof (induction acc s arbitrary: l rule: splitlines_from.induct)
  case (1 acc)
  then show ?case by (simp add: rev_filter[symmetric] split: if_splits)
next
  case (2 acc c)
  then show ?case by (simp add: rev_filter[symmetric] split: if_splits)
next
  case (3 acc c d cs)
  then show ?case by (simp add: rev_filter[symmetric] split: if_splits) (elim disjE; simp add: rev_filter[symmetric])+
qed

lemma splitlines_no_break: "l \<in> set (splitlines s) \<Longrightarrow> \<forall>c \<in> set l. \<not> is_linebreak c"
  using splitlines_from_no_break[of "[]" l s] by (simp add: splitlines_def filter_empty_conv)

lemma splitlines_from_keeps:
  "c \<in> set acc \<or> c \<in> set s \<Longrightarrow> \<not> is_linebreak c \<Longrightarrow> \<exists>l \<in> set (splitlines_from acc s). c \<in> set l"
proof (induction acc s rule: splitlines_from.induct)
  case (3 acc a d cs)
  have cr: "char_code a = 13 \<Longrightarrow> is_linebreak a" "char_code d = 10 \<Longrightarrow> is_linebreak d"
    by (simp_all add: is_linebreak_def)
  consider "char_code a = 13 \<and> char_code d = 10" | "\<not> (char_code a = 13 \<and> char_code d = 10)" "is_linebreak a"
    | "\<not> (char_code a = 13 \<and> char_code d = 10)" "\<not> is_linebreak a" by blast
  then show ?case
  proof cases
    case 1
    then show ?thesis using 3 cr by auto
  next
    case 2
    then show ?thesis using 3 by auto
  next
    case 3: 3
    then show ?thesis using "3.IH"(3) "3.prems" by auto
  qed
qed auto

text \<open>No text but white space is lost when a string is split into lines.\<close>

lemma splitlines_keeps:
  assumes "strip s \<noteq> []"
  shows "\<exists>l \<in> set (splitlines s). strip l \<noteq> []"
proof -
  obtain c where c: "c \<in> set s" "\<not> is_space c" using assms by (auto simp: strip_Nil_iff)
  then have "\<not> is_linebreak c" by (auto simp: is_linebreak_def is_space_def Let_def)
  then obtain l where "l \<in> set (splitlines s)" "c \<in> set l"
    using splitlines_from_keeps[of c "[]" s] c(1) unfolding splitlines_def by blast
  then show ?thesis using c(2) by (auto simp: strip_Nil_iff)
qed

text \<open>Lines joined with CR LF, as CelesTrak sends them, split back into the same lines.\<close>

definition crlf :: string where
  "crlf = [CHR 0x0D, CHR 0x0A]"

lemma splitlines_from_crlf:
  assumes "\<forall>c \<in> set l. \<not> is_linebreak c"
  shows "splitlines_from acc (l @ crlf @ s) = (rev acc @ l) # splitlines_from [] s"
  using assms
proof (induction l arbitrary: acc)
  case Nil
  then show ?case by (simp add: crlf_def char_code_def)
next
  case (Cons c l)
  then have c: "\<not> is_linebreak c" by simp
  then have n: "char_code c \<noteq> 13" by (auto simp: is_linebreak_def)
  obtain d ds where "l @ crlf @ s = d # ds"
    by (cases l) (auto simp: crlf_def)
  then show ?case
    using Cons.IH[of "c # acc"] Cons.prems c n by simp
qed

lemma splitlines_crlf:
  assumes "\<forall>l \<in> set ls. \<forall>c \<in> set l. \<not> is_linebreak c"
  shows "splitlines (concat (map (\<lambda>l. l @ crlf) ls)) = ls"
  using assms
proof (induction ls)
  case Nil
  then show ?case by (simp add: splitlines_def)
next
  case (Cons l ls)
  then show ?case
    using splitlines_from_crlf[of l "[]" "concat (map (\<lambda>l. l @ crlf) ls)"]
    by (simp add: splitlines_def)
qed

lemma linebreak_space: "is_linebreak c \<Longrightarrow> is_space c"
  by (auto simp: is_linebreak_def is_space_def Let_def)

lemma splitlines_from_last:
  assumes "\<forall>c \<in> set l. \<not> is_linebreak c"
  shows "splitlines_from acc l = (if acc = [] \<and> l = [] then [] else [rev acc @ l])"
  using assms
proof (induction acc l rule: splitlines_from.induct)
  case (3 acc c d cs)
  then have "char_code c \<noteq> 13" by (auto simp: is_linebreak_def)
  then show ?case using 3 by simp
qed auto

lemma splitlines_crlf_last:
  assumes "\<forall>l \<in> set ls. \<forall>c \<in> set l. \<not> is_linebreak c"
    and "\<forall>c \<in> set l. \<not> is_linebreak c" and "l \<noteq> []"
  shows "splitlines (concat (map (\<lambda>l. l @ crlf) ls) @ l) = ls @ [l]"
  using assms
proof (induction ls)
  case Nil
  then show ?case by (simp add: splitlines_def splitlines_from_last)
next
  case (Cons k ls)
  then show ?case
    using splitlines_from_crlf[of k "[]" "concat (map (\<lambda>l. l @ crlf) ls) @ l"]
    by (simp add: splitlines_def)
qed

subsection \<open>Prefixes, slices, split, join, replace\<close>

definition startswith :: "string \<Rightarrow> string \<Rightarrow> bool" where
  "startswith s p = (take (length p) s = p)"

text \<open>\<open>s[a:b]\<close> for \<open>0 <= a <= b\<close>, \<open>s[:n]\<close> and \<open>s[-n:]\<close>.\<close>

definition slice :: "nat \<Rightarrow> nat \<Rightarrow> string \<Rightarrow> string" where
  "slice a b s = take (b - a) (drop a s)"

definition first_chars :: "nat \<Rightarrow> string \<Rightarrow> string" where
  "first_chars n s = take n s"

definition last_chars :: "nat \<Rightarrow> string \<Rightarrow> string" where
  "last_chars n s = drop (length s - n) s"

lemma length_last_chars: "length (last_chars n s) = min n (length s)"
  by (simp add: last_chars_def min_def)

fun split_on_from :: "char \<Rightarrow> string \<Rightarrow> string \<Rightarrow> string list" where
  "split_on_from sep acc [] = [rev acc]"
| "split_on_from sep acc (c # cs) =
     (if c = sep then rev acc # split_on_from sep [] cs else split_on_from sep (c # acc) cs)"

definition split_on :: "char \<Rightarrow> string \<Rightarrow> string list" where
  "split_on sep s = split_on_from sep [] s"

fun join :: "string \<Rightarrow> string list \<Rightarrow> string" where
  "join sep [] = []"
| "join sep [s] = s"
| "join sep (s # t # ts) = s @ sep @ join sep (t # ts)"

lemma split_on_from_no_sep:
  "sep \<notin> set acc \<Longrightarrow> p \<in> set (split_on_from sep acc s) \<Longrightarrow> sep \<notin> set p"
  by (induction sep acc s rule: split_on_from.induct) (auto split: if_splits)

lemma split_on_no_sep: "p \<in> set (split_on sep s) \<Longrightarrow> sep \<notin> set p"
  by (auto simp: split_on_def dest: split_on_from_no_sep[rotated])

lemma split_on_from_nonempty: "split_on_from sep acc s \<noteq> []"
  by (induction sep acc s rule: split_on_from.induct) auto

lemma join_Cons: "ts \<noteq> [] \<Longrightarrow> join sep (s # ts) = s @ sep @ join sep ts"
  by (cases ts) auto

lemma join_split_on: "join [sep] (split_on sep s) = s"
proof -
  have "join [sep] (split_on_from sep acc s) = rev acc @ s" for acc
    by (induction sep acc s rule: split_on_from.induct)
      (auto simp: join_Cons split_on_from_nonempty)
  then show ?thesis by (simp add: split_on_def)
qed

text \<open>\<open>s.replace(old, '')\<close> for a non-empty \<open>old\<close>: occurrences from left to right, no overlap.\<close>

fun remove_all :: "string \<Rightarrow> string \<Rightarrow> string" where
  "remove_all old [] = []"
| "remove_all old (c # cs) =
     (if old \<noteq> [] \<and> startswith (c # cs) old then remove_all old (drop (length old) (c # cs))
      else c # remove_all old cs)"

lemma remove_all_absent: "c \<in> set old \<Longrightarrow> c \<notin> set s \<Longrightarrow> remove_all old s = s"
proof (induction old s rule: remove_all.induct)
  case (1 old)
  then show ?case by simp
next
  case (2 old d ds)
  have "\<not> startswith (d # ds) old"
    using "2.prems" unfolding startswith_def by (metis in_set_takeD)
  then show ?case using 2 by simp
qed

lemma remove_all_char: "remove_all [c] s = filter (\<lambda>d. d \<noteq> c) s"
  by (induction s) (auto simp: startswith_def)

text \<open>\<open>repr(s)\<close>: the quote is double only when the string holds a single quote and no double one.\<close>

definition hex_chars :: string where
  "hex_chars = ''0123456789abcdef''"

definition repr_char :: "char \<Rightarrow> char \<Rightarrow> string" where
  "repr_char q c = (let n = char_code c in
     if c = q \<or> n = 92 then [CHR 0x5C, c]
     else if n = 9 then [CHR 0x5C, CHR ''t'']
     else if n = 10 then [CHR 0x5C, CHR ''n'']
     else if n = 13 then [CHR 0x5C, CHR ''r'']
     else if n < 32 \<or> (127 \<le> n \<and> n \<le> 160) \<or> n = 173
       then [CHR 0x5C, CHR ''x'', hex_chars ! (n div 16), hex_chars ! (n mod 16)]
     else [c])"

definition py_repr :: "string \<Rightarrow> string" where
  "py_repr s =
     (let q = (if CHR 0x27 \<in> set s \<and> CHR 0x22 \<notin> set s then CHR 0x22 else CHR 0x27)
      in q # concat (map (repr_char q) s) @ [q])"

text \<open>\<open>s.strip(chars)\<close>.\<close>

definition strip_chars :: "string \<Rightarrow> string \<Rightarrow> string" where
  "strip_chars cs s =
     rev (dropWhile (\<lambda>c. c \<in> set cs) (rev (dropWhile (\<lambda>c. c \<in> set cs) s)))"

text \<open>\<open>str.upper\<close> on the ASCII letters.\<close>

definition upper :: "string \<Rightarrow> string" where
  "upper s = map (\<lambda>c. if 97 \<le> char_code c \<and> char_code c \<le> 122
                      then char_of (char_code c - 32) else c) s"

end
