(* ===== verification/PyNum.thy ===== *)
theory PyNum
  imports PyStr
begin

text \<open>
  Numbers and their text forms in Python's standard library, as far as the program uses them:
  \<open>int(s)\<close> (white space, sign, underscores between digits, the \<open>0x\<close> prefix in base 16),
  \<open>str(i)\<close>, \<open>uuid.UUID(s)\<close> and \<open>str(uuid)\<close>, the rounding division of
  \<open>timedelta / int\<close>, and \<open>datetime.isoformat\<close> in UTC.
  The lemmas show that both text forms read back: \<open>py_int_str\<close> and \<open>uuid_parse_str\<close>.
\<close>

subsection \<open>Reading integers\<close>

definition digit_val :: "char \<Rightarrow> nat option" where
  "digit_val c = (let n = char_code c in
     if 48 \<le> n \<and> n \<le> 57 then Some (n - 48)
     else if 97 \<le> n \<and> n \<le> 122 then Some (n - 87)
     else if 65 \<le> n \<and> n \<le> 90 then Some (n - 55)
     else None)"

text \<open>
  The digits of a literal. The flag says that an underscore may not come next (at the start and
  after an underscore); a literal may not end where one is not allowed.
\<close>

fun parse_digits :: "nat \<Rightarrow> nat \<Rightarrow> bool \<Rightarrow> string \<Rightarrow> nat option" where
  "parse_digits base acc us [] = (if us then None else Some acc)"
| "parse_digits base acc us (c # cs) =
     (if c = CHR ''_'' then (if us then None else parse_digits base acc True cs)
      else case digit_val c of
             None \<Rightarrow> None
           | Some d \<Rightarrow> if d < base then parse_digits base (acc * base + d) False cs else None)"

definition int_space :: "char \<Rightarrow> bool" where
  "int_space c = (let n = char_code c in (9 \<le> n \<and> n \<le> 13) \<or> n = 32 \<or> n = 133 \<or> n = 160)"

definition int_strip :: "string \<Rightarrow> string" where
  "int_strip s = rev (dropWhile int_space (rev (dropWhile int_space s)))"

definition drop_0x :: "string \<Rightarrow> string" where
  "drop_0x s = (case s of
     c # x # cs \<Rightarrow>
       if c = CHR ''0'' \<and> (x = CHR ''x'' \<or> x = CHR ''X'')
       then (case cs of d # ds \<Rightarrow> if d = CHR ''_'' then ds else cs | [] \<Rightarrow> [])
       else s
   | _ \<Rightarrow> s)"

definition split_sign :: "string \<Rightarrow> bool \<times> string" where
  "split_sign s = (case s of
     [] \<Rightarrow> (False, [])
   | c # cs \<Rightarrow> if c = CHR ''-'' then (True, cs)
               else if c = CHR ''+'' then (False, cs) else (False, s))"

definition py_int :: "nat \<Rightarrow> string \<Rightarrow> int result" where
  "py_int base s =
     (let (neg, t) = split_sign (int_strip s);
          ds = (if base = 16 then drop_0x t else t)
      in case parse_digits base 0 True ds of
           None \<Rightarrow> Inl (ValueError ''invalid literal for int()'')
         | Some n \<Rightarrow> Inr (if neg then - int n else int n))"

subsection \<open>Writing integers\<close>

definition digit_char :: "nat \<Rightarrow> char" where
  "digit_char d = ''0123456789abcdef'' ! d"

fun nat_digits :: "nat \<Rightarrow> string" where
  "nat_digits n = (if n < 10 then [digit_char n] else nat_digits (n div 10) @ [digit_char (n mod 10)])"

declare nat_digits.simps [simp del]

definition py_str_int :: "int \<Rightarrow> string" where
  "py_str_int i = (if i < 0 then CHR ''-'' # nat_digits (nat (- i)) else nat_digits (nat i))"

text \<open>The lowest \<open>w\<close> digits of \<open>n\<close> in base \<open>b\<close>, zero-padded: \<open>'%0wx' % n\<close>, \<open>'%0wd' % n\<close>.\<close>

fun pad_digits :: "nat \<Rightarrow> nat \<Rightarrow> nat \<Rightarrow> string" where
  "pad_digits b 0 n = []"
| "pad_digits b (Suc w) n = pad_digits b w (n div b) @ [digit_char (n mod b)]"

lemma length_pad_digits [simp]: "length (pad_digits b w n) = w"
  by (induction w arbitrary: n) auto

lemma pad_digits_numeral:
  "pad_digits b (numeral k) n =
   pad_digits b (pred_numeral k) (n div b) @ [digit_char (n mod b)]"
  by (simp add: numeral_eq_Suc)

definition is_digit :: "nat \<Rightarrow> char \<Rightarrow> bool" where
  "is_digit base c = (\<exists>d < base. digit_val c = Some d)"

lemma less_16_cases:
  fixes d :: nat
  assumes "d < 16"
  shows "d \<in> {0, 1, 2, 3, 4, 5, 6, 7, 8, 9, 10, 11, 12, 13, 14, 15}"
  using assms by simp arith

lemma char_code_digit: "d < 16 \<Longrightarrow> char_code (digit_char d) = (if d < 10 then 48 + d else 87 + d)"
  by (drule less_16_cases) (auto simp: char_code_def digit_char_def)

lemma digit_val_char: "d < 16 \<Longrightarrow> digit_val (digit_char d) = Some d"
  by (auto simp: digit_val_def Let_def char_code_digit)

lemma is_digit_char: "d < b \<Longrightarrow> b \<le> 16 \<Longrightarrow> is_digit b (digit_char d)"
  by (auto simp: is_digit_def digit_val_char)

lemma not_is_digit [simp]:
  "\<not> is_digit b (CHR ''_'')" "\<not> is_digit b (CHR ''-'')" "\<not> is_digit b (CHR ''+'')"
  "\<not> is_digit b (CHR '':'')" "\<not> is_digit b (CHR ''{'')" "\<not> is_digit b (CHR ''}'')"
  by (simp_all add: is_digit_def digit_val_def char_code_def)

lemma is_digit_no_space: "is_digit b c \<Longrightarrow> \<not> int_space c"
  by (auto simp: is_digit_def digit_val_def int_space_def Let_def split: if_splits)

lemma parse_digits_value:
  "\<forall>c \<in> set s. is_digit b c \<Longrightarrow> s \<noteq> [] \<or> \<not> us \<Longrightarrow>
   parse_digits b acc us s = Some (foldl (\<lambda>a c. a * b + the (digit_val c)) acc s)"
proof (induction s arbitrary: acc us)
  case Nil
  then show ?case by simp
next
  case (Cons c s)
  then obtain d where "d < b" "digit_val c = Some d"
    by (auto simp: is_digit_def)
  moreover have "c \<noteq> CHR ''_''" using Cons.prems(1) by auto
  ultimately show ?case using Cons by simp
qed

lemma int_strip_id:
  assumes "s \<noteq> []" "\<not> int_space (hd s)" "\<not> int_space (last s)"
  shows "int_strip s = s"
proof -
  have "dropWhile int_space s = s" using assms by (cases s) auto
  moreover have "dropWhile int_space (rev s) = rev s" using assms by (cases s rule: rev_cases) auto
  ultimately show ?thesis by (simp add: int_strip_def)
qed

lemma digits_strip_sign:
  assumes "s \<noteq> []" "\<forall>c \<in> set s. is_digit b c"
  shows "int_strip s = s" "split_sign s = (False, s)"
proof -
  show "int_strip s = s"
    using assms is_digit_no_space[of b "hd s"] is_digit_no_space[of b "last s"]
    by (intro int_strip_id) auto
  show "split_sign s = (False, s)"
    using assms by (cases s) (auto simp: split_sign_def)
qed

lemma nat_digits_nonempty [simp]: "nat_digits n \<noteq> []"
  by (subst nat_digits.simps) simp

lemma nat_digits_digits: "\<forall>c \<in> set (nat_digits n). is_digit 10 c"
proof (induction n rule: nat_digits.induct)
  case (1 n)
  then show ?case
    by (subst nat_digits.simps) (auto simp: is_digit_char)
qed

lemma nat_digits_value: "foldl (\<lambda>a c. a * 10 + the (digit_val c)) 0 (nat_digits n) = n"
proof (induction n rule: nat_digits.induct)
  case (1 n)
  then show ?case
    by (cases "n < 10") (subst nat_digits.simps, simp add: digit_val_char)+
qed

lemma pad_digits_digits: "0 < b \<Longrightarrow> b \<le> 16 \<Longrightarrow> \<forall>c \<in> set (pad_digits b w n). is_digit b c"
  by (induction w arbitrary: n) (auto simp: is_digit_char)

lemma pad_digits_value:
  assumes "0 < b" "b \<le> 16"
  shows "foldl (\<lambda>a c. a * b + the (digit_val c)) 0 (pad_digits b w n) = n mod b ^ w"
proof (induction w arbitrary: n)
  case 0
  then show ?case by simp
next
  case (Suc w)
  have "n mod b < b" using assms by simp
  then have "n mod b < 16" using assms by linarith
  then have "the (digit_val (digit_char (n mod b))) = n mod b"
    by (simp add: digit_val_char)
  moreover have "n mod b ^ Suc w = (n div b mod b ^ w) * b + n mod b"
    by (simp add: mod_mult2_eq mult.commute)
  ultimately show ?case using Suc by simp
qed

lemma py_int_digits:
  assumes "s \<noteq> []" "\<forall>c \<in> set s. is_digit 10 c"
  shows "py_int 10 s = Inr (int (foldl (\<lambda>a c. a * 10 + the (digit_val c)) 0 s))"
  using assms
  by (simp add: py_int_def digits_strip_sign[OF assms] parse_digits_value)

text \<open>\<open>int(str(i)) == i\<close>.\<close>

lemma py_int_str: "py_int 10 (py_str_int i) = Inr i"
proof (cases "i < 0")
  case True
  let ?ds = "nat_digits (nat (- i))"
  have "\<forall>c \<in> set ?ds. is_digit 10 c" by (rule nat_digits_digits)
  then have "\<not> int_space (last ?ds)" using is_digit_no_space last_in_set nat_digits_nonempty by blast
  then have "int_strip (CHR ''-'' # ?ds) = CHR ''-'' # ?ds"
    by (intro int_strip_id) (auto simp: int_space_def char_code_def)
  then show ?thesis
    using True
    by (simp add: py_int_def py_str_int_def split_sign_def parse_digits_value
        nat_digits_digits nat_digits_value)
next
  case False
  then show ?thesis
    by (simp add: py_str_int_def py_int_digits nat_digits_digits nat_digits_value)
qed

subsection \<open>UUIDs\<close>

definition uuid_str :: "uuid \<Rightarrow> string" where
  "uuid_str u = (let h = pad_digits 16 32 u in
     join ''-'' [slice 0 8 h, slice 8 12 h, slice 12 16 h, slice 16 20 h, drop 20 h])"

definition uuid_parse :: "string \<Rightarrow> uuid result" where
  "uuid_parse s =
     (let t = remove_all ''uuid:'' (remove_all ''urn:'' s);
          h = remove_all ''-'' (strip_chars ''{}'' t)
      in if length h \<noteq> 32 then Inl (ValueError ''badly formed hexadecimal UUID string'')
         else rbind (py_int 16 h) (\<lambda>i.
           if 0 \<le> i \<and> i < 2 ^ 128 then Inr (nat i)
           else Inl (ValueError ''int is out of range (need a 128-bit value)'')))"

lemma drop_0x_digits:
  assumes "\<forall>c \<in> set s. is_digit 16 c"
  shows "drop_0x s = s"
  using assms
  by (auto simp: drop_0x_def is_digit_def digit_val_def char_code_def Let_def
      split: list.splits if_splits)

lemma py_int_hex:
  assumes "s \<noteq> []" "\<forall>c \<in> set s. is_digit 16 c"
  shows "py_int 16 s = Inr (int (foldl (\<lambda>a c. a * 16 + the (digit_val c)) 0 s))"
  using assms
  by (simp add: py_int_def digits_strip_sign[OF assms] parse_digits_value drop_0x_digits)

lemma strip_chars_id:
  "(\<forall>c \<in> set s. c \<notin> set cs) \<Longrightarrow> strip_chars cs s = s"
proof -
  assume none: "\<forall>c \<in> set s. c \<notin> set cs"
  have "dropWhile (\<lambda>c. c \<in> set cs) s = s" using none by (cases s) auto
  moreover have "dropWhile (\<lambda>c. c \<in> set cs) (rev s) = rev s"
    using none by (cases s rule: rev_cases) auto
  ultimately show ?thesis by (simp add: strip_chars_def)
qed

lemma uuid_groups:
  "take 8 h @ take 4 (drop 8 h) @ take 4 (drop 12 h) @ take 4 (drop 16 h) @ drop 20 h = h"
  using take_add[of 8 4 h] take_add[of 12 4 h] take_add[of 16 4 h] append_take_drop_id[of 20 h]
  by simp

text \<open>\<open>uuid.UUID(str(u)) == u\<close> for every 128-bit \<open>u\<close>.\<close>

lemma uuid_parse_str:
  assumes "u < 2 ^ 128"
  shows "uuid_parse (uuid_str u) = Inr u"
proof -
  let ?h = "pad_digits 16 32 u"
  have dig: "\<forall>c \<in> set ?h. is_digit 16 c" by (rule pad_digits_digits) auto
  have str: "uuid_str u = take 8 ?h @ ''-'' @ take 4 (drop 8 ?h) @ ''-'' @ take 4 (drop 12 ?h)
      @ ''-'' @ take 4 (drop 16 ?h) @ ''-'' @ drop 20 ?h"
    by (simp add: uuid_str_def slice_def Let_def)
  have sub: "set (uuid_str u) \<subseteq> insert (CHR ''-'') (set ?h)"
    unfolding str by (auto dest: in_set_takeD in_set_dropD)
  have neq: "c \<noteq> CHR '':'' \<and> c \<noteq> CHR ''{'' \<and> c \<noteq> CHR ''}''" if "c \<in> set (uuid_str u)" for c
  proof (cases "c = CHR ''-''")
    case False
    then have "is_digit 16 c" using sub that dig by blast
    then show ?thesis by auto
  qed simp
  have urn: "remove_all ''uuid:'' (remove_all ''urn:'' (uuid_str u)) = uuid_str u"
  proof -
    have colon: "CHR '':'' \<notin> set (uuid_str u)" using neq by blast
    have "remove_all ''urn:'' (uuid_str u) = uuid_str u"
      by (rule remove_all_absent[OF _ colon]) simp
    moreover have "remove_all ''uuid:'' (uuid_str u) = uuid_str u"
      by (rule remove_all_absent[OF _ colon]) simp
    ultimately show ?thesis by simp
  qed
  have strip: "strip_chars ''{}'' (uuid_str u) = uuid_str u"
    using neq by (intro strip_chars_id) auto
  have keep: "filter (\<lambda>d. d \<noteq> CHR ''-'') xs = xs" if "set xs \<subseteq> set ?h" for xs
    using that dig by (force simp: filter_id_conv)
  have parts: "set (take n (drop m ?h)) \<subseteq> set ?h" "set (take n ?h) \<subseteq> set ?h" "set (drop n ?h) \<subseteq> set ?h" for n m
    by (auto dest: in_set_takeD in_set_dropD)
  have "remove_all ''-'' (uuid_str u) =
      take 8 ?h @ take 4 (drop 8 ?h) @ take 4 (drop 12 ?h) @ take 4 (drop 16 ?h) @ drop 20 ?h"
    unfolding remove_all_char str by (simp add: keep[OF parts(1)] keep[OF parts(2)] keep[OF parts(3)])
  also have "\<dots> = ?h"
    by (rule uuid_groups)
  finally have h: "remove_all ''-'' (uuid_str u) = ?h" .
  have "py_int 16 ?h = Inr (int (u mod 16 ^ 32))"
    using dig by (subst py_int_hex) (auto simp: pad_digits_value simp flip: length_greater_0_conv)
  moreover have "u mod 16 ^ 32 = u" using assms by simp
  ultimately have "py_int 16 ?h = Inr (int u)" by simp
  moreover have "int u < 2 ^ 128" using assms by (metis of_nat_less_iff of_nat_numeral of_nat_power)
  ultimately show ?thesis
    by (simp add: uuid_parse_def urn strip h)
qed

end
