(* ===== verification/PyTime.thy ===== *)
theory PyTime
  imports PyNum
begin

text \<open>
  Python's \<open>datetime\<close> and \<open>timedelta\<close>. An aware instant is a number of microseconds since the
  epoch; \<open>py_datetime\<close> also has the naive instants that the tracking services reject.
  \<open>div_half_even\<close> is the division of a \<open>timedelta\<close> by an \<open>int\<close> (to the nearest microsecond,
  ties to even); its lemmas say that it is exact on multiples and monotone.
\<close>

datatype py_datetime = Naive int | Aware datetime

fun tz_aware :: "py_datetime \<Rightarrow> bool" where
  "tz_aware (Naive _) = False"
| "tz_aware (Aware _) = True"

fun instant_us :: "py_datetime \<Rightarrow> int" where
  "instant_us (Naive t) = t"
| "instant_us (Aware t) = t"

subsection \<open>Division of a timedelta\<close>

definition div_half_even :: "int \<Rightarrow> int \<Rightarrow> int" where
  "div_half_even a b =
     (let q = a div b; r = a mod b;
          more_than_half = (if b > 0 then 2 * r > b else 2 * r < b)
      in if more_than_half \<or> (2 * r = b \<and> odd q) then q + 1 else q)"

lemma div_half_even_exact: "b \<noteq> 0 \<Longrightarrow> div_half_even (k * b) b = k"
  by (simp add: div_half_even_def)

lemma div_half_even_bounds:
  assumes "0 < b"
  shows "2 * a - b \<le> 2 * b * div_half_even a b" "2 * b * div_half_even a b \<le> 2 * a + b"
proof -
  define q r where "q = a div b" and "r = a mod b"
  have a: "a = q * b + r" by (simp add: q_def r_def)
  have r: "0 \<le> r" "r < b" using assms by (simp_all add: r_def)
  have "div_half_even a b = (if 2 * r > b \<or> (2 * r = b \<and> odd q) then q + 1 else q)"
    using assms by (simp add: div_half_even_def q_def r_def Let_def)
  then show "2 * a - b \<le> 2 * b * div_half_even a b" "2 * b * div_half_even a b \<le> 2 * a + b"
    using r by (auto simp: a algebra_simps)
qed

lemma div_half_even_mono:
  assumes "0 < b" "a \<le> a'"
  shows "div_half_even a b \<le> div_half_even a' b"
proof (rule ccontr)
  assume "\<not> ?thesis"
  then have less: "div_half_even a' b + 1 \<le> div_half_even a b" by simp
  have le: "2 * b * (div_half_even a' b + 1) \<le> 2 * b * div_half_even a b"
    using less assms(1) by (intro mult_left_mono) auto
  have "2 * b * (div_half_even a' b + 1) = 2 * b * div_half_even a' b + 2 * b"
    by (simp add: algebra_simps)
  then have "a = a'"
    using le assms(2) div_half_even_bounds[OF assms(1), of a] div_half_even_bounds[OF assms(1), of a']
    by linarith
  then show False using less by simp
qed

lemma div_half_even_between:
  assumes "0 < b" "lo * b \<le> a" "a \<le> hi * b"
  shows "lo \<le> div_half_even a b" "div_half_even a b \<le> hi"
  using div_half_even_mono[OF assms(1,2)] div_half_even_mono[OF assms(1,3)] assms(1)
  by (simp_all add: div_half_even_exact)

subsection \<open>isoformat\<close>

text \<open>Year, month and day of a day number (0 is 1970-01-01) in the proleptic Gregorian calendar.\<close>

definition civil_from_days :: "int \<Rightarrow> int \<times> int \<times> int" where
  "civil_from_days days =
     (let z = days + 719468;
          era = z div 146097;
          doe = z mod 146097;
          yoe = (doe - doe div 1460 + doe div 36524 - doe div 146096) div 365;
          doy = doe - (365 * yoe + yoe div 4 - yoe div 100);
          mp = (5 * doy + 2) div 153;
          d = doy - (153 * mp + 2) div 5 + 1;
          m = (if mp < 10 then mp + 3 else mp - 9);
          y = yoe + era * 400
      in (if m \<le> 2 then y + 1 else y, m, d))"

definition isoformat :: "datetime \<Rightarrow> string" where
  "isoformat t =
     (let (y, m, d) = civil_from_days (t div 86400000000);
          us = t mod 86400000000;
          s = us div 1000000;
          dec = (\<lambda>w n. pad_digits 10 w (nat n));
          frac = us mod 1000000
      in dec 4 y @ ''-'' @ dec 2 m @ ''-'' @ dec 2 d @ ''T'' @
         dec 2 (s div 3600) @ '':'' @ dec 2 (s div 60 mod 60) @ '':'' @ dec 2 (s mod 60) @
         (if frac = 0 then [] else ''.'' @ dec 6 frac) @ ''+00:00'')"

lemma civil_from_days_examples:
  "civil_from_days 0 = (1970, 1, 1)"
  "civil_from_days 19781 = (2024, 2, 28)"
  "civil_from_days 20626 = (2026, 6, 22)"
  by code_simp+

lemma isoformat_examples:
  "isoformat 0 = ''1970-01-01T00:00:00+00:00''"
  "isoformat 1709164799000000 = ''2024-02-28T23:59:59+00:00''"
  "isoformat 1782166776500001 = ''2026-06-22T22:19:36.500001+00:00''"
  by (simp_all add: isoformat_def civil_from_days_examples digit_char_def pad_digits_numeral Let_def)

end
