(* ===== verification/Config.thy ===== *)
theory Config
  imports PyTime
begin

text \<open>
  \<open>app/core/config.py\<close>: the settings with their defaults and the two validators pydantic runs, in
  this order, after it has read the fields. Reading the environment and \<open>.env\<close> files is pydantic's:
  \<open>raw\<close> is the settings object it has filled in. \<open>load_settings\<close> is the value of
  \<open>Settings()\<close>, or the error its construction ends with.
  The lemma \<open>load_settings_lease\<close> gives the rest of the development the lease inequality.
\<close>

record settings =
  APP_NAME :: string
  APP_VERSION :: string
  ENVIRONMENT :: string
  CORS_ORIGINS :: string
  DB_HOST :: string
  DB_PORT :: int
  DB_USER :: string
  DB_PASSWORD :: string
  DB_NAME :: string
  DATABASE_URL :: string
  DB_POOL_SIZE :: int
  DB_MAX_OVERFLOW :: int
  DB_POOL_TIMEOUT :: int
  DB_POOL_RECYCLE :: int
  JOB_POLL_INTERVAL :: timedelta
  JOB_LEASE_SECONDS :: int
  JOB_HANDLER_TIMEOUT_SECONDS :: int
  OUTBOX_POLL_INTERVAL :: timedelta
  OUTBOX_HANDLER_TIMEOUT_SECONDS :: int
  OUTBOX_MAX_RETRIES :: int
  CELESTRAK_BASE_URL :: string
  CELESTRAK_GROUP :: string
  CELESTRAK_TIMEOUT :: timedelta
  PASS_PREDICTION_HORIZON_HOURS :: int

definition default_settings :: settings where
  "default_settings = \<lparr>
     APP_NAME = ''apsis'',
     APP_VERSION = ''0.1.0'',
     ENVIRONMENT = ''local'',
     CORS_ORIGINS = [],
     DB_HOST = ''localhost'',
     DB_PORT = 5432,
     DB_USER = ''apsis'',
     DB_PASSWORD = ''apsis'',
     DB_NAME = ''apsis_dev'',
     DATABASE_URL = [],
     DB_POOL_SIZE = 5,
     DB_MAX_OVERFLOW = 10,
     DB_POOL_TIMEOUT = 30,
     DB_POOL_RECYCLE = 1800,
     JOB_POLL_INTERVAL = seconds 5,
     JOB_LEASE_SECONDS = 120,
     JOB_HANDLER_TIMEOUT_SECONDS = 55,
     OUTBOX_POLL_INTERVAL = seconds 5,
     OUTBOX_HANDLER_TIMEOUT_SECONDS = 30,
     OUTBOX_MAX_RETRIES = 8,
     CELESTRAK_BASE_URL = ''https://celestrak.org/NORAD/elements/gp.php'',
     CELESTRAK_GROUP = ''active'',
     CELESTRAK_TIMEOUT = seconds 30,
     PASS_PREDICTION_HORIZON_HOURS = 48\<rparr>"

text \<open>The property \<open>cors_origins\<close>.\<close>

definition cors_origins :: "settings \<Rightarrow> string list" where
  "cors_origins s = [strip p. p \<leftarrow> split_on (CHR '','') (CORS_ORIGINS s), strip p \<noteq> []]"

text \<open>
  The part of a database URL after the scheme, which the SQLAlchemy URL here and the outbox worker's
  raw connection string (\<open>_build_asyncpg_dsn\<close>) both spell out.
\<close>

definition url_from_parts :: "string \<Rightarrow> settings \<Rightarrow> string" where
  "url_from_parts scheme s =
     scheme @ ''://'' @ DB_USER s @ '':'' @ DB_PASSWORD s @
     ''@'' @ DB_HOST s @ '':'' @ py_str_int (DB_PORT s) @ ''/'' @ DB_NAME s"

definition build_database_url :: "settings \<Rightarrow> settings" where
  "build_database_url s =
     (if DATABASE_URL s = [] then s\<lparr>DATABASE_URL := url_from_parts ''postgresql+asyncpg'' s\<rparr> else s)"

definition validate_lease_invariant :: "settings \<Rightarrow> settings result" where
  "validate_lease_invariant s =
     (if JOB_LEASE_SECONDS s < 2 * JOB_HANDLER_TIMEOUT_SECONDS s
      then Inl (ValueError ''JOB_LEASE_SECONDS must be >= 2 * JOB_HANDLER_TIMEOUT_SECONDS'')
      else Inr s)"

definition load_settings :: "settings \<Rightarrow> settings result" where
  "load_settings raw = validate_lease_invariant (build_database_url raw)"

lemma load_settings_lease:
  "load_settings raw = Inr cfg \<Longrightarrow> 2 * JOB_HANDLER_TIMEOUT_SECONDS cfg \<le> JOB_LEASE_SECONDS cfg"
  by (auto simp: load_settings_def validate_lease_invariant_def split: if_splits)

lemma load_settings_url: "load_settings raw = Inr cfg \<Longrightarrow> DATABASE_URL cfg \<noteq> []"
  by (auto simp: load_settings_def validate_lease_invariant_def build_database_url_def
      url_from_parts_def split: if_splits)

lemma load_settings_parts:
  assumes "load_settings raw = Inr cfg"
  shows "DB_HOST cfg = DB_HOST raw" "DB_PORT cfg = DB_PORT raw" "DB_USER cfg = DB_USER raw"
    "DB_PASSWORD cfg = DB_PASSWORD raw" "DB_NAME cfg = DB_NAME raw"
  using assms
  by (auto simp: load_settings_def validate_lease_invariant_def build_database_url_def
      split: if_splits)

lemma url_from_parts_cong:
  "DB_HOST s = DB_HOST t \<Longrightarrow> DB_PORT s = DB_PORT t \<Longrightarrow> DB_USER s = DB_USER t \<Longrightarrow>
   DB_PASSWORD s = DB_PASSWORD t \<Longrightarrow> DB_NAME s = DB_NAME t \<Longrightarrow>
   url_from_parts scheme s = url_from_parts scheme t"
  by (simp add: url_from_parts_def)

end
