(* ===== verification/Jobs.thy ===== *)
theory Jobs
  imports Config
begin

text \<open>
  \<open>app/core/jobs\<close>: the table \<open>scheduled_jobs\<close> (\<open>models.py\<close>), the registry (\<open>registry.py\<close>) and the
  \<open>JobWorker\<close> (\<open>worker.py\<close>). A job's handler is a function on a world \<open>'w\<close> (the other tables) that
  ends normally or with an exception: it stands for \<open>asyncio.wait_for(handler(), timeout)\<close>, so a
  timeout is the exception \<open>TimeoutError\<close> and a shutdown is \<open>CancelledError\<close>.
  \<open>traceback.format_exc()\<close> is the parameter \<open>tb\<close>. The \<open>asyncio\<close> task that runs the loop and the
  logging are not modelled.
\<close>

record job =
  job_id :: uuid
  job_name :: string
  job_description :: "string option"
  interval_seconds :: int
  job_status :: row_status
  last_run_at :: "datetime option"
  next_run_at :: datetime
  job_last_error :: "string option"
  run_count :: int
  claimed_by :: "string option"
  lease_until :: "datetime option"
  job_created_at :: datetime
  job_updated_at :: "datetime option"

subsection \<open>The registry\<close>

type_synonym 'w job_handler = "'w \<Rightarrow> exc option \<times> 'w"
type_synonym 'w job_registry = "(string \<times> 'w job_handler) list"

definition register_job :: "string \<Rightarrow> 'w job_handler \<Rightarrow> 'w job_registry \<Rightarrow> 'w job_registry" where
  "register_job name func reg = AList.update name func reg"

definition get_job :: "'w job_registry \<Rightarrow> string \<Rightarrow> 'w job_handler option" where
  "get_job reg name = map_of reg name"

definition registered_jobs :: "'w job_registry \<Rightarrow> string list" where
  "registered_jobs reg = map fst reg"

subsection \<open>Recovery of stale jobs\<close>

definition stale :: "datetime \<Rightarrow> job \<Rightarrow> bool" where
  "stale now j \<longleftrightarrow> job_status j = RUNNING \<and>
     (case lease_until j of None \<Rightarrow> True | Some l \<Rightarrow> l < now)"

definition release :: "job \<Rightarrow> job" where
  "release j = j\<lparr>job_status := PENDING, claimed_by := None, lease_until := None\<rparr>"

definition recover_stale_jobs :: "datetime \<Rightarrow> job list \<Rightarrow> job list" where
  "recover_stale_jobs now jobs = update_where (stale now) release jobs"

subsection \<open>Claiming, running, rescheduling\<close>

definition JOB_BATCH_SIZE :: nat where
  "JOB_BATCH_SIZE = 10"

definition due :: "datetime \<Rightarrow> job \<Rightarrow> bool" where
  "due now j \<longleftrightarrow> job_status j = PENDING \<and> next_run_at j \<le> now"

definition candidate_ids :: "datetime \<Rightarrow> job list \<Rightarrow> uuid list" where
  "candidate_ids now jobs = map job_id (take JOB_BATCH_SIZE (select_order_by next_run_at (due now) jobs))"

text \<open>
  The readings of \<open>datetime.now(UTC)\<close> in \<open>_execute_job\<close>, in the order the code takes them: for the
  lease, for the claim's condition, for \<open>updated_at\<close>, and after the handler.
\<close>

record job_clock =
  ck_lease :: datetime
  ck_due :: datetime
  ck_updated :: datetime
  ck_end :: datetime

definition claimable :: "datetime \<Rightarrow> uuid \<Rightarrow> job \<Rightarrow> bool" where
  "claimable now jid j \<longleftrightarrow> job_id j = jid \<and> due now j"

definition claim_values :: "string \<Rightarrow> datetime \<Rightarrow> datetime \<Rightarrow> job \<Rightarrow> job" where
  "claim_values worker_id lease now j =
     j\<lparr>job_status := RUNNING, claimed_by := Some worker_id, lease_until := Some lease,
       job_updated_at := Some now\<rparr>"

text \<open>Phase 1: \<open>UPDATE \<dots> RETURNING job_name, interval_seconds\<close> and its commit.\<close>

definition claim_job ::
  "settings \<Rightarrow> string \<Rightarrow> job_clock \<Rightarrow> uuid \<Rightarrow> job list \<Rightarrow> ((string \<times> int) option \<times> job list) result" where
  "claim_job cfg worker_id ck jid jobs =
     (let lease = ck_lease ck + seconds (JOB_LEASE_SECONDS cfg);
          guard = claimable (ck_due ck) jid;
          returned = [(job_name j, interval_seconds j). j \<leftarrow> jobs, guard j]
      in rbind (one_or_none returned) (\<lambda>row.
           Inr (row, update_where guard (claim_values worker_id lease (ck_updated ck)) jobs)))"

text \<open>Phase 2: the value of \<open>error\<close>; an exception outside \<open>Exception\<close> leaves the function.\<close>

definition run_handler ::
  "(exc \<Rightarrow> string) \<Rightarrow> 'w job_registry \<Rightarrow> string \<Rightarrow> 'w \<Rightarrow> string option result \<times> 'w" where
  "run_handler tb reg name w =
     (case get_job reg name of
        None \<Rightarrow> (Inr (Some (''No handler registered for job '' @ [CHR 0x27] @ name @ [CHR 0x27])), w)
      | Some handler \<Rightarrow>
          (case handler w of
             (None, w') \<Rightarrow> (Inr None, w')
           | (Some e, w') \<Rightarrow> (if is_Exception e then Inr (Some (tb e)) else Inl e, w')))"

text \<open>Phase 3. \<open>error[-500:] if error else None\<close>: an empty string counts as no error.\<close>

definition stored_error :: "string option \<Rightarrow> string option" where
  "stored_error error = (case error of
     None \<Rightarrow> None
   | Some s \<Rightarrow> if s = [] then None else Some (last_chars 500 s))"

definition reschedule_values :: "datetime \<Rightarrow> int \<Rightarrow> string option \<Rightarrow> job \<Rightarrow> job" where
  "reschedule_values now interval error j =
     j\<lparr>job_status := PENDING, claimed_by := None, lease_until := None,
       next_run_at := now + seconds interval, last_run_at := Some now,
       run_count := run_count j + 1, job_last_error := stored_error error,
       job_updated_at := Some now\<rparr>"

definition reschedule_job :: "datetime \<Rightarrow> uuid \<Rightarrow> int \<Rightarrow> string option \<Rightarrow> job list \<Rightarrow> job list" where
  "reschedule_job now jid interval error jobs =
     update_where (\<lambda>j. job_id j = jid) (reschedule_values now interval error) jobs"

definition execute_job ::
  "settings \<Rightarrow> (exc \<Rightarrow> string) \<Rightarrow> 'w job_registry \<Rightarrow> string \<Rightarrow> job_clock \<Rightarrow> uuid \<Rightarrow>
   job list \<times> 'w \<Rightarrow> unit result \<times> job list \<times> 'w" where
  "execute_job cfg tb reg worker_id ck jid st =
     (let (jobs, w) = st in
      case claim_job cfg worker_id ck jid jobs of
        Inl e \<Rightarrow> (Inl e, jobs, w)
      | Inr (None, jobs') \<Rightarrow> (Inr (), jobs', w)
      | Inr (Some (name, interval), jobs') \<Rightarrow>
          (case run_handler tb reg name w of
             (Inl e, w') \<Rightarrow> (Inl e, jobs', w')
           | (Inr error, w') \<Rightarrow>
               (Inr (), reschedule_job (ck_end ck) jid interval error jobs', w')))"

text \<open>The loop over the candidates; \<open>clk k\<close> are the clock readings of its \<open>k\<close>-th round.\<close>

fun execute_jobs ::
  "settings \<Rightarrow> (exc \<Rightarrow> string) \<Rightarrow> 'w job_registry \<Rightarrow> string \<Rightarrow> (nat \<Rightarrow> job_clock) \<Rightarrow> nat \<Rightarrow> uuid list \<Rightarrow>
   job list \<times> 'w \<Rightarrow> unit result \<times> job list \<times> 'w" where
  "execute_jobs cfg tb reg worker_id clk k [] st = (Inr (), st)"
| "execute_jobs cfg tb reg worker_id clk k (jid # ids) st =
     (case execute_job cfg tb reg worker_id (clk k) jid st of
        (Inl e, st') \<Rightarrow> (Inl e, st')
      | (Inr _, st') \<Rightarrow> execute_jobs cfg tb reg worker_id clk (Suc k) ids st')"

definition process_due_jobs ::
  "settings \<Rightarrow> (exc \<Rightarrow> string) \<Rightarrow> 'w job_registry \<Rightarrow> string \<Rightarrow> datetime \<Rightarrow> (nat \<Rightarrow> job_clock) \<Rightarrow>
   job list \<times> 'w \<Rightarrow> unit result \<times> job list \<times> 'w" where
  "process_due_jobs cfg tb reg worker_id now clk st =
     execute_jobs cfg tb reg worker_id clk 0 (candidate_ids now (fst st)) st"

text \<open>
  One iteration of \<open>_run\<close>: an exception is logged and the loop goes on; \<open>CancelledError\<close> leaves it.
  \<open>run_worker\<close> is the loop over the polls until the shutdown event: one element per iteration, with
  the clock readings of the recovery, of the candidate query and of the jobs.
\<close>

record poll =
  poll_recover :: datetime
  poll_now :: datetime
  poll_clk :: "nat \<Rightarrow> job_clock"

definition worker_cycle ::
  "settings \<Rightarrow> (exc \<Rightarrow> string) \<Rightarrow> 'w job_registry \<Rightarrow> string \<Rightarrow> poll \<Rightarrow>
   job list \<times> 'w \<Rightarrow> unit result \<times> job list \<times> 'w" where
  "worker_cycle cfg tb reg worker_id p st =
     (let jobs = recover_stale_jobs (poll_recover p) (fst st) in
      case process_due_jobs cfg tb reg worker_id (poll_now p) (poll_clk p) (jobs, snd st) of
        (Inl e, st') \<Rightarrow> (if is_Exception e then Inr () else Inl e, st')
      | (Inr _, st') \<Rightarrow> (Inr (), st'))"

fun run_worker ::
  "settings \<Rightarrow> (exc \<Rightarrow> string) \<Rightarrow> 'w job_registry \<Rightarrow> string \<Rightarrow> poll list \<Rightarrow>
   job list \<times> 'w \<Rightarrow> unit result \<times> job list \<times> 'w" where
  "run_worker cfg tb reg worker_id [] st = (Inr (), st)"
| "run_worker cfg tb reg worker_id (p # ps) st =
     (case worker_cycle cfg tb reg worker_id p st of
        (Inl e, st') \<Rightarrow> (Inl e, st')
      | (Inr _, st') \<Rightarrow> run_worker cfg tb reg worker_id ps st')"

subsection \<open>The table's invariant\<close>

text \<open>
  \<open>status\<close> takes the values PENDING and RUNNING only; a running row has an owner and a lease, a
  pending one neither; the counter is not negative and a stored error is not longer than 500.
\<close>

definition job_ok :: "job \<Rightarrow> bool" where
  "job_ok j \<longleftrightarrow>
     (job_status j = PENDING \<and> claimed_by j = None \<and> lease_until j = None \<or>
      job_status j = RUNNING \<and> claimed_by j \<noteq> None \<and> lease_until j \<noteq> None) \<and>
     0 \<le> run_count j \<and>
     (case job_last_error j of None \<Rightarrow> True | Some s \<Rightarrow> s \<noteq> [] \<and> length s \<le> 500)"

definition jobs_ok :: "job list \<Rightarrow> bool" where
  "jobs_ok jobs \<longleftrightarrow>
     distinct (map job_id jobs) \<and> distinct (map job_name jobs) \<and> (\<forall>j \<in> set jobs. job_ok j)"

lemma stored_error_ok:
  "case stored_error error of None \<Rightarrow> True | Some s \<Rightarrow> s \<noteq> [] \<and> length s \<le> 500"
proof (cases error)
  case (Some s)
  then show ?thesis
    using length_last_chars[of 500 s]
    by (auto simp: stored_error_def simp flip: length_greater_0_conv)
qed (simp add: stored_error_def)

text \<open>The three UPDATE statements meet the interface of a guarded update.\<close>

interpretation recover_update: row_update job_id job_ok "stale now" release for now
  by unfold_locales (auto simp: job_ok_def release_def)

interpretation claim_update: row_update job_id job_ok "claimable now jid" "claim_values wid lease t"
  for now jid wid lease t
  by unfold_locales (auto simp: job_ok_def claim_values_def)

interpretation reschedule_update:
  row_update job_id job_ok "\<lambda>j. job_id j = jid" "reschedule_values now interval error"
  for jid now interval error
proof unfold_locales
  fix r
  show "job_id (reschedule_values now interval error r) = job_id r"
    by (simp add: reschedule_values_def)
  show "job_ok r \<Longrightarrow> job_id r = jid \<Longrightarrow> job_ok (reschedule_values now interval error r)"
    using stored_error_ok[of error] by (auto simp: job_ok_def reschedule_values_def)
qed

lemma job_names_kept:
  "map job_name (update_where (stale now) release jobs) = map job_name jobs"
  "map job_name (update_where g (claim_values wid lease t) jobs) = map job_name jobs"
  "map job_name (update_where g (reschedule_values now interval error) jobs) = map job_name jobs"
  by (simp_all add: update_where_def release_def claim_values_def reschedule_values_def)

lemma jobs_okD: "jobs_ok jobs \<Longrightarrow> \<forall>j \<in> set jobs. job_ok j"
  by (simp add: jobs_ok_def)

lemma jobs_ok_update:
  "jobs_ok jobs \<Longrightarrow> map job_id jobs' = map job_id jobs \<Longrightarrow> map job_name jobs' = map job_name jobs \<Longrightarrow>
   \<forall>j \<in> set jobs'. job_ok j \<Longrightarrow> jobs_ok jobs'"
  by (simp add: jobs_ok_def)

lemma jobs_ok_recover: "jobs_ok jobs \<Longrightarrow> jobs_ok (recover_stale_jobs now jobs)"
  unfolding recover_stale_jobs_def
  by (rule jobs_ok_update[OF _ _ _ recover_update.rows_ok_kept[OF jobs_okD]])
    (simp_all only: recover_update.keys_kept job_names_kept)

lemma jobs_ok_claim:
  assumes "jobs_ok jobs" and "claim_job cfg wid ck jid jobs = Inr (row, jobs')"
  shows "jobs_ok jobs'"
proof -
  have "jobs' = update_where (claimable (ck_due ck) jid)
      (claim_values wid (ck_lease ck + seconds (JOB_LEASE_SECONDS cfg)) (ck_updated ck)) jobs"
    using assms(2) by (auto simp: claim_job_def Let_def rbind_eq_Inr)
  then show ?thesis
    using claim_update.rows_ok_kept[OF jobs_okD[OF assms(1)]]
    by (intro jobs_ok_update[OF assms(1)]) (simp_all only: claim_update.keys_kept job_names_kept)
qed

lemma jobs_ok_reschedule: "jobs_ok jobs \<Longrightarrow> jobs_ok (reschedule_job now jid interval error jobs)"
  unfolding reschedule_job_def
  by (rule jobs_ok_update[OF _ _ _ reschedule_update.rows_ok_kept[OF jobs_okD]])
    (simp_all only: reschedule_update.keys_kept job_names_kept)

lemma jobs_ok_execute:
  "jobs_ok jobs \<Longrightarrow> execute_job cfg tb reg wid ck jid (jobs, w) = (r, jobs', w') \<Longrightarrow> jobs_ok jobs'"
  by (auto simp: execute_job_def jobs_ok_reschedule dest: jobs_ok_claim
      split: sum.splits option.splits prod.splits)

lemma jobs_ok_execute_jobs:
  "jobs_ok jobs \<Longrightarrow> execute_jobs cfg tb reg wid clk k ids (jobs, w) = (r, jobs', w') \<Longrightarrow> jobs_ok jobs'"
proof (induction ids arbitrary: k jobs w)
  case Nil
  then show ?case by simp
next
  case (Cons jid ids)
  obtain r1 jobs1 w1 where ex: "execute_job cfg tb reg wid (clk k) jid (jobs, w) = (r1, jobs1, w1)"
    by (metis prod_cases3)
  have ok: "jobs_ok jobs1" by (rule jobs_ok_execute[OF Cons.prems(1) ex])
  show ?case
  proof (cases r1)
    case (Inl e)
    then show ?thesis using Cons.prems(2) ex ok by simp
  next
    case (Inr u)
    then have "execute_jobs cfg tb reg wid clk (Suc k) ids (jobs1, w1) = (r, jobs', w')"
      using Cons.prems(2) ex by simp
    then show ?thesis by (rule Cons.IH[OF ok])
  qed
qed

subsection \<open>What one execution does\<close>

lemma returned_rows:
  "[(job_name j, interval_seconds j). j \<leftarrow> jobs, g j] =
   map (\<lambda>j. (job_name j, interval_seconds j)) (filter g jobs)"
  by (induction jobs) auto

lemma filter_claimable:
  assumes "distinct (map job_id jobs)" and "j \<in> set jobs"
  shows "filter (claimable now (job_id j)) jobs = (if due now j then [j] else [])"
proof -
  have "filter (claimable now (job_id j)) jobs = filter (due now) (filter (\<lambda>x. job_id x = job_id j) jobs)"
    by (simp add: claimable_def[abs_def] conj_commute)
  then show ?thesis by (simp add: filter_unique[OF assms])
qed

lemma claim_job_due:
  assumes "distinct (map job_id jobs)" and "j \<in> set jobs" and "due (ck_due ck) j"
  shows "claim_job cfg wid ck (job_id j) jobs =
    Inr (Some (job_name j, interval_seconds j),
         update_where (\<lambda>x. job_id x = job_id j)
           (claim_values wid (ck_lease ck + seconds (JOB_LEASE_SECONDS cfg)) (ck_updated ck)) jobs)"
proof -
  have "x = j" if "x \<in> set jobs" "job_id x = job_id j" for x
    using unique_column[OF assms(1) that(1) assms(2) that(2)] .
  then have "update_where (claimable (ck_due ck) (job_id j)) f jobs =
      update_where (\<lambda>x. job_id x = job_id j) f jobs" for f
    using assms(3) by (auto simp: update_where_def claimable_def)
  then show ?thesis
    using filter_claimable[OF assms(1,2), of "ck_due ck"] assms(3)
    by (simp add: claim_job_def returned_rows one_or_none_def)
qed

lemma claim_job_not_due:
  assumes "\<And>j. j \<in> set jobs \<Longrightarrow> job_id j = jid \<Longrightarrow> \<not> due (ck_due ck) j"
  shows "claim_job cfg wid ck jid jobs = Inr (None, jobs)"
proof -
  have none: "\<not> claimable (ck_due ck) jid j" if "j \<in> set jobs" for j
    using assms that by (auto simp: claimable_def)
  then have "filter (claimable (ck_due ck) jid) jobs = []" by (simp add: filter_empty_conv)
  then show ?thesis
    using none by (simp add: claim_job_def returned_rows one_or_none_def update_where_id)
qed

lemma reschedule_claim:
  "reschedule_values now interval error (claim_values wid lease t j) = reschedule_values now interval error j"
  by (simp add: reschedule_values_def claim_values_def)

lemma reschedule_claimed:
  "reschedule_job now jid interval error (update_where (\<lambda>x. job_id x = jid) (claim_values wid lease t) jobs) =
   reschedule_job now jid interval error jobs"
  by (simp add: reschedule_job_def update_where_def reschedule_claim)
    (auto simp: claim_values_def)

lemma execute_job_due:
  assumes "distinct (map job_id jobs)" and "j \<in> set jobs" and "due (ck_due ck) j"
    and "run_handler tb reg (job_name j) w = (Inr error, w')"
  shows "execute_job cfg tb reg wid ck (job_id j) (jobs, w) =
    (Inr (), reschedule_job (ck_end ck) (job_id j) (interval_seconds j) error jobs, w')"
  using assms(4) by (simp add: execute_job_def claim_job_due[OF assms(1-3)] reschedule_claimed)

lemma execute_job_cancelled:
  assumes "distinct (map job_id jobs)" and "j \<in> set jobs" and "due (ck_due ck) j"
    and "run_handler tb reg (job_name j) w = (Inl e, w')"
  shows "execute_job cfg tb reg wid ck (job_id j) (jobs, w) =
    (Inl e, update_where (\<lambda>x. job_id x = job_id j)
       (claim_values wid (ck_lease ck + seconds (JOB_LEASE_SECONDS cfg)) (ck_updated ck)) jobs, w')"
  using assms(4) by (simp add: execute_job_def claim_job_due[OF assms(1-3)])

lemma lookup_reschedule:
  "lookup job_id k (reschedule_job now jid interval error jobs) =
   (if k = jid then map_option (reschedule_values now interval error) (lookup job_id k jobs)
    else lookup job_id k jobs)"
  unfolding reschedule_job_def by (rule lookup_update_key) (simp add: reschedule_values_def)

lemma job_ids_reschedule: "map job_id (reschedule_job now jid interval error jobs) = map job_id jobs"
  by (simp add: reschedule_job_def reschedule_update.keys_kept)

subsection \<open>What a whole pass does\<close>

lemma candidates:
  assumes "distinct (map job_id jobs)"
  shows "distinct (candidate_ids now jobs)" "length (candidate_ids now jobs) \<le> 10"
    "jid \<in> set (candidate_ids now jobs) \<Longrightarrow> \<exists>j. lookup job_id jid jobs = Some j \<and> due now j"
proof -
  let ?s = "select_order_by next_run_at (due now) jobs"
  have "distinct (map job_id (filter (due now) jobs))"
    using assms by (simp add: distinct_map_filter)
  then have "distinct (map job_id ?s)"
    by (simp add: select_order_by_def distinct_map distinct_sort)
  then show "distinct (candidate_ids now jobs)"
    by (simp add: candidate_ids_def take_map[symmetric] distinct_take)
  show "length (candidate_ids now jobs) \<le> 10"
    by (simp add: candidate_ids_def JOB_BATCH_SIZE_def)
  assume "jid \<in> set (candidate_ids now jobs)"
  then obtain j where "j \<in> set ?s" "job_id j = jid"
    by (auto simp: candidate_ids_def dest: in_set_takeD)
  then show "\<exists>j. lookup job_id jid jobs = Some j \<and> due now j"
    using lookup_unique[OF assms, of j] by (auto simp: sql_simps)
qed

text \<open>The row a completed execution in the round with clock readings \<open>ck\<close> leaves behind.\<close>

definition executed_at :: "job_clock \<Rightarrow> job \<Rightarrow> job \<Rightarrow> bool" where
  "executed_at ck j j' \<longleftrightarrow>
     (\<exists>error. j' = reschedule_values (ck_end ck) (interval_seconds j) error j)"

lemma execute_jobs_rows:
  assumes "execute_jobs cfg tb reg wid clk k ids (jobs, w) = (Inr u, jobs', w')"
    and "distinct (map job_id jobs)" and "distinct ids"
    and "\<forall>i. now \<le> ck_due (clk i)"
    and "\<forall>jid \<in> set ids. \<exists>j. lookup job_id jid jobs = Some j \<and> due now j"
  shows "map job_id jobs' = map job_id jobs \<and>
    (\<forall>jid. jid \<notin> set ids \<longrightarrow> lookup job_id jid jobs' = lookup job_id jid jobs) \<and>
    (\<forall>jid \<in> set ids. \<exists>j j' i. lookup job_id jid jobs = Some j \<and>
        lookup job_id jid jobs' = Some j' \<and> executed_at (clk i) j j')"
  using assms
proof (induction ids arbitrary: k jobs w)
  case Nil
  then show ?case by simp
next
  case (Cons jid ids)
  obtain j where j: "lookup job_id jid jobs = Some j" "due now j"
    using Cons.prems(5) by auto
  then have row: "j \<in> set jobs" "job_id j = jid" by (auto dest: lookup_SomeD)
  have "now \<le> ck_due (clk k)" using Cons.prems(4) by simp
  then have due_k: "due (ck_due (clk k)) j" using j(2) by (auto simp: due_def)
  obtain r w1 where h: "run_handler tb reg (job_name j) w = (r, w1)" by fastforce
  obtain error where r: "r = Inr error"
  proof (cases r)
    case (Inl e)
    then obtain st where "execute_job cfg tb reg wid (clk k) jid (jobs, w) = (Inl e, st)"
      using execute_job_cancelled[OF Cons.prems(2) row(1) due_k, of tb reg w e w1 cfg wid] h row(2)
      by simp
    then show ?thesis using Cons.prems(1) by simp
  qed auto
  let ?jobs1 = "reschedule_job (ck_end (clk k)) jid (interval_seconds j) error jobs"
  have rest: "execute_jobs cfg tb reg wid clk (Suc k) ids (?jobs1, w1) = (Inr u, jobs', w')"
    using Cons.prems(1) execute_job_due[OF Cons.prems(2) row(1) due_k, of tb reg w error w1 cfg wid]
      h r row(2) by simp
  have others: "\<forall>i \<in> set ids. \<exists>j. lookup job_id i ?jobs1 = Some j \<and> due now j"
    using Cons.prems(3,5) by (auto simp: lookup_reschedule)
  have IH: "map job_id jobs' = map job_id ?jobs1 \<and>
    (\<forall>i. i \<notin> set ids \<longrightarrow> lookup job_id i jobs' = lookup job_id i ?jobs1) \<and>
    (\<forall>i \<in> set ids. \<exists>j j' n. lookup job_id i ?jobs1 = Some j \<and>
        lookup job_id i jobs' = Some j' \<and> executed_at (clk n) j j')"
    using Cons.IH[OF rest _ _ Cons.prems(4) others] Cons.prems(2,3) by (simp add: job_ids_reschedule)
  have same: "lookup job_id i ?jobs1 = lookup job_id i jobs" if "i \<noteq> jid" for i
    using that by (simp add: lookup_reschedule)
  have ids: "\<exists>j j' n. lookup job_id i jobs = Some j \<and> lookup job_id i jobs' = Some j' \<and>
      executed_at (clk n) j j'" if "i \<in> set ids" for i
  proof -
    have "i \<noteq> jid" using that Cons.prems(3) by auto
    moreover obtain j j' n where "lookup job_id i ?jobs1 = Some j" "lookup job_id i jobs' = Some j'"
        "executed_at (clk n) j j'"
      using IH \<open>i \<in> set ids\<close> by blast
    ultimately show ?thesis using same[of i] by metis
  qed
  have "lookup job_id jid jobs' =
      Some (reschedule_values (ck_end (clk k)) (interval_seconds j) error j)"
    using IH Cons.prems(3) j(1) by (simp add: lookup_reschedule)
  moreover have "executed_at (clk k) j (reschedule_values (ck_end (clk k)) (interval_seconds j) error j)"
    by (auto simp: executed_at_def)
  ultimately have first: "\<exists>j j' n. lookup job_id jid jobs = Some j \<and> lookup job_id jid jobs' = Some j' \<and>
      executed_at (clk n) j j'"
    using j(1) by blast
  have "\<forall>i. i \<notin> set (jid # ids) \<longrightarrow> lookup job_id i jobs' = lookup job_id i jobs"
    using IH same by auto
  then show ?case using IH ids first by (simp add: job_ids_reschedule)
qed

lemma process_due_jobs_rows:
  assumes "process_due_jobs cfg tb reg wid now clk (jobs, w) = (Inr u, jobs', w')"
    and "distinct (map job_id jobs)" and "\<forall>i. now \<le> ck_due (clk i)"
  shows "\<And>jid. jid \<notin> set (candidate_ids now jobs) \<Longrightarrow> lookup job_id jid jobs' = lookup job_id jid jobs"
    "\<And>jid. jid \<in> set (candidate_ids now jobs) \<Longrightarrow>
       \<exists>j j' i. lookup job_id jid jobs = Some j \<and> lookup job_id jid jobs' = Some j' \<and>
         executed_at (clk i) j j'"
proof -
  have run: "execute_jobs cfg tb reg wid clk 0 (candidate_ids now jobs) (jobs, w) = (Inr u, jobs', w')"
    using assms(1) by (simp add: process_due_jobs_def)
  have due: "\<forall>jid \<in> set (candidate_ids now jobs). \<exists>j. lookup job_id jid jobs = Some j \<and> due now j"
    using candidates(3)[OF assms(2)] by blast
  note rows = execute_jobs_rows[OF run assms(2) candidates(1)[OF assms(2)] assms(3) due]
  show "\<And>jid. jid \<notin> set (candidate_ids now jobs) \<Longrightarrow> lookup job_id jid jobs' = lookup job_id jid jobs"
    "\<And>jid. jid \<in> set (candidate_ids now jobs) \<Longrightarrow>
       \<exists>j j' i. lookup job_id jid jobs = Some j \<and> lookup job_id jid jobs' = Some j' \<and>
         executed_at (clk i) j j'"
    using rows by blast+
qed


text \<open>Only \<open>CancelledError\<close> leaves a pass over a table whose ids are unique.\<close>

lemma run_handler_Inl: "run_handler tb reg name w = (Inl e, w') \<Longrightarrow> e = CancelledError"
  by (auto simp: run_handler_def is_Exception_def split: option.splits prod.splits if_splits)

lemma execute_job_Inl:
  assumes "distinct (map job_id jobs)" and "execute_job cfg tb reg wid ck jid (jobs, w) = (Inl e, st)"
  shows "e = CancelledError"
proof (cases "\<exists>j \<in> set jobs. job_id j = jid \<and> due (ck_due ck) j")
  case True
  then obtain j where j: "j \<in> set jobs" "job_id j = jid" "due (ck_due ck) j" by blast
  then show ?thesis
    using assms(2) claim_job_due[OF assms(1) j(1) j(3), of cfg wid]
    by (auto simp: execute_job_def dest: run_handler_Inl split: prod.splits sum.splits)
next
  case False
  then have "claim_job cfg wid ck jid jobs = Inr (None, jobs)" by (intro claim_job_not_due) blast
  then show ?thesis using assms(2) by (simp add: execute_job_def)
qed

lemma execute_job_ids:
  assumes "execute_job cfg tb reg wid ck jid (jobs, w) = (r, jobs', w')"
  shows "map job_id jobs' = map job_id jobs"
  using assms
  by (auto simp: execute_job_def claim_job_def Let_def rbind_eq_Inr job_ids_reschedule
      claim_update.keys_kept split: sum.splits option.splits prod.splits)

lemma execute_jobs_Inl:
  assumes "distinct (map job_id jobs)"
    and "execute_jobs cfg tb reg wid clk k ids (jobs, w) = (Inl e, st)"
  shows "e = CancelledError"
  using assms
proof (induction ids arbitrary: k jobs w)
  case Nil
  then show ?case by simp
next
  case (Cons jid ids)
  obtain r jobs1 w1 where ex: "execute_job cfg tb reg wid (clk k) jid (jobs, w) = (r, jobs1, w1)"
    by (metis prod_cases3)
  show ?case
  proof (cases r)
    case (Inl e')
    then show ?thesis using Cons.prems ex execute_job_Inl by fastforce
  next
    case (Inr u)
    then show ?thesis
      using Cons.IH[of jobs1 "Suc k" w1] Cons.prems ex execute_job_ids[OF ex] by simp
  qed
qed

definition never_cancelled :: "'w job_registry \<Rightarrow> bool" where
  "never_cancelled reg \<longleftrightarrow>
     (\<forall>name h w. get_job reg name = Some h \<longrightarrow> fst (h w) \<noteq> Some CancelledError)"

lemma run_handler_never_cancelled:
  "never_cancelled reg \<Longrightarrow> \<exists>error w'. run_handler tb reg name w = (Inr error, w')"
  by (auto simp: never_cancelled_def run_handler_def is_Exception_def
      split: option.splits prod.splits) (metis fst_conv)+

lemma execute_job_returns:
  assumes "distinct (map job_id jobs)" and "never_cancelled reg"
  shows "\<exists>jobs' w'. execute_job cfg tb reg wid ck jid (jobs, w) = (Inr (), jobs', w')"
proof (cases "\<exists>j \<in> set jobs. job_id j = jid \<and> due (ck_due ck) j")
  case True
  then obtain j where j: "j \<in> set jobs" "job_id j = jid" "due (ck_due ck) j" by blast
  obtain error w' where "run_handler tb reg (job_name j) w = (Inr error, w')"
    using run_handler_never_cancelled[OF assms(2)] by blast
  then show ?thesis using execute_job_due[OF assms(1) j(1) j(3)] j(2) by metis
next
  case False
  then have "claim_job cfg wid ck jid jobs = Inr (None, jobs)" by (intro claim_job_not_due) blast
  then show ?thesis by (simp add: execute_job_def)
qed

lemma execute_jobs_returns:
  assumes "distinct (map job_id jobs)" and "never_cancelled reg"
  shows "\<exists>jobs' w'. execute_jobs cfg tb reg wid clk k ids (jobs, w) = (Inr (), jobs', w')"
  using assms(1)
proof (induction ids arbitrary: k jobs w)
  case Nil
  then show ?case by simp
next
  case (Cons jid ids)
  obtain jobs1 w1 where ex: "execute_job cfg tb reg wid (clk k) jid (jobs, w) = (Inr (), jobs1, w1)"
    using execute_job_returns[OF Cons.prems assms(2)] by blast
  then show ?case
    using Cons.IH[of jobs1 "Suc k" w1] Cons.prems execute_job_ids[OF ex] by simp
qed

lemma jobs_ok_cycle:
  assumes "jobs_ok jobs" and "worker_cycle cfg tb reg wid p (jobs, w) = (r, jobs', w')"
  shows "jobs_ok jobs'"
proof -
  obtain q st where run: "execute_jobs cfg tb reg wid (poll_clk p) 0
      (candidate_ids (poll_now p) (recover_stale_jobs (poll_recover p) jobs))
      (recover_stale_jobs (poll_recover p) jobs, w) = (q, jobs', w')"
    using assms(2)
    by (auto simp: worker_cycle_def process_due_jobs_def Let_def split: prod.split_asm sum.split_asm)
  show ?thesis by (rule jobs_ok_execute_jobs[OF jobs_ok_recover[OF assms(1)] run])
qed

subsection \<open>Interface: handlers that keep an invariant of the world\<close>

text \<open>What every registered handler keeps of the world, whether it ends normally or not, a cycle keeps.\<close>

locale world_invariant =
  fixes reg :: "'w job_registry"
    and inv :: "'w \<Rightarrow> bool"
  assumes handler_keeps: "get_job reg name = Some h \<Longrightarrow> inv w \<Longrightarrow> inv (snd (h w))"
begin

lemma run_handler_keeps:
  assumes "run_handler tb reg name w = (r, w')" and "inv w"
  shows "inv w'"
proof (cases "get_job reg name")
  case (Some h)
  have "w' = snd (h w)" using assms(1) Some by (auto simp: run_handler_def split: prod.splits option.splits if_splits)
  then show ?thesis using handler_keeps[OF Some assms(2)] by simp
qed (use assms in \<open>simp add: run_handler_def\<close>)

lemma execute_job_keeps:
  "execute_job cfg tb reg wid ck jid (jobs, w) = (r, jobs', w') \<Longrightarrow> inv w \<Longrightarrow> inv w'"
  using run_handler_keeps[of tb] by (auto simp: execute_job_def split: sum.splits option.splits prod.splits)

lemma execute_jobs_keep:
  assumes "execute_jobs cfg tb reg wid clk k ids (jobs, w) = (r, jobs', w')" and "inv w"
  shows "inv w'"
  using assms
proof (induction ids arbitrary: k jobs w)
  case (Cons jid ids)
  obtain r1 jobs1 w1 where ex: "execute_job cfg tb reg wid (clk k) jid (jobs, w) = (r1, jobs1, w1)"
    by (metis prod_cases3)
  have "inv w1" by (rule execute_job_keeps[OF ex Cons.prems(2)])
  then show ?case
    using Cons.IH[of "Suc k" jobs1 w1] Cons.prems(1) ex by (auto split: sum.splits)
qed simp

lemma worker_cycle_keeps:
  assumes "worker_cycle cfg tb reg wid p (jobs, w) = (r, jobs', w')" and "inv w"
  shows "inv w'"
proof -
  obtain q where run: "execute_jobs cfg tb reg wid (poll_clk p) 0
      (candidate_ids (poll_now p) (recover_stale_jobs (poll_recover p) jobs))
      (recover_stale_jobs (poll_recover p) jobs, w) = (q, jobs', w')"
    using assms(1)
    by (auto simp: worker_cycle_def process_due_jobs_def Let_def split: prod.split_asm sum.split_asm)
  show ?thesis by (rule execute_jobs_keep[OF run assms(2)])
qed

end

lemma job_ids_recover: "map job_id (recover_stale_jobs now jobs) = map job_id jobs"
  by (simp add: recover_stale_jobs_def recover_update.keys_kept)

lemma stale_release: "\<not> stale now (release j)"
  by (simp add: stale_def release_def)

subsection \<open>Properties\<close>

text \<open>A table with one expired RUNNING row, one live RUNNING row and one pending row.\<close>

definition sample_job :: "uuid \<Rightarrow> string \<Rightarrow> datetime \<Rightarrow> job" where
  "sample_job i name next = \<lparr>job_id = i, job_name = name, job_description = None,
     interval_seconds = 60, job_status = PENDING, last_run_at = None, next_run_at = next,
     job_last_error = None, run_count = 0, claimed_by = None, lease_until = None,
     job_created_at = 0, job_updated_at = None\<rparr>"

definition sample_jobs :: "job list" where
  "sample_jobs =
     [(sample_job 1 ''a'' 5)\<lparr>job_status := RUNNING, claimed_by := Some ''w0'', lease_until := Some 8\<rparr>,
      (sample_job 2 ''b'' 4)\<lparr>job_status := RUNNING, claimed_by := Some ''w1'', lease_until := Some 90\<rparr>,
      sample_job 3 ''c'' 9]"

definition sample_clock :: "nat \<Rightarrow> job_clock" where
  "sample_clock k = \<lparr>ck_lease = 10, ck_due = 10, ck_updated = 10, ck_end = 11\<rparr>"

definition sample_poll :: poll where
  "sample_poll = \<lparr>poll_recover = 10, poll_now = 10, poll_clk = sample_clock\<rparr>"

definition sample_registry :: "nat job_registry" where
  "sample_registry = register_job ''a'' (\<lambda>n. (Some (KeyError ''k''), Suc n)) []"

lemmas sample_defs = sample_job_def sample_jobs_def sample_clock_def sample_poll_def
  sample_registry_def register_job_def

lemma sample_jobs_ok: "jobs_ok sample_jobs"
  by (simp add: sample_defs jobs_ok_def job_ok_def)

lemma sample_registry_never_cancelled: "never_cancelled sample_registry"
  by (auto simp: never_cancelled_def sample_defs get_job_def)

text \<open>Whatever the worker does over any number of polls, whether its handlers succeed, fail or
  are cancelled, the table of jobs keeps its invariant (unique ids and names, an owner and a lease
  exactly on RUNNING rows, bounded errors) and no row is added or removed.\<close>

theorem run_worker_keeps_jobs_ok:
  assumes "jobs_ok jobs" and "run_worker cfg tb reg wid ps (jobs, w) = (r, jobs', w')"
  shows "jobs_ok jobs' \<and> length jobs' = length jobs"
proof -
  have cycle: "length jobs2 = length jobs1"
    if "worker_cycle cfg tb reg wid p (jobs1, w1) = (r1, jobs2, w2)" for p jobs1 w1 r1 jobs2 w2
  proof -
    have "length jobs4 = length jobs3"
      if "execute_jobs cfg tb reg wid clk k ids (jobs3, w3) = (r3, jobs4, w4)"
      for clk k ids jobs3 w3 r3 jobs4 w4
      using that
    proof (induction ids arbitrary: k jobs3 w3)
      case (Cons jid ids)
      obtain q jobs5 w5 where ex: "execute_job cfg tb reg wid (clk k) jid (jobs3, w3) = (q, jobs5, w5)"
        by (metis prod_cases3)
      from execute_job_ids[OF ex] have "length jobs5 = length jobs3" by (rule map_eq_imp_length_eq)
      then show ?case using Cons.IH[of "Suc k" jobs5 w5] Cons.prems ex by (auto split: sum.splits)
    qed simp
    then show ?thesis
      using that by (auto simp: worker_cycle_def process_due_jobs_def Let_def recover_stale_jobs_def
          sql_simps split: prod.split_asm sum.split_asm)
  qed
  show ?thesis
    using assms
  proof (induction ps arbitrary: jobs w)
    case (Cons p ps)
    obtain q jobs2 w2 where c: "worker_cycle cfg tb reg wid p (jobs, w) = (q, jobs2, w2)"
      by (metis prod_cases3)
    then show ?case
      using Cons.IH[of jobs2 w2] Cons.prems jobs_ok_cycle[OF Cons.prems(1) c] cycle[OF c]
      by (auto split: sum.splits)
  qed simp
qed

text \<open>A claim excludes every other worker: once a claim on a job has returned its row, a claim on
  the same job by any worker, at any clock reading, returns no row and changes nothing.\<close>

theorem claim_job_exclusive:
  assumes "jobs_ok jobs" and "claim_job cfg wid ck jid jobs = Inr (Some row, jobs1)"
  shows "claim_job cfg' wid' ck' jid jobs1 = Inr (None, jobs1)"
proof (rule claim_job_not_due)
  let ?f = "claim_values wid (ck_lease ck + seconds (JOB_LEASE_SECONDS cfg)) (ck_updated ck)"
  from assms(1) have d: "distinct (map job_id jobs)" by (simp add: jobs_ok_def)
  have "\<exists>j \<in> set jobs. job_id j = jid \<and> due (ck_due ck) j"
    using assms(2) claim_job_not_due[of jobs jid ck cfg wid] by fastforce
  then obtain j where j: "j \<in> set jobs" "job_id j = jid" "due (ck_due ck) j" by blast
  then have jobs1: "jobs1 = update_where (\<lambda>x. job_id x = jid) ?f jobs"
    using assms(2) claim_job_due[OF d j(1) j(3), of cfg wid] by simp
  fix x assume x: "x \<in> set jobs1" "job_id x = jid"
  from x(1) obtain y where y: "x = (if job_id y = jid then ?f y else y)"
    unfolding jobs1 update_where_def set_map by blast
  then have "job_status x = RUNNING"
    using x(2) by (cases "job_id y = jid") (simp_all add: claim_values_def)
  then show "\<not> due (ck_due ck') x" by (simp add: due_def)
qed

text \<open>C18. One pass over the due jobs. When no handler is cancelled the pass ends normally, whatever
  the handlers raise. It executes at most ten jobs, the longest due first, each exactly once (one
  execution's row is left behind: PENDING, run count plus one, the next run one interval after
  the end), and leaves every other row as it was.\<close>

theorem process_due_jobs_once:
  assumes "jobs_ok jobs" and "never_cancelled reg" and "\<forall>i. now \<le> ck_due (clk i)"
  shows "\<exists>jobs' w'. process_due_jobs cfg tb reg wid now clk (jobs, w) = (Inr (), jobs', w') \<and>
    length (candidate_ids now jobs) = min 10 (length (filter (due now) jobs)) \<and>
    (\<forall>jid. if jid \<in> set (candidate_ids now jobs)
      then \<exists>j i error. lookup job_id jid jobs = Some j \<and> due now j \<and>
        lookup job_id jid jobs' =
          Some (reschedule_values (ck_end (clk i)) (interval_seconds j) error j) \<and>
        (\<forall>j2 \<in> set jobs. due now j2 \<longrightarrow> job_id j2 \<notin> set (candidate_ids now jobs) \<longrightarrow>
           next_run_at j \<le> next_run_at j2)
      else lookup job_id jid jobs' = lookup job_id jid jobs)"
proof -
  from assms(1) have d: "distinct (map job_id jobs)" by (simp add: jobs_ok_def)
  obtain jobs' w' where run: "process_due_jobs cfg tb reg wid now clk (jobs, w) = (Inr (), jobs', w')"
    using execute_jobs_returns[OF d assms(2)] unfolding process_due_jobs_def by blast
  let ?s = "select_order_by next_run_at (due now) jobs"
  have first: "next_run_at j \<le> next_run_at j2"
    if c: "job_id j \<in> set (candidate_ids now jobs)" "j \<in> set jobs"
      and j2: "j2 \<in> set jobs" "due now j2" "job_id j2 \<notin> set (candidate_ids now jobs)" for j j2
  proof (rule take_select_order[where k = next_run_at])
    obtain j0 where "j0 \<in> set (take JOB_BATCH_SIZE ?s)" "job_id j0 = job_id j"
      using c(1) by (auto simp: candidate_ids_def)
    moreover from this have "j0 = j"
      using unique_column[OF d _ c(2)] by (auto dest!: in_set_takeD simp: sql_simps)
    ultimately show "j \<in> set (take JOB_BATCH_SIZE (select_order_by next_run_at (due now) jobs))"
      by simp
    have "j2 \<in> set ?s" using j2(1,2) by (simp add: sql_simps)
    then have "j2 \<in> set (take JOB_BATCH_SIZE ?s) \<union> set (drop JOB_BATCH_SIZE ?s)"
      by (simp flip: set_append)
    then show "j2 \<in> set (drop JOB_BATCH_SIZE ?s)"
      using j2(3) by (auto simp: candidate_ids_def)
  qed
  have "length (candidate_ids now jobs) = min 10 (length (filter (due now) jobs))"
    by (simp add: candidate_ids_def JOB_BATCH_SIZE_def select_order_by_def min.commute)
  moreover have "\<exists>j i error. lookup job_id jid jobs = Some j \<and> due now j \<and>
        lookup job_id jid jobs' =
          Some (reschedule_values (ck_end (clk i)) (interval_seconds j) error j) \<and>
        (\<forall>j2 \<in> set jobs. due now j2 \<longrightarrow> job_id j2 \<notin> set (candidate_ids now jobs) \<longrightarrow>
           next_run_at j \<le> next_run_at j2)" if c: "jid \<in> set (candidate_ids now jobs)" for jid
  proof -
    obtain j where j: "lookup job_id jid jobs = Some j" "due now j"
      using candidates(3)[OF d c] by blast
    moreover obtain i error where "lookup job_id jid jobs' =
        Some (reschedule_values (ck_end (clk i)) (interval_seconds j) error j)"
      using process_due_jobs_rows(2)[OF run d assms(3) c] j(1) by (auto simp: executed_at_def)
    ultimately show ?thesis
      using first[of j] c lookup_SomeD[OF j(1)] by blast
  qed
  ultimately show ?thesis
    using run process_due_jobs_rows(1)[OF run d assms(3)] by auto
qed

lemma process_due_jobs_once_witness:
  "\<exists>jobs' w'. process_due_jobs default_settings (\<lambda>e. ''tb'') sample_registry ''w'' 10 sample_clock
     (sample_jobs, 0) = (Inr (), jobs', w')"
  using process_due_jobs_once[OF sample_jobs_ok sample_registry_never_cancelled, of 10 sample_clock
      default_settings "\<lambda>e. ''tb''" "''w''" 0]
  by (auto simp: sample_clock_def)

text \<open>The recovery of stale jobs releases exactly the RUNNING rows whose lease is missing or has
  expired: afterwards no row is stale, the rows still RUNNING are the ones with a live lease,
  unchanged, and no row was added or removed. Recovering twice is recovering once.\<close>

theorem recover_stale_jobs_exact:
  "filter (stale now) (recover_stale_jobs now jobs) = [] \<and>
   filter (\<lambda>j. job_status j = RUNNING) (recover_stale_jobs now jobs) =
     filter (\<lambda>j. job_status j = RUNNING \<and> \<not> stale now j) jobs \<and>
   map job_id (recover_stale_jobs now jobs) = map job_id jobs \<and>
   recover_stale_jobs now (recover_stale_jobs now jobs) = recover_stale_jobs now jobs"
proof -
  have none: "filter (stale now) (recover_stale_jobs now jobs) = []"
    by (auto simp: filter_empty_conv recover_stale_jobs_def set_update_where stale_release)
  moreover have "filter (\<lambda>j. job_status j = RUNNING) (recover_stale_jobs now jobs) =
     filter (\<lambda>j. job_status j = RUNNING \<and> \<not> stale now j) jobs"
    by (induction jobs) (auto simp: recover_stale_jobs_def update_where_def release_def)
  moreover have "recover_stale_jobs now (recover_stale_jobs now jobs) = recover_stale_jobs now jobs"
    using none unfolding recover_stale_jobs_def[of now "recover_stale_jobs now jobs"]
    by (intro update_where_id) (simp add: filter_empty_conv)
  ultimately show ?thesis by (simp add: job_ids_recover)
qed



text \<open>C20. The four ways the execution of a due job can end. Success clears the stored error, a missing
  handler and an exception store theirs (its last 500 characters), and each of these reschedules the
  job; a cancelled handler leaves the row RUNNING under its lease, for the recovery, and only the
  cancellation leaves the function. No other row is touched.\<close>

theorem execute_job_outcomes:
  assumes "jobs_ok jobs" and "j \<in> set jobs" and "due (ck_due ck) j"
    and "execute_job cfg tb reg wid ck (job_id j) (jobs, w) = (r, jobs', w')"
  shows "(case get_job reg (job_name j) of
      None \<Rightarrow> r = Inr () \<and> w' = w \<and> lookup job_id (job_id j) jobs' =
        Some (reschedule_values (ck_end ck) (interval_seconds j)
          (Some (''No handler registered for job '' @ [CHR 0x27] @ job_name j @ [CHR 0x27])) j)
    | Some h \<Rightarrow> w' = snd (h w) \<and>
       (case fst (h w) of
          None \<Rightarrow> r = Inr () \<and> lookup job_id (job_id j) jobs' =
            Some (reschedule_values (ck_end ck) (interval_seconds j) None j)
        | Some e \<Rightarrow> if e = CancelledError
            then r = Inl CancelledError \<and> lookup job_id (job_id j) jobs' =
              Some (j\<lparr>job_status := RUNNING, claimed_by := Some wid,
                lease_until := Some (ck_lease ck + seconds (JOB_LEASE_SECONDS cfg)),
                job_updated_at := Some (ck_updated ck)\<rparr>)
            else r = Inr () \<and> (\<exists>j'. lookup job_id (job_id j) jobs' = Some j' \<and>
              run_count j' = run_count j + 1 \<and> job_status j' = PENDING \<and>
              next_run_at j' = ck_end ck + seconds (interval_seconds j) \<and>
              job_last_error j' = (if tb e = [] then None else Some (last_chars 500 (tb e)))))) \<and>
    (\<forall>i. i \<noteq> job_id j \<longrightarrow> lookup job_id i jobs' = lookup job_id i jobs)"
proof -
  from assms(1) have d: "distinct (map job_id jobs)" by (simp add: jobs_ok_def)
  note row = lookup_unique[OF d assms(2)]
  let ?c = "claim_values wid (ck_lease ck + seconds (JOB_LEASE_SECONDS cfg)) (ck_updated ck)"
  obtain q w1 where h: "run_handler tb reg (job_name j) w = (q, w1)" by fastforce
  have claimed: "lookup job_id k (update_where (\<lambda>x. job_id x = job_id j) ?c jobs) =
      (if k = job_id j then Some (?c j) else lookup job_id k jobs)" for k
    using row by (subst lookup_update_key) (simp_all add: claim_values_def)
  show ?thesis
  proof (cases q)
    case (Inl e)
    with h show ?thesis
      using execute_job_cancelled[OF d assms(2,3), of tb reg w e w1 cfg wid] assms(4) claimed
      by (auto simp: run_handler_def is_Exception_def claim_values_def
          split: option.splits prod.splits if_splits)
  next
    case (Inr error)
    with h show ?thesis
      using execute_job_due[OF d assms(2,3), of tb reg w error w1 cfg wid] assms(4) row
      by (auto simp: run_handler_def is_Exception_def lookup_reschedule reschedule_values_def
          stored_error_def split: option.splits prod.splits if_splits)
  qed
qed

lemma execute_job_outcomes_witness:
  "\<exists>jobs' j'. execute_job default_settings (\<lambda>e. ''tb'') sample_registry ''w'' (sample_clock 0) 3
      (sample_jobs, 0) = (Inr (), jobs', 0) \<and> lookup job_id 3 jobs' = Some j' \<and> run_count j' = 1"
proof -
  have j: "sample_job 3 ''c'' 9 \<in> set sample_jobs" "due (ck_due (sample_clock 0)) (sample_job 3 ''c'' 9)"
    by (simp_all add: sample_defs due_def)
  obtain r jobs' w' where ex: "execute_job default_settings (\<lambda>e. ''tb'') sample_registry ''w''
      (sample_clock 0) (job_id (sample_job 3 ''c'' 9)) (sample_jobs, 0) = (r, jobs', w')"
    by (metis prod_cases3)
  have "get_job sample_registry (job_name (sample_job 3 ''c'' 9)) = None" "job_id (sample_job 3 ''c'' 9) = 3"
    "run_count (sample_job 3 ''c'' 9) = 0"
    by (simp_all add: sample_defs get_job_def)
  then show ?thesis
    using execute_job_outcomes[OF sample_jobs_ok j ex] ex by (auto simp: reschedule_values_def)
qed

end
