(* ===== verification/JobSystem.thy ===== *)
theory JobSystem
  imports Jobs
begin

text \<open>
  Several \<open>JobWorker\<close>s on one \<open>scheduled_jobs\<close> table: the statements of \<open>app/core/jobs/worker.py\<close>
  as the atomic steps of a transition system, in any interleaving. The state is the table, the
  clock, and for each worker the run it is in the middle of (between its claim and its reschedule).
  The settings' lease inequality (\<open>validate_lease_invariant\<close>) is what makes the invariant hold: a
  job whose handler still runs is never taken for a zombie.
\<close>

record job_run =
  run_job :: uuid
  run_interval :: int
  run_claimed_at :: datetime

record job_sys =
  js_jobs :: "job list"
  js_now :: datetime
  js_running :: "string \<Rightarrow> job_run option"

text \<open>
  \<open>asyncio.wait_for\<close> bounds the handler; \<open>overhead\<close> bounds what a run spends outside its handler
  (the claim's commit and the reschedule's transaction). Time passes only as far as every run that
  is in progress may still be in progress.
\<close>

definition run_deadline :: "settings \<Rightarrow> timedelta \<Rightarrow> job_run \<Rightarrow> datetime" where
  "run_deadline cfg overhead r =
     run_claimed_at r + seconds (JOB_HANDLER_TIMEOUT_SECONDS cfg) + overhead"

inductive job_step :: "settings \<Rightarrow> timedelta \<Rightarrow> job_sys \<Rightarrow> job_sys \<Rightarrow> bool"
  for cfg overhead where
  tick: "js_now s \<le> t \<Longrightarrow> \<forall>wid r. js_running s wid = Some r \<longrightarrow> t \<le> run_deadline cfg overhead r \<Longrightarrow>
    job_step cfg overhead s (s\<lparr>js_now := t\<rparr>)"
| recover: "t \<le> js_now s \<Longrightarrow>
    job_step cfg overhead s (s\<lparr>js_jobs := recover_stale_jobs t (js_jobs s)\<rparr>)"
| claim: "js_running s wid = None \<Longrightarrow> ck_lease ck \<le> js_now s \<Longrightarrow>
    js_now s \<le> run_deadline cfg overhead \<lparr>run_job = jid, run_interval = interval, run_claimed_at = ck_lease ck\<rparr> \<Longrightarrow>
    claim_job cfg wid ck jid (js_jobs s) = Inr (Some (name, interval), jobs') \<Longrightarrow>
    job_step cfg overhead s
      (s\<lparr>js_jobs := jobs',
        js_running := (js_running s)(wid \<mapsto>
          \<lparr>run_job = jid, run_interval = interval, run_claimed_at = ck_lease ck\<rparr>)\<rparr>)"
| finish: "js_running s wid = Some r \<Longrightarrow>
    job_step cfg overhead s
      (s\<lparr>js_jobs := reschedule_job t (run_job r) (run_interval r) error (js_jobs s),
        js_running := (js_running s)(wid := None)\<rparr>)"
| crash: "job_step cfg overhead s (s\<lparr>js_running := (js_running s)(wid := None)\<rparr>)"

inductive_cases job_stepE: "job_step cfg overhead s t"

text \<open>The row of a job whose handler is running, in the state's table.\<close>

definition run_row_ok :: "settings \<Rightarrow> timedelta \<Rightarrow> job_sys \<Rightarrow> string \<Rightarrow> job_run \<Rightarrow> bool" where
  "run_row_ok cfg overhead s wid r \<longleftrightarrow>
     js_now s \<le> run_deadline cfg overhead r \<and>
     (\<exists>j. lookup job_id (run_job r) (js_jobs s) = Some j \<and> job_status j = RUNNING \<and>
        claimed_by j = Some wid \<and>
        lease_until j = Some (run_claimed_at r + seconds (JOB_LEASE_SECONDS cfg)))"

definition lease_covers :: "settings \<Rightarrow> timedelta \<Rightarrow> bool" where
  "lease_covers cfg overhead \<longleftrightarrow>
     seconds (JOB_HANDLER_TIMEOUT_SECONDS cfg) + overhead \<le> seconds (JOB_LEASE_SECONDS cfg)"

definition job_inv :: "settings \<Rightarrow> timedelta \<Rightarrow> job_sys \<Rightarrow> bool" where
  "job_inv cfg overhead s \<longleftrightarrow> lease_covers cfg overhead \<and> jobs_ok (js_jobs s) \<and>
     (\<forall>wid r. js_running s wid = Some r \<longrightarrow> run_row_ok cfg overhead s wid r)"

definition job_start :: "settings \<Rightarrow> timedelta \<Rightarrow> job_sys \<Rightarrow> bool" where
  "job_start cfg overhead s \<longleftrightarrow>
     lease_covers cfg overhead \<and> jobs_ok (js_jobs s) \<and> js_running s = (\<lambda>_. None)"

subsection \<open>The invariant\<close>

lemma job_invI:
  "lease_covers cfg overhead \<Longrightarrow> jobs_ok (js_jobs s) \<Longrightarrow>
   (\<And>wid r. js_running s wid = Some r \<Longrightarrow> run_row_ok cfg overhead s wid r) \<Longrightarrow> job_inv cfg overhead s"
  by (simp add: job_inv_def)

lemma job_invD:
  assumes "job_inv cfg overhead s"
  shows "lease_covers cfg overhead" "jobs_ok (js_jobs s)"
    "js_running s wid = Some r \<Longrightarrow> run_row_ok cfg overhead s wid r"
  using assms by (simp_all add: job_inv_def)

lemma run_not_stale:
  assumes "lease_covers cfg overhead" and "now \<le> run_deadline cfg overhead r"
    and "lease_until j = Some (run_claimed_at r + seconds (JOB_LEASE_SECONDS cfg))"
  shows "\<not> stale now j"
  using assms by (auto simp: lease_covers_def run_deadline_def stale_def)

lemma run_row_ok_recover:
  assumes "lease_covers cfg overhead" and "run_row_ok cfg overhead s wid r" and "t \<le> js_now s"
  shows "run_row_ok cfg overhead (s\<lparr>js_jobs := recover_stale_jobs t (js_jobs s)\<rparr>) wid r"
proof -
  obtain j where j: "lookup job_id (run_job r) (js_jobs s) = Some j" "job_status j = RUNNING"
    "claimed_by j = Some wid" "lease_until j = Some (run_claimed_at r + seconds (JOB_LEASE_SECONDS cfg))"
    and now: "js_now s \<le> run_deadline cfg overhead r"
    using assms(2) by (auto simp: run_row_ok_def)
  have "\<not> stale t j" using run_not_stale[OF assms(1) _ j(4)] now assms(3) by force
  then have "lookup job_id (run_job r) (recover_stale_jobs t (js_jobs s)) = Some j"
    unfolding recover_stale_jobs_def
    by (subst lookup_update_where) (simp_all add: j(1) release_def)
  then show ?thesis using j now by (simp add: run_row_ok_def)
qed

text \<open>What a successful claim has found and left behind.\<close>

lemma claim_job_Some:
  assumes "jobs_ok jobs" and "claim_job cfg wid ck jid jobs = Inr (Some (name, interval), jobs')"
  shows "\<exists>j. lookup job_id jid jobs = Some j \<and> due (ck_due ck) j \<and> interval = interval_seconds j \<and>
    jobs' = update_where (\<lambda>x. job_id x = jid)
      (claim_values wid (ck_lease ck + seconds (JOB_LEASE_SECONDS cfg)) (ck_updated ck)) jobs"
proof -
  from assms(1) have d: "distinct (map job_id jobs)" by (simp add: jobs_ok_def)
  have "\<exists>j \<in> set jobs. job_id j = jid \<and> due (ck_due ck) j"
    using assms(2) claim_job_not_due[of jobs jid ck cfg wid] by fastforce
  then obtain j where j: "j \<in> set jobs" "job_id j = jid" "due (ck_due ck) j" by blast
  then show ?thesis
    using assms(2) claim_job_due[OF d j(1) j(3), of cfg wid] lookup_unique[OF d j(1)] by auto
qed

lemma lookup_claimed:
  "lookup job_id k (update_where (\<lambda>x. job_id x = jid) (claim_values wid lease t) jobs) =
   (if k = jid then map_option (claim_values wid lease t) (lookup job_id k jobs) else lookup job_id k jobs)"
  by (rule lookup_update_key) (simp add: claim_values_def)

text \<open>A run on another job is not touched by a statement on the row with id \<open>jid\<close>.\<close>

lemma run_row_ok_other:
  assumes "run_row_ok cfg overhead s wid r" and "js_now s' = js_now s"
    and "lookup job_id (run_job r) (js_jobs s') = lookup job_id (run_job r) (js_jobs s)"
  shows "run_row_ok cfg overhead s' wid r"
  using assms by (simp add: run_row_ok_def)

lemma run_rows_unique:
  assumes "run_row_ok cfg overhead s wid r" and "run_row_ok cfg overhead s wid' r'"
    and "run_job r = run_job r'"
  shows "wid = wid'"
  using assms by (auto simp: run_row_ok_def)

lemma job_inv_claim:
  assumes inv: "job_inv cfg overhead s" and "js_running s wid = None"
    and now: "js_now s \<le> run_deadline cfg overhead
          \<lparr>run_job = jid, run_interval = interval, run_claimed_at = ck_lease ck\<rparr>"
    and claim: "claim_job cfg wid ck jid (js_jobs s) = Inr (Some (name, interval), jobs')"
  shows "job_inv cfg overhead (s\<lparr>js_jobs := jobs', js_running := (js_running s)(wid \<mapsto>
      \<lparr>run_job = jid, run_interval = interval, run_claimed_at = ck_lease ck\<rparr>)\<rparr>)"
proof (rule job_invI)
  let ?s = "s\<lparr>js_jobs := jobs', js_running := (js_running s)(wid \<mapsto>
      \<lparr>run_job = jid, run_interval = interval, run_claimed_at = ck_lease ck\<rparr>)\<rparr>"
  note ok = job_invD(2)[OF inv]
  show "lease_covers cfg overhead" by (rule job_invD(1)[OF inv])
  show "jobs_ok (js_jobs ?s)" using jobs_ok_claim[OF ok claim] by simp
  obtain j where j: "lookup job_id jid (js_jobs s) = Some j" "due (ck_due ck) j"
    and jobs': "jobs' = update_where (\<lambda>x. job_id x = jid)
      (claim_values wid (ck_lease ck + seconds (JOB_LEASE_SECONDS cfg)) (ck_updated ck)) (js_jobs s)"
    using claim_job_Some[OF ok claim] by blast
  fix wid' r assume r: "js_running ?s wid' = Some r"
  show "run_row_ok cfg overhead ?s wid' r"
  proof (cases "wid' = wid")
    case True
    then show ?thesis using r now j(1)
      by (auto simp: run_row_ok_def jobs' lookup_claimed claim_values_def)
  next
    case False
    then have old: "run_row_ok cfg overhead s wid' r" using r job_invD(3)[OF inv] by simp
    then have "run_job r \<noteq> jid" using j by (auto simp: run_row_ok_def due_def)
    then show ?thesis by (intro run_row_ok_other[OF old]) (simp_all add: jobs' lookup_claimed)
  qed
qed

lemma job_inv_finish:
  assumes inv: "job_inv cfg overhead s" and r: "js_running s wid = Some r"
  shows "job_inv cfg overhead (s\<lparr>js_jobs := reschedule_job t (run_job r) (run_interval r) error (js_jobs s),
      js_running := (js_running s)(wid := None)\<rparr>)"
proof (rule job_invI)
  let ?s = "s\<lparr>js_jobs := reschedule_job t (run_job r) (run_interval r) error (js_jobs s),
      js_running := (js_running s)(wid := None)\<rparr>"
  show "lease_covers cfg overhead" by (rule job_invD(1)[OF inv])
  show "jobs_ok (js_jobs ?s)" using jobs_ok_reschedule job_invD(2)[OF inv] by simp
  fix wid' r' assume r': "js_running ?s wid' = Some r'"
  then have "wid' \<noteq> wid" and old: "run_row_ok cfg overhead s wid' r'"
    using job_invD(3)[OF inv] by (auto split: if_splits)
  then have "run_job r' \<noteq> run_job r" using run_rows_unique job_invD(3)[OF inv r] by blast
  then show "run_row_ok cfg overhead ?s wid' r'"
    by (intro run_row_ok_other[OF old]) (simp_all add: lookup_reschedule)
qed

lemma job_inv_step:
  assumes "job_inv cfg overhead s" and "job_step cfg overhead s t"
  shows "job_inv cfg overhead t"
  using assms(2)
proof cases
  case (tick t')
  then show ?thesis using assms(1) by (auto simp: job_inv_def run_row_ok_def)
next
  case (recover t')
  then show ?thesis
    using job_invD[OF assms(1)] run_row_ok_recover jobs_ok_recover by (intro job_invI) auto
next
  case (claim wid ck jid interval name jobs')
  then show ?thesis using job_inv_claim[OF assms(1)] by blast
next
  case (finish wid r t' error)
  then show ?thesis using job_inv_finish[OF assms(1)] by blast
next
  case (crash wid)
  then show ?thesis
    using job_invD[OF assms(1)] by (intro job_invI) (auto simp: run_row_ok_def split: if_splits)
qed

interpretation job_pool: transition_system
  "job_start cfg overhead" "job_step cfg overhead" "job_inv cfg overhead" for cfg overhead
proof unfold_locales
  fix s t
  show "job_start cfg overhead s \<Longrightarrow> job_inv cfg overhead s"
    by (simp add: job_start_def job_inv_def)
  show "job_inv cfg overhead s \<Longrightarrow> job_step cfg overhead s t \<Longrightarrow> job_inv cfg overhead t"
    by (rule job_inv_step)
qed

subsection \<open>Properties\<close>

definition sample_sys :: job_sys where
  "sample_sys = \<lparr>js_jobs = sample_jobs, js_now = 10, js_running = (\<lambda>_. None)\<rparr>"

lemma default_settings_load: "\<exists>cfg. load_settings default_settings = Inr cfg \<and>
    JOB_HANDLER_TIMEOUT_SECONDS cfg = 55 \<and> JOB_LEASE_SECONDS cfg = 120"
  by (auto simp: load_settings_def validate_lease_invariant_def build_database_url_def
      default_settings_def)


text \<open>A reachable state of the sample system in which a job runs.\<close>

definition sample_run :: job_run where
  "sample_run = \<lparr>run_job = 3, run_interval = 60, run_claimed_at = 10\<rparr>"

lemma sample_claim: "\<exists>name jobs'. claim_job cfg ''w'' (sample_clock 0) 3 sample_jobs =
    Inr (Some (name, 60), jobs')"
proof -
  have "sample_job 3 ''c'' 9 \<in> set sample_jobs" "due (ck_due (sample_clock 0)) (sample_job 3 ''c'' 9)"
    and d: "distinct (map job_id sample_jobs)"
    by (simp_all add: sample_defs due_def)
  from claim_job_due[OF d this(1,2), of cfg "''w''"] show ?thesis by (simp add: sample_job_def)
qed


text \<open>The settings' inequality is needed: with a lease shorter than the handler timeout (which the
  settings' validation refuses) two workers can be running the same job at the same time.\<close>

theorem short_lease_runs_twice:
  "\<exists>cfg s0 s r r'. load_settings cfg = Inl (ValueError ''JOB_LEASE_SECONDS must be >= 2 * JOB_HANDLER_TIMEOUT_SECONDS'') \<and>
     jobs_ok (js_jobs s0) \<and> js_running s0 = (\<lambda>_. None) \<and> (job_step cfg 0)\<^sup>*\<^sup>* s0 s \<and>
     js_running s ''w'' = Some r \<and> js_running s ''v'' = Some r' \<and> run_job r = run_job r'"
proof -
  define cfg where "cfg = default_settings\<lparr>JOB_LEASE_SECONDS := 20\<rparr>"
  have cfg: "JOB_LEASE_SECONDS cfg = 20" "JOB_HANDLER_TIMEOUT_SECONDS cfg = 55"
    by (simp_all add: cfg_def default_settings_def)
  define job where "job = sample_job 3 ''c'' 9"
  define ck :: "datetime \<Rightarrow> job_clock" where
    "ck t = \<lparr>ck_lease = t, ck_due = t, ck_updated = t, ck_end = t\<rparr>" for t
  define run :: "datetime \<Rightarrow> job_run" where
    "run t = \<lparr>run_job = 3, run_interval = 60, run_claimed_at = t\<rparr>" for t
  define taken where "taken wid t = claim_values wid (t + seconds 20) t job" for wid t
  let ?late = "seconds 30"
  let ?s0 = "\<lparr>js_jobs = [job], js_now = 10, js_running = (\<lambda>_. None)\<rparr> :: job_sys"
  let ?s1 = "\<lparr>js_jobs = [taken ''w'' 10], js_now = 10, js_running = [''w'' \<mapsto> run 10]\<rparr> :: job_sys"
  let ?s2 = "\<lparr>js_jobs = [taken ''w'' 10], js_now = ?late, js_running = [''w'' \<mapsto> run 10]\<rparr> :: job_sys"
  let ?s3 = "\<lparr>js_jobs = [job\<lparr>job_updated_at := Some 10\<rparr>], js_now = ?late, js_running = [''w'' \<mapsto> run 10]\<rparr> :: job_sys"
  let ?s4 = "\<lparr>js_jobs = [taken ''v'' ?late], js_now = ?late, js_running = [''w'' \<mapsto> run 10, ''v'' \<mapsto> run ?late]\<rparr> :: job_sys"
  note claim_defs = claim_job_def claimable_def due_def one_or_none_def update_where_def taken_def
    job_def sample_job_def claim_values_def cfg ck_def
  have "claim_job cfg ''w'' (ck 10) 3 [job] = Inr (Some (''c'', 60), [taken ''w'' 10])"
    by (simp add: claim_defs)
  then have 1: "job_step cfg 0 ?s0 ?s1"
    using job_step.claim[of ?s0 "''w''" "ck 10" cfg 0 3 60 "''c''" "[taken ''w'' 10]"]
    by (simp add: run_deadline_def cfg ck_def run_def)
  have 2: "job_step cfg 0 ?s1 ?s2"
    using job_step.tick[of ?s1 ?late cfg 0] by (simp add: run_deadline_def cfg run_def)
  have "recover_stale_jobs ?late [taken ''w'' 10] = [job\<lparr>job_updated_at := Some 10\<rparr>]"
    by (simp add: recover_stale_jobs_def stale_def release_def update_where_def taken_def job_def
        sample_job_def claim_values_def)
  then have 3: "job_step cfg 0 ?s2 ?s3"
    using job_step.recover[of ?late ?s2 cfg 0] by simp
  have "claim_job cfg ''v'' (ck ?late) 3 [job\<lparr>job_updated_at := Some 10\<rparr>] =
      Inr (Some (''c'', 60), [taken ''v'' ?late])"
    by (simp add: claim_defs)
  then have 4: "job_step cfg 0 ?s3 ?s4"
    using job_step.claim[of ?s3 "''v''" "ck ?late" cfg 0 3 60 "''c''" "[taken ''v'' ?late]"]
    by (simp add: run_deadline_def cfg ck_def run_def)
  have "(job_step cfg 0)\<^sup>*\<^sup>* ?s0 ?s4"
    using 1 2 3 4 by (meson rtranclp.rtrancl_into_rtrancl rtranclp.rtrancl_refl)
  moreover have "jobs_ok [job]" by (simp add: job_def sample_job_def jobs_ok_def job_ok_def)
  moreover have "load_settings cfg = Inl (ValueError ''JOB_LEASE_SECONDS must be >= 2 * JOB_HANDLER_TIMEOUT_SECONDS'')"
    by (simp add: load_settings_def validate_lease_invariant_def build_database_url_def cfg_def default_settings_def)
  ultimately show ?thesis
    by (intro exI[of _ cfg] exI[of _ ?s0] exI[of _ ?s4] exI[of _ "run 10"] exI[of _ "run ?late"])
      (simp add: run_def)
qed

end
