(* ===== verification/Dispatcher.thy ===== *)
theory Dispatcher
  imports Config
begin

text \<open>
  \<open>app/core/events/dispatcher.py\<close>: the registry of event handlers and \<open>dispatch\<close>, which runs all the
  handlers of an event type, each isolated from the others. A handler is a function on the payload
  and a world \<open>'w\<close> (the tables its own session commits to) and ends normally or with an
  exception; it stands for \<open>asyncio.wait_for(handler(payload), timeout)\<close>, so a timeout is the exception
  \<open>TimeoutError\<close>. \<open>traceback.format_exc()\<close> is the parameter \<open>tb\<close>. Logging is not modelled.
  The lemmas say which handlers run, in which order, and what their results record.
\<close>

text \<open>JSON values as they occur in payloads, and a payload: an object in key order of insertion.\<close>

datatype json = JNull | JBool bool | JInt int | JStr string

type_synonym payload = "(string \<times> json) list"
type_synonym 'w handler_func = "payload \<Rightarrow> 'w \<Rightarrow> exc option \<times> 'w"

text \<open>A registered handler: its \<open>__name__\<close> and the function.\<close>

type_synonym 'w named_handler = "string \<times> 'w handler_func"
type_synonym 'w event_dispatcher = "(string \<times> 'w named_handler list) list"

record handler_result =
  handler_name :: string
  success :: bool
  res_error :: "string option"
  skipped :: bool

definition all_succeeded :: "handler_result list \<Rightarrow> bool" where
  "all_succeeded results = list_all success results"

definition newline_rule :: string where
  "newline_rule = CHR 0x0A # ''---'' @ [CHR 0x0A]"

definition errors_summary :: "handler_result list \<Rightarrow> string" where
  "errors_summary results =
     join newline_rule
       [''['' @ handler_name r @ ''] '' @ (case res_error r of None \<Rightarrow> ''None'' | Some e \<Rightarrow> e).
        r \<leftarrow> results, \<not> success r]"

definition register_handler :: "string \<Rightarrow> 'w named_handler \<Rightarrow> 'w event_dispatcher \<Rightarrow> 'w event_dispatcher" where
  "register_handler event_type func d =
     AList.update event_type ((case map_of d event_type of None \<Rightarrow> [] | Some hs \<Rightarrow> hs) @ [func]) d"

definition handlers_for :: "'w event_dispatcher \<Rightarrow> string \<Rightarrow> 'w named_handler list" where
  "handlers_for d event_type = (case map_of d event_type of None \<Rightarrow> [] | Some hs \<Rightarrow> hs)"

definition registered_events :: "'w event_dispatcher \<Rightarrow> string list" where
  "registered_events d = map fst d"

text \<open>The loop over the handlers. An exception outside \<open>Exception\<close> leaves it at once.\<close>

fun run_handlers ::
  "(exc \<Rightarrow> string) \<Rightarrow> string set \<Rightarrow> payload \<Rightarrow> 'w named_handler list \<Rightarrow> 'w \<Rightarrow>
   handler_result list result \<times> 'w" where
  "run_handlers tb completed payload [] w = (Inr [], w)"
| "run_handlers tb completed payload ((name, handler) # hs) w =
     (if name \<in> completed then
        (case run_handlers tb completed payload hs w of
           (Inl e, w') \<Rightarrow> (Inl e, w')
         | (Inr rs, w') \<Rightarrow>
             (Inr (\<lparr>handler_name = name, success = True, res_error = None, skipped = True\<rparr> # rs), w'))
      else
        (case handler payload w of
           (None, w1) \<Rightarrow>
             (case run_handlers tb completed payload hs w1 of
                (Inl e, w') \<Rightarrow> (Inl e, w')
              | (Inr rs, w') \<Rightarrow>
                  (Inr (\<lparr>handler_name = name, success = True, res_error = None, skipped = False\<rparr> # rs), w'))
         | (Some exn, w1) \<Rightarrow>
             (if is_Exception exn then
                (case run_handlers tb completed payload hs w1 of
                   (Inl e, w') \<Rightarrow> (Inl e, w')
                 | (Inr rs, w') \<Rightarrow>
                     (Inr (\<lparr>handler_name = name, success = False, res_error = Some (tb exn), skipped = False\<rparr> # rs), w'))
              else (Inl exn, w1))))"

definition dispatch ::
  "(exc \<Rightarrow> string) \<Rightarrow> 'w event_dispatcher \<Rightarrow> string \<Rightarrow> payload \<Rightarrow> string set \<Rightarrow> 'w \<Rightarrow>
   handler_result list result \<times> 'w" where
  "dispatch tb d event_type payload completed w =
     (let handlers = handlers_for d event_type in
      if handlers = [] then (Inr [], w) else run_handlers tb completed payload handlers w)"

subsection \<open>Lemmas\<close>

lemma dispatch_run: "dispatch tb d et payload completed w = run_handlers tb completed payload (handlers_for d et) w"
  by (simp add: dispatch_def Let_def)

lemma handlers_for_register:
  "handlers_for (register_handler et func d) et' =
     (if et' = et then handlers_for d et @ [func] else handlers_for d et')"
  by (simp add: handlers_for_def register_handler_def update_conv)

text \<open>The world after the handlers that are not skipped have run, in order.\<close>

definition run_effects :: "string set \<Rightarrow> payload \<Rightarrow> 'w named_handler list \<Rightarrow> 'w \<Rightarrow> 'w" where
  "run_effects completed payload hs w =
     fold (\<lambda>(name, h) w. snd (h payload w)) (filter (\<lambda>(name, h). name \<notin> completed) hs) w"

text \<open>The exception (if any) each handler of the list ends with, in the order of the list.\<close>

fun outcomes :: "string set \<Rightarrow> payload \<Rightarrow> 'w named_handler list \<Rightarrow> 'w \<Rightarrow> exc option list" where
  "outcomes completed payload [] w = []"
| "outcomes completed payload ((name, h) # hs) w =
     (if name \<in> completed then None # outcomes completed payload hs w
      else fst (h payload w) # outcomes completed payload hs (snd (h payload w)))"

definition result_of :: "(exc \<Rightarrow> string) \<Rightarrow> string set \<Rightarrow> string \<times> exc option \<Rightarrow> handler_result" where
  "result_of tb completed p = \<lparr>handler_name = fst p, success = (snd p = None),
     res_error = map_option tb (snd p), skipped = (fst p \<in> completed)\<rparr>"

lemma length_outcomes [simp]: "length (outcomes completed payload hs w) = length hs"
  by (induction hs arbitrary: w) auto

lemma run_handlers_spec:
  assumes "Some CancelledError \<notin> set (outcomes completed payload hs w)"
  shows "run_handlers tb completed payload hs w =
    (Inr (map (result_of tb completed) (zip (map fst hs) (outcomes completed payload hs w))),
     run_effects completed payload hs w)"
  using assms
proof (induction hs arbitrary: w)
  case Nil
  then show ?case by (simp add: run_effects_def)
next
  case (Cons nh hs)
  obtain name h where nh: "nh = (name, h)" by (cases nh)
  have sub: "Some CancelledError \<notin> set (outcomes completed payload hs w')"
    if "w' = (if name \<in> completed then w else snd (h payload w))" for w'
    using Cons.prems that by (auto simp: nh split: if_splits)
  show ?case
  proof (cases "name \<in> completed")
    case True
    then show ?thesis
      using Cons.IH[OF sub[of w]] by (simp add: nh run_effects_def result_of_def)
  next
    case False
    obtain e w1 where h: "h payload w = (e, w1)" by fastforce
    then have ne: "e \<noteq> Some CancelledError" using Cons.prems False by (auto simp: nh)
    then show ?thesis
      using False h Cons.IH[OF sub[of w1]]
      by (cases e) (simp_all add: nh run_effects_def result_of_def is_Exception_def)
  qed
qed

lemma run_handlers_Inr:
  assumes "run_handlers tb completed payload hs w = (Inr rs, w')"
  shows "Some CancelledError \<notin> set (outcomes completed payload hs w)"
  using assms
proof (induction hs arbitrary: w rs)
  case (Cons nh hs)
  obtain name h where "nh = (name, h)" by (cases nh)
  then show ?case
    using Cons.prems Cons.IH
    by (auto simp: is_Exception_def split: if_splits prod.splits option.splits sum.splits)
qed simp

lemma run_handlers_Inl: "run_handlers tb completed payload hs w = (Inl e, w') \<Longrightarrow> e = CancelledError"
proof (induction hs arbitrary: w)
  case (Cons nh hs)
  obtain name h where "nh = (name, h)" by (cases nh)
  then show ?case
    using Cons.prems Cons.IH
    by (auto simp: is_Exception_def split: if_splits prod.splits option.splits sum.splits)
qed simp

lemma run_handlers_names:
  assumes "run_handlers tb completed payload hs w = (Inr rs, w')"
  shows "map handler_name rs = map fst hs" "\<forall>r \<in> set rs. skipped r \<longleftrightarrow> handler_name r \<in> completed"
    "\<forall>r \<in> set rs. skipped r \<longrightarrow> success r" "\<forall>r \<in> set rs. success r \<longleftrightarrow> res_error r = None"
proof -
  have rs: "rs = map (result_of tb completed) (zip (map fst hs) (outcomes completed payload hs w))"
    using run_handlers_spec[OF run_handlers_Inr[OF assms], of tb] assms by simp
  show "map handler_name rs = map fst hs"
  proof -
    have "map (handler_name \<circ> result_of tb completed) ps = map fst ps" for ps
      by (simp add: result_of_def)
    then show ?thesis
      by (simp only: rs map_map map_fst_zip length_map length_outcomes)
  qed
  show "\<forall>r \<in> set rs. skipped r \<longleftrightarrow> handler_name r \<in> completed"
    "\<forall>r \<in> set rs. success r \<longleftrightarrow> res_error r = None"
    by (auto simp: rs result_of_def)
  have "snd p = None" if "p \<in> set (zip (map fst hs) (outcomes completed payload hs w))"
    "fst p \<in> completed" for p
    using that by (induction hs arbitrary: w) (auto split: if_splits)
  then show "\<forall>r \<in> set rs. skipped r \<longrightarrow> success r" by (auto simp: rs result_of_def)
qed

lemma join_Nil_iff: "(\<And>s. s \<in> set ss \<Longrightarrow> s \<noteq> []) \<Longrightarrow> join sep ss = [] \<longleftrightarrow> ss = []"
  by (cases "(sep, ss)" rule: join.cases) auto

lemma errors_summary_Nil: "errors_summary rs = [] \<longleftrightarrow> all_succeeded rs"
proof -
  have "errors_summary rs = [] \<longleftrightarrow> filter (\<lambda>r. \<not> success r) rs = []"
    unfolding errors_summary_def
    by (subst join_Nil_iff) (auto simp: filter_empty_conv)
  then show ?thesis by (simp add: all_succeeded_def filter_empty_conv list_all_iff)
qed

subsection \<open>Interface: an idempotent handler\<close>

text \<open>
  The outbox delivers at least once: an event whose handlers have run is delivered again when its
  transaction is lost. What a handler owes it: a failed run leaves the world as it was, and a run
  after a successful one leaves what can be observed as it was.
\<close>

fun redeliver :: "'w handler_func \<Rightarrow> payload \<Rightarrow> nat \<Rightarrow> 'w \<Rightarrow> 'w" where
  "redeliver h payload 0 w = w"
| "redeliver h payload (Suc n) w = redeliver h payload n (snd (h payload w))"

locale idempotent_handler =
  fixes handler :: "'w handler_func"
    and observe :: "'w \<Rightarrow> 'v"
  assumes failed_run: "handler payload w = (Some e, w1) \<Longrightarrow> w1 = w"
    and second_run: "handler payload w = (None, w1) \<Longrightarrow> handler payload w1 = (None, w2) \<Longrightarrow> observe w2 = observe w1"
begin

lemma redelivery:
  assumes "handler payload w = (None, w1)"
  shows "observe (redeliver handler payload n w1) = observe w1"
  using assms
proof (induction n arbitrary: w w1)
  case (Suc n)
  obtain r w2 where run: "handler payload w1 = (r, w2)" by fastforce
  show ?case
  proof (cases r)
    case None
    then have "observe (redeliver handler payload n w2) = observe w2" "observe w2 = observe w1"
      using Suc.IH[of w1 w2] second_run[OF Suc.prems] run by simp_all
    then show ?thesis using run by simp
  next
    case (Some e)
    then have "w2 = w1" using failed_run run by blast
    then show ?thesis using Suc.IH[OF Suc.prems] run by simp
  qed
qed simp

end

subsection \<open>Properties\<close>

text \<open>Dispatch isolates its handlers. Unless a handler is cancelled, every handler registered for
  the event type gives one result, in registration order, whatever the others raise; the handlers in
  the completed set are not called (their effect is absent from the world) and count as skipped
  successes; a result is a failure exactly when its handler raised, with that traceback. An event
  type without handlers succeeds vacuously, and the summary is empty exactly on success.\<close>

theorem dispatch_isolates:
  assumes "Some CancelledError \<notin> set (outcomes completed payload (handlers_for d et) w)"
  shows "\<exists>rs. dispatch tb d et payload completed w =
      (Inr rs, run_effects completed payload (handlers_for d et) w) \<and>
    map handler_name rs = map fst (handlers_for d et) \<and>
    map res_error rs = map (map_option tb) (outcomes completed payload (handlers_for d et) w) \<and>
    (\<forall>r \<in> set rs. (skipped r \<longleftrightarrow> handler_name r \<in> completed) \<and> (skipped r \<longrightarrow> success r) \<and>
       (success r \<longleftrightarrow> res_error r = None)) \<and>
    (errors_summary rs = [] \<longleftrightarrow> all_succeeded rs)"
proof -
  let ?hs = "handlers_for d et" and ?os = "outcomes completed payload (handlers_for d et) w"
  let ?rs = "map (result_of tb completed) (zip (map fst ?hs) ?os)"
  have run: "run_handlers tb completed payload ?hs w = (Inr ?rs, run_effects completed payload ?hs w)"
    by (rule run_handlers_spec[OF assms])
  have "map (res_error \<circ> result_of tb completed) ps = map (map_option tb) (map snd ps)" for ps
    by (simp add: result_of_def)
  then have "map res_error ?rs = map (map_option tb) ?os"
    by (simp only: map_map[of res_error] map_snd_zip length_map length_outcomes)
  then show ?thesis
    using run_handlers_names[OF run] run errors_summary_Nil
    by (intro exI[of _ ?rs] conjI) (auto simp: dispatch_run)
qed

definition sample_dispatcher :: "nat event_dispatcher" where
  "sample_dispatcher =
     register_handler ''evt'' (''bad'', \<lambda>p n. (Some (ValueError ''no''), n + 1))
       (register_handler ''evt'' (''good'', \<lambda>p n. (None, n + 10)) [])"

lemma sample_handlers: "handlers_for sample_dispatcher ''evt'' =
    [(''good'', \<lambda>p n. (None, n + 10)), (''bad'', \<lambda>p n. (Some (ValueError ''no''), n + 1))]"
  by (simp add: sample_dispatcher_def register_handler_def handlers_for_def)

end
