(* ===== verification/Outbox.thy ===== *)
theory Outbox
  imports Dispatcher
begin

text \<open>
  The transactional outbox \<open>app/core/events\<close>: the table \<open>outbox_events\<close> (\<open>models.py\<close>), publishing
  (\<open>bus.py\<close>) and the \<open>OutboxWorker\<close> (\<open>worker.py\<close>): how one event is handled, a batch, and the
  connection loop with its reconnect delays. The handlers' world \<open>'w\<close> is what their own sessions
  commit to; the event's row belongs to the worker's transaction. \<open>random.uniform(0, 5)\<close> is the
  parameter \<open>jitter\<close> (in microseconds, as \<open>timedelta\<close> rounds it); the raw connection of \<open>asyncpg\<close>
  appears by what its calls end with. The \<open>asyncio\<close> task around the loop is not modelled.
\<close>

type_synonym entry = "(string \<times> string) list"

record event =
  ev_id :: uuid
  aggregate_id :: "uuid option"
  correlation_id :: "uuid option"
  event_type :: string
  ev_payload :: payload
  ev_status :: row_status
  retry_count :: int
  max_retries :: int
  scheduled_at :: datetime
  ev_last_error :: "string option"
  ev_created_at :: datetime
  processed_at :: "datetime option"
  handler_state :: "(string \<times> entry) list"

subsection \<open>Publishing\<close>

definition CHANNEL :: string where
  "CHANNEL = ''apsis_outbox_channel''"

text \<open>
  \<open>EventBus.publish\<close>: the row with the defaults of the table, added to the caller's transaction, and
  the arguments of \<open>pg_notify\<close>. \<open>gen\<close> is \<open>gen_random_uuid()\<close>; the primary key and the length
  of \<open>event_type\<close> are checked by the database.
\<close>

definition publish ::
  "settings \<Rightarrow> (uuid list \<Rightarrow> uuid) \<Rightarrow> datetime \<Rightarrow> string \<Rightarrow> payload \<Rightarrow> uuid option \<Rightarrow> uuid option \<Rightarrow>
   event list \<Rightarrow> (event \<times> event list \<times> string \<times> string) result" where
  "publish cfg gen now etype payload agg corr events =
     (let ev = \<lparr>ev_id = gen (map ev_id events), aggregate_id = agg, correlation_id = corr,
                event_type = etype, ev_payload = payload, ev_status = PENDING, retry_count = 0,
                max_retries = OUTBOX_MAX_RETRIES cfg, scheduled_at = now, ev_last_error = None,
                ev_created_at = now, processed_at = None, handler_state = []\<rparr>
      in if 255 < length etype then Inl (DataError ''event_type'')
         else if ev_id ev \<in> ev_id ` set events then Inl (IntegrityError ''pk_outbox_events'')
         else Inr (ev, events @ [ev], CHANNEL, uuid_str (ev_id ev)))"

subsection \<open>Handling one event\<close>

definition completed_of :: "(string \<times> entry) list \<Rightarrow> string set" where
  "completed_of st = set [name. (name, info) \<leftarrow> st, map_of info ''status'' = Some ''ok'']"

definition result_entry :: "string \<Rightarrow> handler_result \<Rightarrow> entry" where
  "result_entry now_iso r =
     [(''status'', if success r then ''ok'' else ''failed''), (''at'', now_iso)] @
     (case res_error r of
        None \<Rightarrow> []
      | Some e \<Rightarrow> if e = [] then [] else [(''error'', first_chars 500 e)])"

fun record_results :: "string \<Rightarrow> handler_result list \<Rightarrow> (string \<times> entry) list \<Rightarrow> (string \<times> entry) list" where
  "record_results now_iso [] st = st"
| "record_results now_iso (r # rs) st =
     (if skipped r then record_results now_iso rs st
      else record_results now_iso rs (AList.update (handler_name r) (result_entry now_iso r) st))"

definition MAX_BACKOFF_HOURS :: int where
  "MAX_BACKOFF_HOURS = 1"

text \<open>
  \<open>min(2**retry_count + random.uniform(0, 5), 3600)\<close> seconds. The sum is a float, and the power an
  int that is converted to one, which fails from \<open>2**1024\<close> on.
\<close>

definition backoff :: "int \<Rightarrow> timedelta \<Rightarrow> timedelta result" where
  "backoff n jitter =
     (if 1024 \<le> n then Inl OverflowError
      else Inr (min (seconds (2 ^ nat n) + jitter) (seconds (MAX_BACKOFF_HOURS * 3600))))"

text \<open>What the rest of \<open>_handle_event\<close> does with the dispatch results; \<open>now\<close> is its clock reading.\<close>

definition settle_event :: "datetime \<Rightarrow> timedelta \<Rightarrow> handler_result list \<Rightarrow> event \<Rightarrow> event result" where
  "settle_event now jitter results ev =
     (if all_succeeded results then Inr (ev\<lparr>ev_status := PROCESSED, processed_at := Some now\<rparr>)
      else let ev1 = ev\<lparr>retry_count := retry_count ev + 1, ev_last_error := Some (errors_summary results)\<rparr>
        in if retry_count ev1 \<ge> max_retries ev1 then Inr (ev1\<lparr>ev_status := FAILED\<rparr>)
           else rbind (backoff (retry_count ev1) jitter) (\<lambda>d. Inr (ev1\<lparr>scheduled_at := now + d\<rparr>)))"

text \<open>The readings of one round: the query's clock, the rows locked by others, and the handling's.\<close>

record round_env =
  rd_now :: datetime
  rd_locked :: "uuid list"
  rd_iso :: datetime
  rd_end :: datetime
  rd_jitter :: timedelta

definition handle_event ::
  "(exc \<Rightarrow> string) \<Rightarrow> 'w event_dispatcher \<Rightarrow> round_env \<Rightarrow> event \<Rightarrow> 'w \<Rightarrow> event result \<times> 'w" where
  "handle_event tb d rd ev w =
     (case dispatch tb d (event_type ev) (ev_payload ev) (completed_of (handler_state ev)) w of
        (Inl e, w') \<Rightarrow> (Inl e, w')
      | (Inr results, w') \<Rightarrow>
          (settle_event (rd_end rd) (rd_jitter rd) results
             (ev\<lparr>handler_state := record_results (isoformat (rd_iso rd)) results (handler_state ev)\<rparr>), w'))"

subsection \<open>A batch\<close>

definition EVENT_BATCH_SIZE :: nat where
  "EVENT_BATCH_SIZE = 50"

definition ready :: "round_env \<Rightarrow> event \<Rightarrow> bool" where
  "ready rd ev \<longleftrightarrow> ev_status ev = PENDING \<and> scheduled_at ev \<le> rd_now rd \<and> ev_id ev \<notin> set (rd_locked rd)"

text \<open>\<open>SELECT \<dots> ORDER BY scheduled_at LIMIT 1 FOR UPDATE SKIP LOCKED\<close>.\<close>

definition next_event :: "round_env \<Rightarrow> event list \<Rightarrow> event option" where
  "next_event rd events = first_row (take 1 (select_order_by scheduled_at (ready rd) events))"

definition store_event :: "event \<Rightarrow> event list \<Rightarrow> event list" where
  "store_event ev events = update_where (\<lambda>x. ev_id x = ev_id ev) (\<lambda>_. ev) events"

text \<open>
  One transaction per event; an exception leaves the loop and its transaction is rolled back (the
  handlers' own sessions are not). \<open>env k\<close> is the \<open>k\<close>-th round.
\<close>

fun process_events ::
  "(exc \<Rightarrow> string) \<Rightarrow> 'w event_dispatcher \<Rightarrow> (nat \<Rightarrow> round_env) \<Rightarrow> nat \<Rightarrow> nat \<Rightarrow> event list \<times> 'w \<Rightarrow>
   unit result \<times> event list \<times> 'w" where
  "process_events tb d env k 0 st = (Inr (), st)"
| "process_events tb d env k (Suc n) st =
     (let (events, w) = st in
      case next_event (env k) events of
        None \<Rightarrow> (Inr (), events, w)
      | Some ev \<Rightarrow>
          (case handle_event tb d (env k) ev w of
             (Inl e, w') \<Rightarrow> (Inl e, events, w')
           | (Inr ev', w') \<Rightarrow> process_events tb d env (Suc k) n (store_event ev' events, w')))"

definition process_batch ::
  "(exc \<Rightarrow> string) \<Rightarrow> 'w event_dispatcher \<Rightarrow> (nat \<Rightarrow> round_env) \<Rightarrow> event list \<times> 'w \<Rightarrow>
   unit result \<times> event list \<times> 'w" where
  "process_batch tb d env st = process_events tb d env 0 EVENT_BATCH_SIZE st"

subsection \<open>The connection loop\<close>

definition MAX_RECONNECT_DELAY :: int where
  "MAX_RECONNECT_DELAY = 60"

definition reconnect_delay :: "nat \<Rightarrow> int" where
  "reconnect_delay attempt = min (2 ^ attempt) MAX_RECONNECT_DELAY"

definition build_asyncpg_dsn :: "settings \<Rightarrow> string" where
  "build_asyncpg_dsn cfg = url_from_parts ''postgresql'' cfg"

text \<open>
  What \<open>_run\<close> meets, one element per turn of its loops. Without a connection: the outcomes of
  \<open>asyncpg.connect\<close> and of \<open>add_listener\<close>. With one: a poll, which is a shutdown during the wait, or
  the heartbeat's outcome and the rounds of the batch. The last component of each is the exception, if
  any, that leaves the blocks \<open>except Exception\<close> (whose sleep can be cancelled) and \<open>finally\<close> (whose
  \<open>conn.close()\<close> is not protected), when the turn enters them. An element that does not fit the
  state of the connection is passed over.
\<close>

datatype loop_env =
    Connect "exc option" "exc option" "exc option"
  | Shutdown "exc option"
  | Heartbeat "exc option" "nat \<Rightarrow> round_env" "exc option"

fun leaving :: "loop_env \<Rightarrow> exc option" where
  "leaving (Connect _ _ c) = c"
| "leaving (Shutdown c) = c"
| "leaving (Heartbeat _ _ c) = c"

text \<open>The loop's state: the failed attempts, whether it is connected, and the delays it has slept.\<close>

record loop_state =
  attempt :: nat
  connected :: bool
  slept :: "int list"

text \<open>\<open>finally\<close> after a normal end of the block, and after an exception of it.\<close>

definition close_connection :: "exc option \<Rightarrow> loop_state \<Rightarrow> loop_state result" where
  "close_connection c ls = (case c of None \<Rightarrow> Inr (ls\<lparr>connected := False\<rparr>) | Some e \<Rightarrow> Inl e)"

definition loop_failure :: "exc \<Rightarrow> exc option \<Rightarrow> loop_state \<Rightarrow> loop_state result" where
  "loop_failure e c ls =
     (if is_Exception e
      then close_connection c (ls\<lparr>attempt := Suc (attempt ls),
             slept := slept ls @ [reconnect_delay (Suc (attempt ls))]\<rparr>)
      else rbind (close_connection c ls) (\<lambda>_. Inl e))"

text \<open>One turn: whether it was the last, with the new state, or the exception that leaves \<open>_run\<close>.\<close>

fun loop_turn ::
  "(exc \<Rightarrow> string) \<Rightarrow> 'w event_dispatcher \<Rightarrow> loop_env \<Rightarrow> loop_state \<Rightarrow> event list \<times> 'w \<Rightarrow>
   (bool \<times> loop_state) result \<times> event list \<times> 'w" where
  "loop_turn tb d (Connect r l c) ls st =
     (if connected ls then (Inr (False, ls), st)
      else case (r, l) of
        (None, None) \<Rightarrow> (Inr (False, ls\<lparr>attempt := 0, connected := True\<rparr>), st)
      | (Some e, _) \<Rightarrow> (rbind (loop_failure e c ls) (\<lambda>ls'. Inr (False, ls')), st)
      | (None, Some e) \<Rightarrow> (rbind (loop_failure e c ls) (\<lambda>ls'. Inr (False, ls')), st))"
| "loop_turn tb d (Shutdown c) ls st =
     (if connected ls then (rbind (close_connection c ls) (\<lambda>ls'. Inr (True, ls')), st)
      else (Inr (True, ls), st))"
| "loop_turn tb d (Heartbeat r env c) ls st =
     (if \<not> connected ls then (Inr (False, ls), st)
      else case r of
        Some e \<Rightarrow>
          (rbind (if is_Exception e then close_connection c ls else loop_failure e c ls)
             (\<lambda>ls'. Inr (False, ls')), st)
      | None \<Rightarrow>
          (case process_batch tb d env st of
             (Inr _, st') \<Rightarrow> (Inr (False, ls), st')
           | (Inl e, st') \<Rightarrow> (rbind (loop_failure e c ls) (\<lambda>ls'. Inr (False, ls')), st')))"

fun outbox_run ::
  "(exc \<Rightarrow> string) \<Rightarrow> 'w event_dispatcher \<Rightarrow> loop_env list \<Rightarrow> loop_state \<Rightarrow> event list \<times> 'w \<Rightarrow>
   loop_state result \<times> event list \<times> 'w" where
  "outbox_run tb d [] ls st = (Inr ls, st)"
| "outbox_run tb d (e # es) ls st =
     (case loop_turn tb d e ls st of
        (Inl x, st') \<Rightarrow> (Inl x, st')
      | (Inr (stop, ls'), st') \<Rightarrow> if stop then (Inr ls', st') else outbox_run tb d es ls' st')"

subsection \<open>The event's invariant\<close>

text \<open>
  An event is given up after \<open>max_retries\<close> failed attempts (at least one is made). A pending event
  has attempts left, a processed one has its time, and an error is stored once an attempt failed.
\<close>

definition attempts_allowed :: "event \<Rightarrow> int" where
  "attempts_allowed ev = max 1 (max_retries ev)"

definition event_ok :: "event \<Rightarrow> bool" where
  "event_ok ev \<longleftrightarrow>
     0 \<le> retry_count ev \<and> (ev_last_error ev \<noteq> None \<longleftrightarrow> 0 < retry_count ev) \<and>
     distinct (map fst (handler_state ev)) \<and>
     (case ev_status ev of
        PENDING \<Rightarrow> retry_count ev < attempts_allowed ev \<and> processed_at ev = None
      | PROCESSED \<Rightarrow> retry_count ev < attempts_allowed ev \<and> processed_at ev \<noteq> None
      | FAILED \<Rightarrow> retry_count ev = attempts_allowed ev \<and> processed_at ev = None
      | RUNNING \<Rightarrow> False)"

definition events_ok :: "event list \<Rightarrow> bool" where
  "events_ok events \<longleftrightarrow> distinct (map ev_id events) \<and> (\<forall>ev \<in> set events. event_ok ev)"

definition terminal :: "event \<Rightarrow> bool" where
  "terminal ev \<longleftrightarrow> ev_status ev = PROCESSED \<or> ev_status ev = FAILED"

lemma event_ok_terminal: "event_ok ev \<Longrightarrow> terminal ev \<longleftrightarrow> ev_status ev \<noteq> PENDING"
  by (cases "ev_status ev") (auto simp: event_ok_def terminal_def)

lemma distinct_record_results:
  "distinct (map fst st) \<Longrightarrow> distinct (map fst (record_results now rs st))"
  by (induction rs arbitrary: st) (auto simp: distinct_update)

text \<open>What settling leaves alone, and how it changes the status.\<close>

lemma settle_event_Inr:
  assumes "settle_event now jitter results ev = Inr ev'"
  shows "ev_id ev' = ev_id ev" "max_retries ev' = max_retries ev" "handler_state ev' = handler_state ev"
    "event_type ev' = event_type ev" "ev_payload ev' = ev_payload ev"
    "ev_status ev' = (if all_succeeded results then PROCESSED
       else if retry_count ev + 1 \<ge> max_retries ev then FAILED else ev_status ev)"
    "retry_count ev' = (if all_succeeded results then retry_count ev else retry_count ev + 1)"
    "processed_at ev' = (if all_succeeded results then Some now else processed_at ev)"
    "ev_last_error ev' = (if all_succeeded results then ev_last_error ev else Some (errors_summary results))"
  using assms
  by (auto simp: settle_event_def Let_def rbind_eq_Inr split: if_splits)

lemma settle_event_ok:
  assumes "event_ok ev" and "ev_status ev = PENDING" and "settle_event now jitter results ev = Inr ev'"
  shows "event_ok ev'"
  using assms(1,2) settle_event_Inr[OF assms(3)]
  by (auto simp: event_ok_def attempts_allowed_def)

lemma handle_event_Inr:
  assumes "handle_event tb d rd ev w = (Inr ev', w')"
  shows "\<exists>results. run_handlers tb (completed_of (handler_state ev)) (ev_payload ev)
      (handlers_for d (event_type ev)) w = (Inr results, w') \<and>
    settle_event (rd_end rd) (rd_jitter rd) results
      (ev\<lparr>handler_state := record_results (isoformat (rd_iso rd)) results (handler_state ev)\<rparr>) = Inr ev'"
  using assms by (auto simp: handle_event_def dispatch_run split: prod.split_asm sum.split_asm)

lemma handle_event_ok:
  assumes "event_ok ev" and "ev_status ev = PENDING" and "handle_event tb d rd ev w = (Inr ev', w')"
  shows "event_ok ev'" "ev_id ev' = ev_id ev"
proof -
  obtain results where s: "settle_event (rd_end rd) (rd_jitter rd) results
      (ev\<lparr>handler_state := record_results (isoformat (rd_iso rd)) results (handler_state ev)\<rparr>) = Inr ev'"
    using handle_event_Inr[OF assms(3)] by blast
  have "event_ok (ev\<lparr>handler_state := record_results (isoformat (rd_iso rd)) results (handler_state ev)\<rparr>)"
    using assms(1,2) by (simp add: event_ok_def distinct_record_results attempts_allowed_def)
  then show "event_ok ev'" using settle_event_ok[OF _ _ s] assms(2) by simp
  show "ev_id ev' = ev_id ev" using settle_event_Inr(1)[OF s] by simp
qed

subsection \<open>Completed handlers\<close>

lemma result_entry_status: "map_of (result_entry now r) ''status'' = Some (if success r then ''ok'' else ''failed'')"
  by (simp add: result_entry_def)

lemma completed_of_iff:
  "distinct (map fst st) \<Longrightarrow>
   name \<in> completed_of st \<longleftrightarrow> (\<exists>info. map_of st name = Some info \<and> map_of info ''status'' = Some ''ok'')"
  by (auto simp: completed_of_def map_of_eq_Some_iff)

lemma map_of_record_results:
  assumes "distinct (map handler_name rs)"
  shows "map_of (record_results now rs st) name =
    (case find (\<lambda>r. handler_name r = name \<and> \<not> skipped r) rs of
       None \<Rightarrow> map_of st name | Some r \<Rightarrow> Some (result_entry now r))"
  using assms
proof (induction rs arbitrary: st)
  case (Cons r rs)
  have none: "find (\<lambda>q. handler_name q = handler_name r \<and> \<not> skipped q) rs = None"
    using Cons.prems by (auto simp: find_None_iff image_iff)
  show ?case
    using Cons none by (auto simp: update_conv' split: option.splits)
qed simp

lemma completed_of_record:
  assumes "distinct (map handler_name rs)" and "distinct (map fst st)"
  shows "completed_of (record_results now rs st) =
    {handler_name r |r. r \<in> set rs \<and> \<not> skipped r \<and> success r} \<union>
    (completed_of st - {handler_name r |r. r \<in> set rs \<and> \<not> skipped r})"
proof (rule set_eqI)
  fix name
  have d: "distinct (map fst (record_results now rs st))" by (rule distinct_record_results[OF assms(2)])
  show "name \<in> completed_of (record_results now rs st) \<longleftrightarrow> name \<in>
      {handler_name r |r. r \<in> set rs \<and> \<not> skipped r \<and> success r} \<union>
      (completed_of st - {handler_name r |r. r \<in> set rs \<and> \<not> skipped r})"
  proof (cases "find (\<lambda>r. handler_name r = name \<and> \<not> skipped r) rs")
    case None
    then have same: "map_of (record_results now rs st) name = map_of st name"
      by (simp add: map_of_record_results[OF assms(1)])
    show ?thesis
      using None unfolding completed_of_iff[OF d] same
      by (auto simp: find_None_iff completed_of_iff[OF assms(2)])
  next
    case (Some r)
    then have r: "r \<in> set rs" "handler_name r = name" "\<not> skipped r"
      by (auto simp: find_Some_iff)
    have one: "r' = r" if "r' \<in> set rs" "handler_name r' = name" for r'
      by (rule unique_column[OF assms(1) that(1) r(1)]) (simp only: that(2) r(2))
    have "name \<in> {handler_name r |r. r \<in> set rs \<and> \<not> skipped r \<and> success r} \<longleftrightarrow> success r"
    proof
      assume "name \<in> {handler_name r |r. r \<in> set rs \<and> \<not> skipped r \<and> success r}"
      then obtain r' where "r' \<in> set rs" "handler_name r' = name" "success r'" by blast
      then show "success r" using one by blast
    qed (use r in blast)
    moreover have "name \<in> {handler_name r |r. r \<in> set rs \<and> \<not> skipped r}" using r by blast
    moreover have "map_of (record_results now rs st) name = Some (result_entry now r)"
      using Some by (simp add: map_of_record_results[OF assms(1)])
    ultimately show ?thesis
      unfolding completed_of_iff[OF d] by (simp add: result_entry_status)
  qed
qed

text \<open>The handlers that succeed in this attempt join the completed ones; none leaves.\<close>

lemma completed_of_handled:
  assumes "run_handlers tb (completed_of st) payload hs w = (Inr rs, w')"
    and "distinct (map fst hs)" and "distinct (map fst st)"
  shows "completed_of (record_results now rs st) =
    completed_of st \<union> {handler_name r |r. r \<in> set rs \<and> success r}"
proof -
  note names = run_handlers_names[OF assms(1)]
  have d: "distinct (map handler_name rs)" using names(1) assms(2) by simp
  have fresh: "completed_of st \<inter> {handler_name r |r. r \<in> set rs \<and> \<not> skipped r} = {}"
    using names(2) by auto
  have old: "{handler_name r |r. r \<in> set rs \<and> success r} \<subseteq>
      completed_of st \<union> {handler_name r |r. r \<in> set rs \<and> \<not> skipped r \<and> success r}"
    using names(2) by auto
  show ?thesis
    unfolding completed_of_record[OF d assms(3)] using fresh old by auto
qed

subsection \<open>The attempts of one event\<close>

text \<open>
  An event's life from a row on: while it is pending, each element of the list is one attempt.
  The results of the attempts are collected.
\<close>

fun attempts ::
  "(exc \<Rightarrow> string) \<Rightarrow> 'w event_dispatcher \<Rightarrow> round_env list \<Rightarrow> event \<Rightarrow> 'w \<Rightarrow>
   (handler_result list list \<times> event) result \<times> 'w" where
  "attempts tb d [] ev w = (Inr ([], ev), w)"
| "attempts tb d (rd # rds) ev w =
     (if ev_status ev \<noteq> PENDING then (Inr ([], ev), w)
      else (case (fst (dispatch tb d (event_type ev) (ev_payload ev) (completed_of (handler_state ev)) w),
                  handle_event tb d rd ev w) of
          (Inr results, (Inr ev', w1)) \<Rightarrow>
            (case attempts tb d rds ev' w1 of
               (Inr (rss, ev2), w2) \<Rightarrow> (Inr (results # rss, ev2), w2)
             | (Inl e, w2) \<Rightarrow> (Inl e, w2))
        | (Inl e, (_, w1)) \<Rightarrow> (Inl e, w1)
        | (Inr _, (Inl e, w1)) \<Rightarrow> (Inl e, w1)))"

definition no_handler_cancelled :: "'w event_dispatcher \<Rightarrow> bool" where
  "no_handler_cancelled d \<longleftrightarrow>
     (\<forall>et name h payload w. (name, h) \<in> set (handlers_for d et) \<longrightarrow> fst (h payload w) \<noteq> Some CancelledError)"

lemma outcomes_not_cancelled:
  assumes "\<forall>(name, h) \<in> set hs. \<forall>w. fst (h payload w) \<noteq> Some CancelledError"
  shows "Some CancelledError \<notin> set (outcomes completed payload hs w)"
  using assms by (induction hs arbitrary: w) (auto split: if_splits)

lemma handle_event_returns:
  assumes "no_handler_cancelled d" and "max_retries ev \<le> 1024"
  shows "\<exists>ev' w'. handle_event tb d rd ev w = (Inr ev', w')"
proof -
  have "Some CancelledError \<notin> set (outcomes (completed_of (handler_state ev)) (ev_payload ev)
      (handlers_for d (event_type ev)) w)"
    using assms(1) by (intro outcomes_not_cancelled) (auto simp: no_handler_cancelled_def)
  from run_handlers_spec[OF this] show ?thesis
    using assms(2)
    by (auto simp: handle_event_def dispatch_run settle_event_def Let_def backoff_def)
qed

definition attempts_left :: "event \<Rightarrow> nat" where
  "attempts_left ev = (if ev_status ev = PENDING then nat (attempts_allowed ev - retry_count ev) else 0)"

lemma attempts_left_handle:
  assumes "event_ok ev" and "ev_status ev = PENDING" and "handle_event tb d rd ev w = (Inr ev', w')"
  shows "attempts_left ev' < attempts_left ev" "max_retries ev' = max_retries ev"
proof -
  obtain results where "settle_event (rd_end rd) (rd_jitter rd) results
      (ev\<lparr>handler_state := record_results (isoformat (rd_iso rd)) results (handler_state ev)\<rparr>) = Inr ev'"
    using handle_event_Inr[OF assms(3)] by blast
  note s = settle_event_Inr[OF this]
  show "max_retries ev' = max_retries ev" using s(2) by simp
  show "attempts_left ev' < attempts_left ev"
    using assms(1,2) s by (auto simp: attempts_left_def event_ok_def attempts_allowed_def)
qed

lemma attempts_Cons:
  assumes "ev_status ev = PENDING" and "handle_event tb d rd ev w = (Inr ev', w1)"
  shows "\<exists>results. run_handlers tb (completed_of (handler_state ev)) (ev_payload ev)
      (handlers_for d (event_type ev)) w = (Inr results, w1) \<and>
    settle_event (rd_end rd) (rd_jitter rd) results
      (ev\<lparr>handler_state := record_results (isoformat (rd_iso rd)) results (handler_state ev)\<rparr>) = Inr ev' \<and>
    attempts tb d (rd # rds) ev w =
      (case attempts tb d rds ev' w1 of
         (Inr (rss, ev2), w2) \<Rightarrow> (Inr (results # rss, ev2), w2)
       | (Inl e, w2) \<Rightarrow> (Inl e, w2))"
  using handle_event_Inr[OF assms(2)] assms by (auto simp: dispatch_run)

text \<open>The handlers that ran and succeeded in an attempt.\<close>

definition newly_succeeded :: "handler_result list \<Rightarrow> string list" where
  "newly_succeeded results = [handler_name r. r \<leftarrow> results, success r \<and> \<not> skipped r]"

lemma newly_succeeded_map: "newly_succeeded rs = map handler_name (filter (\<lambda>r. success r \<and> \<not> skipped r) rs)"
  by (induction rs) (auto simp: newly_succeeded_def)

lemma attempts_no_repeat:
  assumes "attempts tb d rds ev w = (Inr (rss, ev'), w')" and "event_ok ev"
    and "\<And>et. distinct (map fst (handlers_for d et))"
  shows "distinct (concat (map newly_succeeded rss)) \<and>
    set (concat (map newly_succeeded rss)) \<inter> completed_of (handler_state ev) = {}"
  using assms(1,2)
proof (induction rds arbitrary: ev w rss)
  case Nil
  then show ?case by simp
next
  case (Cons rd rds)
  show ?case
  proof (cases "ev_status ev = PENDING")
    case False
    then show ?thesis using Cons.prems(1) by simp
  next
    case True
    obtain ev1 w1 where h: "handle_event tb d rd ev w = (Inr ev1, w1)"
      using Cons.prems(1) True
      by (cases "handle_event tb d rd ev w"; cases "fst (handle_event tb d rd ev w)")
        (auto split: sum.splits)
    obtain results where run: "run_handlers tb (completed_of (handler_state ev)) (ev_payload ev)
        (handlers_for d (event_type ev)) w = (Inr results, w1)"
      and settle: "settle_event (rd_end rd) (rd_jitter rd) results
        (ev\<lparr>handler_state := record_results (isoformat (rd_iso rd)) results (handler_state ev)\<rparr>) = Inr ev1"
      and att: "attempts tb d (rd # rds) ev w =
        (case attempts tb d rds ev1 w1 of
           (Inr (rss, ev2), w2) \<Rightarrow> (Inr (results # rss, ev2), w2)
         | (Inl e, w2) \<Rightarrow> (Inl e, w2))"
      using attempts_Cons[OF True h] by blast
    obtain rss1 where rss: "rss = results # rss1" and rest: "attempts tb d rds ev1 w1 = (Inr (rss1, ev'), w')"
      using Cons.prems(1) att by (auto split: prod.split_asm sum.split_asm)
    have dk: "distinct (map fst (handler_state ev))" using Cons.prems(2) by (simp add: event_ok_def)
    have now_done: "completed_of (handler_state ev1) =
        completed_of (handler_state ev) \<union> {handler_name r |r. r \<in> set results \<and> success r}"
      using completed_of_handled[OF run assms(3) dk] settle_event_Inr(3)[OF settle] by simp
    have IH: "distinct (concat (map newly_succeeded rss1))"
      "set (concat (map newly_succeeded rss1)) \<inter> completed_of (handler_state ev1) = {}"
      using Cons.IH[OF rest handle_event_ok(1)[OF Cons.prems(2) True h]] by blast+
    note names = run_handlers_names[OF run]
    have sub: "set (newly_succeeded results) \<subseteq> completed_of (handler_state ev1)"
      by (auto simp: now_done newly_succeeded_map)
    have "distinct (newly_succeeded results)"
      unfolding newly_succeeded_map by (rule distinct_map_filter) (simp add: names(1) assms(3))
    moreover have "set (newly_succeeded results) \<inter> completed_of (handler_state ev) = {}"
      using names(2) by (auto simp: newly_succeeded_map)
    moreover have "completed_of (handler_state ev) \<subseteq> completed_of (handler_state ev1)"
      by (simp add: now_done)
    ultimately show ?thesis
      using IH sub unfolding rss by (simp add: Int_Un_distrib2) blast
  qed
qed

lemma attempts_terminal:
  assumes "no_handler_cancelled d" and "max_retries ev \<le> 1024" and "event_ok ev"
    and "attempts_left ev \<le> length rds"
  shows "\<exists>rss ev' w'. attempts tb d rds ev w = (Inr (rss, ev'), w') \<and> event_ok ev' \<and>
    terminal ev' \<and> length rss \<le> attempts_left ev"
  using assms(2-4)
proof (induction rds arbitrary: ev w)
  case Nil
  then have "ev_status ev \<noteq> PENDING" by (auto simp: attempts_left_def event_ok_def)
  then show ?case using Nil.prems event_ok_terminal by auto
next
  case (Cons rd rds)
  show ?case
  proof (cases "ev_status ev = PENDING")
    case False
    then show ?thesis using Cons.prems(2) event_ok_terminal by auto
  next
    case True
    obtain ev1 w1 where h: "handle_event tb d rd ev w = (Inr ev1, w1)"
      using handle_event_returns[OF assms(1) Cons.prems(1)] by blast
    note left = attempts_left_handle[OF Cons.prems(2) True h]
    have "max_retries ev1 \<le> 1024" "attempts_left ev1 \<le> length rds"
      using left Cons.prems(1,3) by simp_all
    then obtain rss ev' w' where rest: "attempts tb d rds ev1 w1 = (Inr (rss, ev'), w')" "event_ok ev'"
      "terminal ev'" "length rss \<le> attempts_left ev1"
      using Cons.IH[OF _ handle_event_ok(1)[OF Cons.prems(2) True h]] by blast
    obtain results where "attempts tb d (rd # rds) ev w = (Inr (results # rss, ev'), w')"
      using attempts_Cons[OF True h, of rds] rest(1) by auto
    then show ?thesis using rest left(1) by auto
  qed
qed

subsection \<open>Properties\<close>

definition sample_event :: "uuid \<Rightarrow> datetime \<Rightarrow> event" where
  "sample_event i t = \<lparr>ev_id = i, aggregate_id = None, correlation_id = None, event_type = ''evt'',
     ev_payload = [], ev_status = PENDING, retry_count = 0, max_retries = 2, scheduled_at = t,
     ev_last_error = None, ev_created_at = 0, processed_at = None, handler_state = []\<rparr>"

definition sample_round :: round_env where
  "sample_round = \<lparr>rd_now = 10, rd_locked = [], rd_iso = 11, rd_end = 12, rd_jitter = 500000\<rparr>"

lemma sample_event_ok: "event_ok (sample_event i t)" "ev_status (sample_event i t) = PENDING"
  "max_retries (sample_event i t) = 2" "attempts_left (sample_event i t) = 2"
  by (simp_all add: sample_event_def event_ok_def attempts_allowed_def attempts_left_def)

lemma sample_dispatcher_handlers:
  "handlers_for sample_dispatcher et = (if et = ''evt'' then
     [(''good'', \<lambda>p n. (None, n + 10)), (''bad'', \<lambda>p n. (Some (ValueError ''no''), n + 1))] else [])"
  by (simp add: sample_dispatcher_def register_handler_def handlers_for_def)

lemma sample_dispatcher_ok: "no_handler_cancelled sample_dispatcher"
  "distinct (map fst (handlers_for sample_dispatcher et))"
  by (auto simp: no_handler_cancelled_def sample_dispatcher_handlers)

text \<open>C13. No event is retried forever. Unless a handler is cancelled, as many attempts as the event has
  left (its \<open>max_retries\<close>, at least one) bring it to PROCESSED or FAILED, whatever the handlers do, and
  never more attempts than that are made.\<close>

theorem every_event_terminates:
  assumes "no_handler_cancelled d" and "event_ok ev" and "max_retries ev \<le> 1024"
    and "attempts_left ev \<le> length rds"
  shows "\<exists>rss ev' w'. attempts tb d rds ev w = (Inr (rss, ev'), w') \<and> event_ok ev' \<and>
    (ev_status ev' = PROCESSED \<or> ev_status ev' = FAILED) \<and> length rss \<le> attempts_left ev"
  using attempts_terminal[OF assms(1,3,2,4)] unfolding terminal_def .

lemma every_event_terminates_witness:
  "\<exists>rss ev' w'. attempts (\<lambda>e. ''tb'') sample_dispatcher [sample_round, sample_round] (sample_event 1 5) 0 =
     (Inr (rss, ev'), w') \<and> (ev_status ev' = PROCESSED \<or> ev_status ev' = FAILED)"
  using every_event_terminates[OF sample_dispatcher_ok(1) sample_event_ok(1),
      of 1 5 "[sample_round, sample_round]" "\<lambda>e. ''tb''" 0]
  by (auto simp: sample_event_ok)



text \<open>C21. What one attempt does to a pending event. It becomes PROCESSED exactly when every handler of
  its type has succeeded by now, in this attempt or an earlier one; else its retry count grows by one
  with the failures' summary stored, and it is FAILED exactly when the allowed attempts are used up.
  The handlers completed before stay completed.\<close>

theorem handle_event_outcome:
  assumes "handle_event tb d rd ev w = (Inr ev', w')" and "event_ok ev" and "ev_status ev = PENDING"
    and "distinct (map fst (handlers_for d (event_type ev)))"
  shows "(ev_status ev' = PROCESSED \<longleftrightarrow>
       set (map fst (handlers_for d (event_type ev))) \<subseteq> completed_of (handler_state ev')) \<and>
    (ev_status ev' = PROCESSED \<longrightarrow> processed_at ev' = Some (rd_end rd) \<and> retry_count ev' = retry_count ev) \<and>
    (ev_status ev' \<noteq> PROCESSED \<longrightarrow> retry_count ev' = retry_count ev + 1 \<and> ev_last_error ev' \<noteq> None \<and>
       (ev_status ev' = FAILED \<longleftrightarrow> retry_count ev' = attempts_allowed ev)) \<and>
    completed_of (handler_state ev) \<subseteq> completed_of (handler_state ev') \<and>
    event_ok ev' \<and> ev_id ev' = ev_id ev"
proof -
  obtain results where run: "run_handlers tb (completed_of (handler_state ev)) (ev_payload ev)
        (handlers_for d (event_type ev)) w = (Inr results, w')"
      and settle: "settle_event (rd_end rd) (rd_jitter rd) results
        (ev\<lparr>handler_state := record_results (isoformat (rd_iso rd)) results (handler_state ev)\<rparr>) = Inr ev'"
    using handle_event_Inr[OF assms(1)] by blast
  note names = run_handlers_names[OF run] and s = settle_event_Inr[OF settle]
  have dk: "distinct (map fst (handler_state ev))" using assms(2) by (simp add: event_ok_def)
  have now_done: "completed_of (handler_state ev') =
      completed_of (handler_state ev) \<union> {handler_name r |r. r \<in> set results \<and> success r}"
    using completed_of_handled[OF run assms(4) dk] s(3) by simp
  have inj: "r = r'" if "r \<in> set results" "r' \<in> set results" "handler_name r = handler_name r'" for r r'
    using unique_column[of handler_name results r r'] names(1) assms(4) that by simp
  have all: "all_succeeded results \<longleftrightarrow>
      set (map fst (handlers_for d (event_type ev))) \<subseteq> completed_of (handler_state ev')"
  proof
    assume "all_succeeded results"
    then show "set (map fst (handlers_for d (event_type ev))) \<subseteq> completed_of (handler_state ev')"
      unfolding names(1)[symmetric] now_done by (auto simp: all_succeeded_def list_all_iff)
  next
    assume sub: "set (map fst (handlers_for d (event_type ev))) \<subseteq> completed_of (handler_state ev')"
    have "success r" if r: "r \<in> set results" for r
    proof -
      have "handler_name r \<in> completed_of (handler_state ev')"
        using sub r unfolding names(1)[symmetric] by auto
      then consider "handler_name r \<in> completed_of (handler_state ev)"
        | r' where "r' \<in> set results" "success r'" "handler_name r' = handler_name r"
        unfolding now_done by auto
      then show ?thesis
      proof cases
        case 1
        then show ?thesis using names(2,3) r by blast
      next
        case 2
        then show ?thesis using inj[OF 2(1) r 2(3)] by simp
      qed
    qed
    then show "all_succeeded results" by (simp add: all_succeeded_def list_all_iff)
  qed
  have pending: "retry_count ev < attempts_allowed ev" "0 \<le> retry_count ev"
    using assms(2,3) by (auto simp: event_ok_def)
  have status: "ev_status ev' = PROCESSED \<longleftrightarrow> all_succeeded results"
    using s(6) assms(3) by simp
  moreover have "ev_status ev' \<noteq> PROCESSED \<longrightarrow> retry_count ev' = retry_count ev + 1 \<and> ev_last_error ev' \<noteq> None \<and>
       (ev_status ev' = FAILED \<longleftrightarrow> retry_count ev' = attempts_allowed ev)"
    using s pending status assms(3) by (auto simp: attempts_allowed_def)
  ultimately show ?thesis
    using all s(7,8) now_done handle_event_ok[OF assms(2,3,1)] by auto
qed

lemma handle_event_outcome_witness:
  "\<exists>ev' w'. handle_event (\<lambda>e. ''tb'') sample_dispatcher sample_round (sample_event 1 5) 0 = (Inr ev', w') \<and>
     event_ok ev' \<and> (ev_status ev' = PROCESSED \<longleftrightarrow> {''good'', ''bad''} \<subseteq> completed_of (handler_state ev'))"
proof -
  have et: "event_type (sample_event 1 5) = ''evt''" by (simp add: sample_event_def)
  obtain ev' w' where h: "handle_event (\<lambda>e. ''tb'') sample_dispatcher sample_round (sample_event 1 5) 0 = (Inr ev', w')"
    using handle_event_returns[OF sample_dispatcher_ok(1), of "sample_event 1 5"] sample_event_ok(3) by fastforce
  have "set (map fst (handlers_for sample_dispatcher (event_type (sample_event 1 5)))) = {''good'', ''bad''}"
    unfolding et sample_dispatcher_handlers by simp
  then show ?thesis
    using handle_event_outcome[OF h sample_event_ok(1,2) sample_dispatcher_ok(2)] h by auto
qed

subsection \<open>The schedule of retries\<close>

lemma settle_event_schedule:
  assumes "settle_event now jitter results ev = Inr ev'" and "ev_status ev' = PENDING"
  shows "scheduled_at ev' =
    now + min (seconds (2 ^ nat (retry_count ev')) + jitter) (seconds (MAX_BACKOFF_HOURS * 3600))"
  using assms by (auto simp: settle_event_def Let_def backoff_def split: if_splits)

text \<open>C24. The delay before a retry. An attempt that fails and leaves the event pending schedules the next
  one exponentially later: at least 2 to the power of the new retry count seconds after the attempt,
  at most five seconds of jitter more, and never more than an hour.\<close>

theorem retry_backoff_bounds:
  assumes "handle_event tb d rd ev w = (Inr ev', w')" and "ev_status ev' = PENDING"
    and "0 \<le> rd_jitter rd" and "rd_jitter rd \<le> seconds 5"
  shows "rd_end rd + seconds (min (2 ^ nat (retry_count ev')) 3600) \<le> scheduled_at ev' \<and>
    scheduled_at ev' \<le> rd_end rd + seconds (min (2 ^ nat (retry_count ev') + 5) 3600)"
proof -
  obtain results where "settle_event (rd_end rd) (rd_jitter rd) results
      (ev\<lparr>handler_state := record_results (isoformat (rd_iso rd)) results (handler_state ev)\<rparr>) = Inr ev'"
    using handle_event_Inr[OF assms(1)] by blast
  from settle_event_schedule[OF this assms(2)] show ?thesis
    using assms(3,4) by (auto simp: min_def MAX_BACKOFF_HOURS_def)
qed

lemma retry_backoff_bounds_witness:
  "\<exists>ev' w'. handle_event (\<lambda>e. ''tb'') sample_dispatcher sample_round (sample_event 1 5) 0 = (Inr ev', w') \<and>
     12 + seconds (min (2 ^ nat (retry_count ev')) 3600) \<le> scheduled_at ev'"
proof -
  obtain ev' w' where h: "handle_event (\<lambda>e. ''tb'') sample_dispatcher sample_round (sample_event 1 5) 0 = (Inr ev', w')"
    using handle_event_returns[OF sample_dispatcher_ok(1), of "sample_event 1 5"] sample_event_ok(3) by fastforce
  have et: "event_type (sample_event 1 5) = ''evt''" "handler_state (sample_event 1 5) = []"
    "ev_payload (sample_event 1 5) = []" "retry_count (sample_event 1 5) = 0"
    "max_retries (sample_event 1 5) = 2"
    by (simp_all add: sample_event_def)
  have "ev_status ev' = PENDING"
    using h sample_event_ok(2)[of 1 5] et
    by (auto simp: handle_event_def dispatch_run sample_dispatcher_handlers completed_of_def
        is_Exception_def settle_event_def all_succeeded_def Let_def backoff_def)
  then show ?thesis
    using retry_backoff_bounds[OF h] h by (simp add: sample_round_def)
qed

subsection \<open>A batch\<close>

lemma next_event_first: "next_event rd events = first_row (select_order_by scheduled_at (ready rd) events)"
  by (simp add: next_event_def first_row_def split: list.split)

lemma next_event_Some:
  assumes "next_event rd events = Some ev"
  shows "ev \<in> set events" "ready rd ev" "ev' \<in> set events \<Longrightarrow> ready rd ev' \<Longrightarrow> scheduled_at ev \<le> scheduled_at ev'"
  using first_row_select_least[of scheduled_at "ready rd" events ev] assms
  by (simp_all add: next_event_first)

lemma next_event_None: "next_event rd events = None \<longleftrightarrow> filter (ready rd) events = []"
  unfolding next_event_first first_row_None_iff select_order_by_def
  by (metis set_empty set_sort)

lemma ids_store: "map ev_id (store_event ev events) = map ev_id events"
  by (simp add: store_event_def update_where_def)

lemma lookup_store:
  "lookup ev_id i (store_event ev events) =
     (if i = ev_id ev then map_option (\<lambda>_. ev) (lookup ev_id i events) else lookup ev_id i events)"
  by (induction events) (auto simp: store_event_def update_where_def)

lemma events_ok_store: "events_ok events \<Longrightarrow> event_ok ev \<Longrightarrow> events_ok (store_event ev events)"
  unfolding events_ok_def ids_store by (auto simp: store_event_def set_update_where)

text \<open>The rows a worker may not touch: the ones that are not pending, and the static columns of all.\<close>

definition rows_respected :: "event list \<Rightarrow> event list \<Rightarrow> bool" where
  "rows_respected events events' \<longleftrightarrow> map ev_id events' = map ev_id events \<and>
     (\<forall>i ev. lookup ev_id i events = Some ev \<longrightarrow>
        (\<exists>ev'. lookup ev_id i events' = Some ev' \<and> (ev_status ev \<noteq> PENDING \<longrightarrow> ev' = ev) \<and>
           event_type ev' = event_type ev \<and> ev_payload ev' = ev_payload ev \<and>
           max_retries ev' = max_retries ev \<and> retry_count ev \<le> retry_count ev'))"

lemma rows_respected_refl: "rows_respected events events"
  by (simp add: rows_respected_def)

lemma rows_respected_trans:
  assumes "rows_respected e1 e2" and "rows_respected e2 e3"
  shows "rows_respected e1 e3"
  unfolding rows_respected_def
proof (intro conjI allI impI)
  show "map ev_id e3 = map ev_id e1" using assms by (simp add: rows_respected_def)
  fix i ev assume 1: "lookup ev_id i e1 = Some ev"
  then obtain ev2 where 2: "lookup ev_id i e2 = Some ev2" "ev_status ev \<noteq> PENDING \<longrightarrow> ev2 = ev"
    "event_type ev2 = event_type ev" "ev_payload ev2 = ev_payload ev" "max_retries ev2 = max_retries ev"
    "retry_count ev \<le> retry_count ev2"
    using assms(1) unfolding rows_respected_def by blast
  then obtain ev3 where 3: "lookup ev_id i e3 = Some ev3" "ev_status ev2 \<noteq> PENDING \<longrightarrow> ev3 = ev2"
    "event_type ev3 = event_type ev2" "ev_payload ev3 = ev_payload ev2" "max_retries ev3 = max_retries ev2"
    "retry_count ev2 \<le> retry_count ev3"
    using assms(2) unfolding rows_respected_def by blast
  show "\<exists>ev'. lookup ev_id i e3 = Some ev' \<and> (ev_status ev \<noteq> PENDING \<longrightarrow> ev' = ev) \<and>
           event_type ev' = event_type ev \<and> ev_payload ev' = ev_payload ev \<and>
           max_retries ev' = max_retries ev \<and> retry_count ev \<le> retry_count ev'"
    using 2 3 by (intro exI[of _ ev3]) auto
qed

lemma handle_event_static:
  assumes "handle_event tb d rd ev w = (Inr ev', w')"
  shows "ev_id ev' = ev_id ev" "event_type ev' = event_type ev" "ev_payload ev' = ev_payload ev"
    "max_retries ev' = max_retries ev" "retry_count ev \<le> retry_count ev'"
proof -
  obtain results where "settle_event (rd_end rd) (rd_jitter rd) results
      (ev\<lparr>handler_state := record_results (isoformat (rd_iso rd)) results (handler_state ev)\<rparr>) = Inr ev'"
    using handle_event_Inr[OF assms] by blast
  note s = settle_event_Inr[OF this]
  show "ev_id ev' = ev_id ev" "event_type ev' = event_type ev" "ev_payload ev' = ev_payload ev"
    "max_retries ev' = max_retries ev" "retry_count ev \<le> retry_count ev'"
    using s by simp_all
qed

text \<open>An attempt of an event with one handler that has not succeeded before: the handler is run once.\<close>

lemma handle_event_one:
  assumes "handlers_for d (event_type ev) = [(name, h)]" and "name \<notin> completed_of (handler_state ev)"
    and "distinct (map fst (handler_state ev))" and "handle_event tb d rd ev w = (r, w')"
  shows "w' = snd (h (ev_payload ev) w)"
    "r = Inr ev' \<Longrightarrow> (ev_status ev' = PROCESSED \<longleftrightarrow> fst (h (ev_payload ev) w) = None) \<or> ev_status ev = PROCESSED"
    "r = Inr ev' \<Longrightarrow> name \<in> completed_of (handler_state ev') \<Longrightarrow> fst (h (ev_payload ev) w) = None"
proof -
  obtain x w1 where h: "h (ev_payload ev) w = (x, w1)" by fastforce
  show "w' = snd (h (ev_payload ev) w)"
    using assms(1,2,4) h
    by (auto simp: handle_event_def dispatch_run split: prod.splits option.splits if_splits sum.splits)
  assume r: "r = Inr ev'"
  obtain results where run: "run_handlers tb (completed_of (handler_state ev)) (ev_payload ev) [(name, h)] w = (Inr results, w')"
    and settle: "settle_event (rd_end rd) (rd_jitter rd) results
      (ev\<lparr>handler_state := record_results (isoformat (rd_iso rd)) results (handler_state ev)\<rparr>) = Inr ev'"
    using handle_event_Inr[of tb d rd ev w ev' w'] assms(1,4) r by auto
  have "\<exists>q. results = [q] \<and> (success q \<longleftrightarrow> x = None)"
  proof (cases x)
    case None
    then have "results = [\<lparr>handler_name = name, success = True, res_error = None, skipped = False\<rparr>]"
      using run assms(2) h by simp
    then show ?thesis using None by simp
  next
    case (Some e)
    then have "results = [\<lparr>handler_name = name, success = False, res_error = Some (tb e), skipped = False\<rparr>]"
      using run assms(2) h by (cases "is_Exception e") simp_all
    then show ?thesis using Some by simp
  qed
  then obtain q where "results = [q]" and q: "success q \<longleftrightarrow> x = None" by blast
  then have res: "all_succeeded results \<longleftrightarrow> x = None" "\<exists>q \<in> set results. handler_name q = name \<and> success q \<Longrightarrow> x = None"
    by (auto simp: all_succeeded_def)
  show "(ev_status ev' = PROCESSED \<longleftrightarrow> fst (h (ev_payload ev) w) = None) \<or> ev_status ev = PROCESSED"
    using settle_event_Inr(6)[OF settle] res(1) h by (auto split: if_splits)
  have recorded: "completed_of (handler_state ev') =
      completed_of (handler_state ev) \<union> {handler_name q |q. q \<in> set results \<and> success q}"
    using completed_of_handled[OF run _ assms(3)] settle_event_Inr(3)[OF settle] by simp
  show "fst (h (ev_payload ev) w) = None" if "name \<in> completed_of (handler_state ev')"
    using that res(2) assms(2) h unfolding recorded by auto
qed

lemma rows_respected_store:
  assumes "events_ok events" and "ev \<in> set events" and "ev_status ev = PENDING"
    and "handle_event tb d rd ev w = (Inr ev', w')"
  shows "rows_respected events (store_event ev' events)"
proof -
  note st = handle_event_static[OF assms(4)]
  have row: "lookup ev_id (ev_id ev) events = Some ev"
    using assms(1,2) by (intro lookup_unique) (simp_all add: events_ok_def)
  show ?thesis
    unfolding rows_respected_def ids_store lookup_store
    using st row assms(3) by auto
qed

lemma process_events_rows:
  assumes "events_ok events" and "process_events tb d env k n (events, w) = (r, events', w')"
  shows "events_ok events' \<and> rows_respected events events'"
  using assms
proof (induction n arbitrary: k events w)
  case 0
  then show ?case by (simp add: rows_respected_refl)
next
  case (Suc n)
  show ?case
  proof (cases "next_event (env k) events")
    case None
    then show ?thesis using Suc.prems by (simp add: rows_respected_refl)
  next
    case (Some ev)
    note ev = next_event_Some(1,2)[OF Some]
    have pend: "ev_status ev = PENDING" using ev(2) by (simp add: ready_def)
    have ok: "event_ok ev" using Suc.prems(1) ev(1) by (simp add: events_ok_def)
    obtain q w1 where h: "handle_event tb d (env k) ev w = (q, w1)" by fastforce
    show ?thesis
    proof (cases q)
      case (Inl e)
      then show ?thesis using Suc.prems Some h by (simp add: rows_respected_refl)
    next
      case (Inr ev1)
      then have h: "handle_event tb d (env k) ev w = (Inr ev1, w1)" using h by simp
      have "process_events tb d env (Suc k) n (store_event ev1 events, w1) = (r, events', w')"
        using Suc.prems(2) Some h by simp
      moreover have "events_ok (store_event ev1 events)"
        by (rule events_ok_store[OF Suc.prems(1) handle_event_ok(1)[OF ok pend h]])
      ultimately show ?thesis
        using Suc.IH rows_respected_store[OF Suc.prems(1) ev(1) pend h] rows_respected_trans by blast
    qed
  qed
qed

definition sample_events :: "event list" where
  "sample_events = [sample_event 1 5, (sample_event 2 4)\<lparr>event_type := ''other''\<rparr>]"

lemma sample_events_ok: "events_ok sample_events"
  by (simp add: events_ok_def sample_events_def sample_event_def event_ok_def attempts_allowed_def)

subsection \<open>A batch drains what is due\<close>

definition always_succeeds :: "'w event_dispatcher \<Rightarrow> bool" where
  "always_succeeds d \<longleftrightarrow>
     (\<forall>et name h payload w. (name, h) \<in> set (handlers_for d et) \<longrightarrow> fst (h payload w) = None)"

lemma outcomes_None:
  assumes "\<forall>(name, h) \<in> set hs. \<forall>w. fst (h payload w) = None"
  shows "outcomes completed payload hs w = replicate (length hs) None"
  using assms by (induction hs arbitrary: w) (auto split: if_splits)

lemma handle_event_succeeds:
  assumes "always_succeeds d"
  shows "\<exists>ev' w'. handle_event tb d rd ev w = (Inr ev', w') \<and> ev_status ev' = PROCESSED"
proof -
  let ?c = "completed_of (handler_state ev)" and ?hs = "handlers_for d (event_type ev)"
  have out: "outcomes ?c (ev_payload ev) ?hs w = replicate (length ?hs) None"
    using assms by (intro outcomes_None) (auto simp: always_succeeds_def)
  have "Some CancelledError \<notin> set (outcomes ?c (ev_payload ev) ?hs w)" by (simp add: out)
  from run_handlers_spec[OF this, of tb] show ?thesis
    by (auto simp: handle_event_def dispatch_run settle_event_def all_succeeded_def out list_all_iff
        result_of_def dest!: set_zip_rightD)
qed

definition pending_count :: "event list \<Rightarrow> nat" where
  "pending_count events = length (filter (\<lambda>ev. ev_status ev = PENDING) events)"

lemma pending_count_store:
  assumes "distinct (map ev_id events)" and "ev \<in> set events" and "ev_status ev = PENDING"
    and "ev_id ev' = ev_id ev" and "ev_status ev' \<noteq> PENDING"
  shows "pending_count events = Suc (pending_count (store_event ev' events))"
  using assms(1,2)
proof (induction events)
  case (Cons x xs)
  have other: "store_event ev' xs = xs" if "ev_id ev \<notin> ev_id ` set xs"
    unfolding store_event_def by (rule update_where_id) (metis that assms(4) imageI)
  show ?case
  proof (cases "x = ev")
    case True
    then have "store_event ev' (x # xs) = ev' # xs"
      using Cons.prems(1) other assms(4) by (simp add: store_event_def update_where_def)
    then show ?thesis using True assms(3,5) by (simp add: pending_count_def)
  next
    case False
    then have "ev \<in> set xs" "ev_id x \<noteq> ev_id ev" using Cons.prems by auto
    moreover from this have "store_event ev' (x # xs) = x # store_event ev' xs"
      using assms(4) by (simp add: store_event_def update_where_def)
    ultimately show ?thesis using Cons by (simp add: pending_count_def)
  qed
qed simp

lemma filter_store:
  "\<not> p ev \<Longrightarrow> (\<And>x. x \<in> set events \<Longrightarrow> ev_id x = ev_id ev \<Longrightarrow> \<not> p x) \<Longrightarrow>
   filter p (store_event ev events) = filter p events"
  by (induction events) (simp_all add: store_event_def update_where_def)

text \<open>A round with handlers that succeed takes one event out of the pending ones and gives up none.\<close>

definition progress :: "event list \<Rightarrow> event list \<Rightarrow> bool" where
  "progress events events' \<longleftrightarrow> events_ok events' \<and> pending_count events' \<le> pending_count events \<and>
     filter (\<lambda>ev. ev_status ev = FAILED) events' = filter (\<lambda>ev. ev_status ev = FAILED) events"

lemma progress_trans: "progress e1 e2 \<Longrightarrow> progress e2 e3 \<Longrightarrow> progress e1 e3"
  by (simp add: progress_def)

lemma round_succeeds:
  assumes "always_succeeds d" and ok: "events_ok events" and "next_event rd events = Some ev"
  obtains ev1 w1 where "handle_event tb d rd ev w = (Inr ev1, w1)" "progress events (store_event ev1 events)"
    "pending_count events = Suc (pending_count (store_event ev1 events))"
proof -
  note ev = next_event_Some(1,2)[OF assms(3)]
  have pend: "ev_status ev = PENDING" using ev(2) by (simp add: ready_def)
  have evok: "event_ok ev" and d: "distinct (map ev_id events)"
    using ok ev(1) by (simp_all add: events_ok_def)
  obtain ev1 w1 where h: "handle_event tb d rd ev w = (Inr ev1, w1)" "ev_status ev1 = PROCESSED"
    using handle_event_succeeds[OF assms(1)] by blast
  note h1 = handle_event_ok[OF evok pend h(1)]
  have count: "pending_count events = Suc (pending_count (store_event ev1 events))"
    using pending_count_store[OF d ev(1) pend h1(2)] h(2) by simp
  have "x = ev" if "x \<in> set events" "ev_id x = ev_id ev1" for x
    by (rule unique_column[OF d that(1) ev(1)]) (simp only: that(2) h1(2))
  then have "filter (\<lambda>ev. ev_status ev = FAILED) (store_event ev1 events) =
      filter (\<lambda>ev. ev_status ev = FAILED) events"
    using pend h(2) by (intro filter_store) auto
  then show ?thesis
    using that[OF h(1)] count events_ok_store[OF ok h1(1)] by (simp add: progress_def)
qed

lemma process_events_drain:
  assumes "always_succeeds d" and "events_ok events"
  shows "\<exists>events' w'. process_events tb d env k n (events, w) = (Inr (), events', w') \<and> progress events events' \<and>
    (pending_count events \<le> n \<longrightarrow> (\<forall>k. rd_locked (env k) = [] \<and> t \<le> rd_now (env k)) \<longrightarrow>
      filter (\<lambda>ev. ev_status ev = PENDING \<and> scheduled_at ev \<le> t) events' = [])"
  using assms(2)
proof (induction n arbitrary: k events w)
  case 0
  then show ?case by (auto simp: progress_def pending_count_def filter_empty_conv)
next
  case (Suc n)
  show ?case
  proof (cases "next_event (env k) events")
    case None
    then have "filter (ready (env k)) events = []" by (simp add: next_event_None)
    then have "filter (\<lambda>ev. ev_status ev = PENDING \<and> scheduled_at ev \<le> t) events = []"
      if "\<forall>k. rd_locked (env k) = [] \<and> t \<le> rd_now (env k)"
      using that[rule_format, of k] by (auto simp: filter_empty_conv ready_def)
    then show ?thesis using None Suc.prems by (simp add: progress_def)
  next
    case (Some ev)
    obtain ev1 w1 where h: "handle_event tb d (env k) ev w = (Inr ev1, w1)" "progress events (store_event ev1 events)"
      "pending_count events = Suc (pending_count (store_event ev1 events))"
      using round_succeeds[OF assms(1) Suc.prems Some] by blast
    then have "events_ok (store_event ev1 events)" by (simp add: progress_def)
    from Suc.IH[OF this, of "Suc k" w1] show ?thesis
      using Some h progress_trans[OF h(2)] by auto
  qed
qed

definition good_dispatcher :: "nat event_dispatcher" where
  "good_dispatcher = [(''evt'', [(''good'', \<lambda>p n. (None, n + 10))])]"

lemma good_dispatcher_succeeds: "always_succeeds good_dispatcher"
  by (simp add: always_succeeds_def handlers_for_def good_dispatcher_def)

subsection \<open>Publishing\<close>

lemma publish_Inr:
  assumes "publish cfg gen now etype payload agg corr events = Inr (ev, events', chan, msg)"
  shows "events' = events @ [ev]" "ev_id ev = gen (map ev_id events)" "ev_id ev \<notin> ev_id ` set events"
    "chan = CHANNEL" "msg = uuid_str (ev_id ev)" "event_type ev = etype" "ev_payload ev = payload"
    "ev_status ev = PENDING" "retry_count ev = 0" "aggregate_id ev = agg" "event_ok ev"
    "scheduled_at ev = now" "handler_state ev = []" "max_retries ev = OUTBOX_MAX_RETRIES cfg"
  using assms
  by (auto simp: publish_def Let_def event_ok_def attempts_allowed_def split: if_splits)

lemma events_ok_publish:
  assumes "events_ok events" and "publish cfg gen now etype payload agg corr events = Inr (ev, events', chan, msg)"
  shows "events_ok events'"
  using assms(1) publish_Inr[OF assms(2)] by (simp add: events_ok_def)

text \<open>Publishing adds exactly one pending event to the table, due at once, with the given type and
  payload and no attempt made; every row that was there is unchanged, the invariant holds again, and
  the notification carries an id from which the row can be found.\<close>

theorem publish_adds_event:
  assumes "events_ok events" and "publish cfg gen now etype payload agg corr events = Inr (ev, events', chan, msg)"
    and "gen (map ev_id events) < 2 ^ 128"
  shows "events_ok events' \<and> length events' = Suc (length events) \<and>
    (\<forall>i. lookup ev_id i events' = (if i = ev_id ev then Some ev else lookup ev_id i events)) \<and>
    ready \<lparr>rd_now = now, rd_locked = [], rd_iso = now, rd_end = now, rd_jitter = 0\<rparr> ev \<and>
    event_type ev = etype \<and> ev_payload ev = payload \<and> retry_count ev = 0 \<and>
    rbind (uuid_parse msg) (\<lambda>i. Inr (lookup ev_id i events')) = Inr (Some ev)"
proof -
  note p = publish_Inr[OF assms(2)]
  have l: "lookup ev_id i events' = (if i = ev_id ev then Some ev else lookup ev_id i events)" for i
    using p(3) lookup_None_iff[of ev_id "ev_id ev" events]
    by (auto simp: p(1) lookup_append split: option.split)
  have "uuid_parse msg = Inr (ev_id ev)" using uuid_parse_str[OF assms(3)] p(2,5) by simp
  then show ?thesis
    using p l events_ok_publish[OF assms(1,2)] by (simp add: ready_def)
qed

subsection \<open>The connection loop\<close>

lemma reconnect_delay_bounds: "0 < n \<Longrightarrow> 2 \<le> reconnect_delay n \<and> reconnect_delay n \<le> 60"
  using power_increasing[of 1 n "2::int"] by (simp add: reconnect_delay_def MAX_RECONNECT_DELAY_def)

definition delays_ok :: "loop_state \<Rightarrow> bool" where
  "delays_ok ls \<longleftrightarrow> list_all (\<lambda>d. 2 \<le> d \<and> d \<le> 60) (slept ls)"

lemma close_connection_ok:
  assumes "delays_ok ls"
  shows "case close_connection c ls of Inl x \<Rightarrow> Some x = c | Inr ls' \<Rightarrow> delays_ok ls'"
  using assms by (simp add: close_connection_def delays_ok_def split: option.splits)

lemma loop_failure_ok:
  assumes "delays_ok ls"
  shows "case loop_failure e c ls of Inl x \<Rightarrow> x = CancelledError \<or> Some x = c | Inr ls' \<Rightarrow> delays_ok ls'"
proof (cases "is_Exception e")
  case True
  have "delays_ok (ls\<lparr>attempt := Suc (attempt ls), slept := slept ls @ [reconnect_delay (Suc (attempt ls))]\<rparr>)"
    using assms reconnect_delay_bounds[of "Suc (attempt ls)"] by (simp add: delays_ok_def)
  from close_connection_ok[OF this, of c] show ?thesis
    using True by (simp add: loop_failure_def split: sum.splits)
next
  case False
  then have "e = CancelledError" by (simp add: is_Exception_def)
  then show ?thesis
    using False by (cases c) (simp_all add: loop_failure_def close_connection_def)
qed

text \<open>One turn keeps the table sound; it ends the loop on a shutdown, a cancellation or a failing close.\<close>

lemma loop_turn_sound:
  assumes "events_ok events" and "delays_ok ls" and "loop_turn tb d e ls (events, w) = (r, events', w')"
  shows "events_ok events' \<and> rows_respected events events' \<and>
    (case r of Inl x \<Rightarrow> x = CancelledError \<or> Some x = leaving e | Inr (_, ls') \<Rightarrow> delays_ok ls')"
proof -
  note refl = rows_respected_refl[of events]
  let ?ok = "\<lambda>c r. case r of Inl x \<Rightarrow> x = CancelledError \<or> Some x = c | Inr (_, ls') \<Rightarrow> delays_ok ls'"
  have failed: "?ok c (rbind (loop_failure x c ls) (\<lambda>ls'. Inr (False, ls')))" for x c
    using loop_failure_ok[OF assms(2), of c x] by (cases "loop_failure x c ls") simp_all
  have closed: "?ok c (rbind (close_connection c ls) (\<lambda>ls'. Inr (stop, ls')))" for stop c
    using close_connection_ok[OF assms(2), of c] by (cases "close_connection c ls") simp_all
  show ?thesis
  proof (cases e)
    case (Connect q l c)
    show ?thesis
    proof (cases "connected ls \<or> q = None \<and> l = None")
      case True
      then show ?thesis using assms refl Connect by (auto simp: delays_ok_def split: if_splits)
    next
      case False
      then obtain x where "events' = events" "r = rbind (loop_failure x c ls) (\<lambda>ls'. Inr (False, ls'))"
        using assms(3) Connect by (cases q; cases l) auto
      then show ?thesis using assms(1) refl failed[of c x] unfolding Connect leaving.simps by simp
    qed
  next
    case (Shutdown c)
    then show ?thesis
      using assms refl closed[of c True] unfolding Shutdown leaving.simps by (cases "connected ls") auto
  next
    case (Heartbeat q env c)
    show ?thesis
    proof (cases "connected ls \<and> q = None")
      case True
      obtain b events1 w1 where b: "process_batch tb d env (events, w) = (b, events1, w1)"
        by (metis prod_cases3)
      then have "events' = events1"
        "r = (case b of Inr _ \<Rightarrow> Inr (False, ls) | Inl x \<Rightarrow> rbind (loop_failure x c ls) (\<lambda>ls'. Inr (False, ls')))"
        using assms(3) True Heartbeat by (auto split: sum.splits)
      moreover have "events_ok events1" "rows_respected events events1"
        using process_events_rows[OF assms(1) b[unfolded process_batch_def]] by blast+
      ultimately show ?thesis
        using assms(2) failed[of c] unfolding Heartbeat leaving.simps by (cases b) simp_all
    next
      case False
      then have "events' = events"
        "r = Inr (False, ls) \<or> r = rbind (close_connection c ls) (\<lambda>ls'. Inr (False, ls')) \<or>
          (\<exists>x. r = rbind (loop_failure x c ls) (\<lambda>ls'. Inr (False, ls')))"
        using assms(3) Heartbeat by (auto split: if_splits)
      then show ?thesis
        using assms(1,2) refl failed[of c] closed[of c False] unfolding Heartbeat leaving.simps by auto
    qed
  qed
qed


definition sample_turns :: "loop_env list" where
  "sample_turns = [Connect (Some (LibraryError ''down'')) None None, Connect None None None,
     Heartbeat None (\<lambda>_. sample_round) None, Shutdown None]"

definition sample_loop :: loop_state where
  "sample_loop = \<lparr>attempt = 0, connected = False, slept = []\<rparr>"


text \<open>A turn that neither shuts the loop down nor cancels it, with a closing that succeeds.\<close>

fun benign :: "loop_env \<Rightarrow> bool" where
  "benign (Connect r l c) \<longleftrightarrow> r \<noteq> Some CancelledError \<and> l \<noteq> Some CancelledError \<and> c = None"
| "benign (Shutdown c) \<longleftrightarrow> False"
| "benign (Heartbeat r env c) \<longleftrightarrow> r \<noteq> Some CancelledError \<and> c = None"

lemma loop_failure_benign: "e \<noteq> CancelledError \<Longrightarrow> \<exists>ls'. loop_failure e None ls = Inr ls'"
  by (simp add: loop_failure_def close_connection_def is_Exception_def)

lemma benign_turn:
  assumes "always_succeeds d" and "events_ok events" and "benign e"
  shows "\<exists>ls' events' w'. loop_turn tb d e ls (events, w) = (Inr (False, ls'), events', w') \<and> progress events events'"
proof (cases e)
  case (Connect r l c)
  show ?thesis
  proof (cases "connected ls \<or> r = None \<and> l = None")
    case True
    then show ?thesis using assms(2) Connect by (auto simp: progress_def)
  next
    case False
    then obtain x where "x \<noteq> CancelledError"
      "loop_turn tb d e ls (events, w) = (rbind (loop_failure x None ls) (\<lambda>ls'. Inr (False, ls')), events, w)"
      using Connect assms(3) by (cases r; cases l) auto
    then show ?thesis using loop_failure_benign[of x ls] assms(2) by (auto simp: progress_def)
  qed
next
  case (Heartbeat r env c)
  obtain events' w' where "process_batch tb d env (events, w) = (Inr (), events', w')" "progress events events'"
    using process_events_drain[OF assms(1,2)] unfolding process_batch_def by blast
  moreover have "progress events events" using assms(2) by (simp add: progress_def)
  ultimately show ?thesis
    using Heartbeat assms(3) by (cases r) (auto simp: is_Exception_def close_connection_def)
qed (use assms(3) in simp)

lemma benign_run:
  assumes "always_succeeds d" and "events_ok events" and "\<forall>e \<in> set es. benign e"
  shows "\<exists>ls' events' w'. progress events events' \<and>
    (\<forall>es'. outbox_run tb d (es @ es') ls (events, w) = outbox_run tb d es' ls' (events', w'))"
  using assms(2,3)
proof (induction es arbitrary: ls events w)
  case Nil
  then show ?case by (auto simp: progress_def)
next
  case (Cons e es)
  obtain ls1 events1 w1 where 1: "loop_turn tb d e ls (events, w) = (Inr (False, ls1), events1, w1)"
    "progress events events1"
    using benign_turn[OF assms(1) Cons.prems(1), of e] Cons.prems(2) by fastforce
  then have "events_ok events1" by (simp add: progress_def)
  from Cons.IH[OF this, of ls1 w1] Cons.prems(2) obtain ls' events' w' where
    "progress events1 events'"
    "\<forall>es'. outbox_run tb d (es @ es') ls1 (events1, w1) = outbox_run tb d es' ls' (events', w')"
    by auto
  then show ?case using 1 progress_trans[OF 1(2)] by auto
qed



text \<open>C39. The raw connection of the worker. It reaches the database of the SQLAlchemy engine when the
  engine's URL is derived from the parts; an explicitly set \<open>DATABASE_URL\<close>, which the settings accept
  and the engine uses, does not reach it.\<close>

theorem asyncpg_dsn_database:
  assumes "load_settings raw = Inr cfg"
  shows "(DATABASE_URL raw = [] \<longrightarrow>
      (\<exists>rest. DATABASE_URL cfg = ''postgresql+asyncpg'' @ rest \<and> build_asyncpg_dsn cfg = ''postgresql'' @ rest)) \<and>
    (\<forall>url. url \<noteq> [] \<longrightarrow> (\<exists>cfg'. load_settings (raw\<lparr>DATABASE_URL := url\<rparr>) = Inr cfg' \<and>
      DATABASE_URL cfg' = url \<and> build_asyncpg_dsn cfg' = build_asyncpg_dsn cfg))"
  using assms
  by (auto simp: load_settings_def validate_lease_invariant_def build_database_url_def
      build_asyncpg_dsn_def url_from_parts_def split: if_splits)

lemma asyncpg_dsn_database_witness:
  "\<exists>cfg cfg'. load_settings default_settings = Inr cfg \<and>
     load_settings (default_settings\<lparr>DATABASE_URL := ''postgresql+asyncpg://db/x''\<rparr>) = Inr cfg' \<and>
     build_asyncpg_dsn cfg' = build_asyncpg_dsn cfg"
proof -
  obtain cfg where cfg: "load_settings default_settings = Inr cfg"
    by (auto simp: load_settings_def validate_lease_invariant_def build_database_url_def default_settings_def)
  then show ?thesis using asyncpg_dsn_database[OF cfg] by (metis list.distinct(1))
qed

text \<open>Handlers are told apart by their \<open>__name__\<close> only. With two handlers of one name on an event
  type, of which the first always fails and the second succeeds, the first attempt records the name
  as done, the second attempt skips both, and the event becomes PROCESSED although the first handler
  has never succeeded.\<close>

theorem same_name_loses_failure:
  "\<exists>d (tb :: exc \<Rightarrow> string) rd ev ev1 ev2.
     handlers_for d (event_type ev) = [(''h'', \<lambda>p n. (Some (ValueError ''no''), n)), (''h'', \<lambda>p n. (None, Suc n))] \<and>
     event_ok ev \<and> handle_event tb d rd ev (0::nat) = (Inr ev1, 1) \<and> ev_status ev1 = PENDING \<and>
     handle_event tb d rd ev1 1 = (Inr ev2, 1) \<and> ev_status ev2 = PROCESSED"
proof -
  let ?hs = "[(''h'', \<lambda>p n. (Some (ValueError ''no''), n)), (''h'', \<lambda>p n. (None, Suc n))] :: nat named_handler list"
  let ?d = "[(''evt'', ?hs)]" and ?ev = "sample_event 1 5" and ?tb = "\<lambda>e :: exc. ''tb''"
  obtain ev1 where h1: "handle_event ?tb ?d sample_round ?ev 0 = (Inr ev1, 1)"
    and s1: "ev_status ev1 = PENDING" "event_type ev1 = ''evt''"
      "completed_of (handler_state ev1) = {''h''}"
    by (simp add: handle_event_def dispatch_def handlers_for_def sample_event_def completed_of_def
        is_Exception_def settle_event_def all_succeeded_def backoff_def sample_round_def result_entry_def)
  obtain ev2 where h2: "handle_event ?tb ?d sample_round ev1 1 = (Inr ev2, 1)" "ev_status ev2 = PROCESSED"
    by (simp add: handle_event_def dispatch_def handlers_for_def s1 settle_event_def all_succeeded_def)
  show ?thesis
    apply (rule exI[of _ ?d], rule exI[of _ ?tb], rule exI[of _ sample_round], rule exI[of _ ?ev],
        rule exI[of _ ev1], rule exI[of _ ev2])
    using h1 h2 s1 sample_event_ok(1)[of 1 5]
    by (simp add: handlers_for_def sample_event_def)
qed

end
