(* ===== verification/OutboxSystem.thy ===== *)
theory OutboxSystem
  imports Outbox
begin

text \<open>
  Several \<open>OutboxWorker\<close>s (replicas, or two versions during a deployment) on one \<open>outbox_events\<close>
  table: \<open>_process_batch\<close> of \<open>app/core/events/worker.py\<close> cut at the points where other workers
  can act, as a transition system. A worker selects the first ready row that is not locked
  (\<open>FOR UPDATE SKIP LOCKED\<close>) and holds its lock until its transaction ends; the handlers run while
  the lock is held and commit their own work; then the transaction commits, or it is lost (crash,
  cancellation, exception) and the lock with it. Publishers insert rows at any time.
\<close>

datatype hold = Locked event | Handled event event

fun held_event :: "hold \<Rightarrow> event" where
  "held_event (Locked ev) = ev"
| "held_event (Handled ev ev') = ev"

text \<open>The table, what each worker holds, the handlers' world, and the ids processed so far, in order.\<close>

record 'w outbox_sys =
  os_events :: "event list"
  os_holds :: "string \<Rightarrow> hold option"
  os_world :: 'w
  os_processed :: "uuid list"

definition locked_ids :: "'w outbox_sys \<Rightarrow> uuid set" where
  "locked_ids s = {ev_id (held_event h) |wid h. os_holds s wid = Some h}"

inductive outbox_step ::
  "(exc \<Rightarrow> string) \<Rightarrow> 'w event_dispatcher \<Rightarrow> 'w outbox_sys \<Rightarrow> 'w outbox_sys \<Rightarrow> bool"
  for tb d where
  insert_row: "publish cfg gen now etype payload agg corr (os_events s) = Inr (ev, events', chan, msg) \<Longrightarrow>
    outbox_step tb d s (s\<lparr>os_events := events'\<rparr>)"
| select_row: "os_holds s wid = None \<Longrightarrow> set (rd_locked rd) = locked_ids s \<Longrightarrow>
    next_event rd (os_events s) = Some ev \<Longrightarrow>
    outbox_step tb d s (s\<lparr>os_holds := (os_holds s)(wid \<mapsto> Locked ev)\<rparr>)"
| handle_row: "os_holds s wid = Some (Locked ev) \<Longrightarrow>
    handle_event tb d rd ev (os_world s) = (Inr ev', w') \<Longrightarrow>
    outbox_step tb d s (s\<lparr>os_holds := (os_holds s)(wid \<mapsto> Handled ev ev'), os_world := w'\<rparr>)"
| handler_lost: "os_holds s wid = Some (Locked ev) \<Longrightarrow>
    handle_event tb d rd ev (os_world s) = (Inl e, w') \<Longrightarrow>
    outbox_step tb d s (s\<lparr>os_holds := (os_holds s)(wid := None), os_world := w'\<rparr>)"
| commit_row: "os_holds s wid = Some (Handled ev ev') \<Longrightarrow>
    outbox_step tb d s
      (s\<lparr>os_events := store_event ev' (os_events s), os_holds := (os_holds s)(wid := None),
        os_processed := os_processed s @ (if ev_status ev' = PROCESSED then [ev_id ev'] else [])\<rparr>)"
| transaction_lost: "outbox_step tb d s (s\<lparr>os_holds := (os_holds s)(wid := None)\<rparr>)"

inductive_cases outbox_stepE: "outbox_step tb d s t"

subsection \<open>The invariant\<close>

text \<open>A held row is in the table as the worker read it, and still pending.\<close>

fun hold_ok :: "event list \<Rightarrow> hold \<Rightarrow> bool" where
  "hold_ok events (Locked ev) \<longleftrightarrow>
     lookup ev_id (ev_id ev) events = Some ev \<and> ev_status ev = PENDING"
| "hold_ok events (Handled ev ev') \<longleftrightarrow>
     lookup ev_id (ev_id ev) events = Some ev \<and> ev_status ev = PENDING \<and> event_ok ev' \<and> ev_id ev' = ev_id ev"

definition outbox_inv :: "'w outbox_sys \<Rightarrow> bool" where
  "outbox_inv s \<longleftrightarrow> events_ok (os_events s) \<and>
     (\<forall>wid h. os_holds s wid = Some h \<longrightarrow> hold_ok (os_events s) h) \<and>
     (\<forall>wid wid' h h'. os_holds s wid = Some h \<longrightarrow> os_holds s wid' = Some h' \<longrightarrow>
        ev_id (held_event h) = ev_id (held_event h') \<longrightarrow> wid = wid') \<and>
     distinct (os_processed s) \<and>
     (\<forall>i. i \<in> set (os_processed s) \<longrightarrow> (\<exists>ev. lookup ev_id i (os_events s) = Some ev \<and> ev_status ev = PROCESSED))"

definition outbox_start :: "'w outbox_sys \<Rightarrow> bool" where
  "outbox_start s \<longleftrightarrow> events_ok (os_events s) \<and> os_holds s = (\<lambda>_. None) \<and> os_processed s = []"

lemma outbox_invD:
  assumes "outbox_inv s"
  shows "events_ok (os_events s)" "os_holds s wid = Some h \<Longrightarrow> hold_ok (os_events s) h"
    "os_holds s wid = Some h \<Longrightarrow> os_holds s wid' = Some h' \<Longrightarrow>
       ev_id (held_event h) = ev_id (held_event h') \<Longrightarrow> wid = wid'"
    "distinct (os_processed s)"
    "i \<in> set (os_processed s) \<Longrightarrow> \<exists>ev. lookup ev_id i (os_events s) = Some ev \<and> ev_status ev = PROCESSED"
  using assms unfolding outbox_inv_def by blast+

lemma outbox_invI:
  assumes "events_ok (os_events s)" and "\<And>wid h. os_holds s wid = Some h \<Longrightarrow> hold_ok (os_events s) h"
    and "\<And>wid wid' h h'. os_holds s wid = Some h \<Longrightarrow> os_holds s wid' = Some h' \<Longrightarrow>
       ev_id (held_event h) = ev_id (held_event h') \<Longrightarrow> wid = wid'"
    and "distinct (os_processed s)"
    and "\<And>i. i \<in> set (os_processed s) \<Longrightarrow> \<exists>ev. lookup ev_id i (os_events s) = Some ev \<and> ev_status ev = PROCESSED"
  shows "outbox_inv s"
  using assms unfolding outbox_inv_def by blast

lemma hold_ok_held:
  "hold_ok events h \<Longrightarrow> lookup ev_id (ev_id (held_event h)) events = Some (held_event h) \<and>
   ev_status (held_event h) = PENDING"
  by (cases h) auto

text \<open>A hold is untouched by a change of the table that keeps its row.\<close>

lemma hold_ok_cong:
  "hold_ok events h \<Longrightarrow>
   lookup ev_id (ev_id (held_event h)) events' = lookup ev_id (ev_id (held_event h)) events \<Longrightarrow>
   hold_ok events' h"
  by (cases h) auto

lemma outbox_inv_release:
  assumes "outbox_inv s"
  shows "outbox_inv (s\<lparr>os_holds := (os_holds s)(wid := None)\<rparr>)"
    "outbox_inv (s\<lparr>os_holds := (os_holds s)(wid := None), os_world := w\<rparr>)"
  using outbox_invD[OF assms]
  by (auto intro!: outbox_invI split: if_splits)

lemma outbox_inv_insert:
  assumes inv: "outbox_inv s"
    and p: "publish cfg gen now etype payload agg corr (os_events s) = Inr (ev, events', chan, msg)"
  shows "outbox_inv (s\<lparr>os_events := events'\<rparr>)"
proof (rule outbox_invI)
  note I = outbox_invD[OF inv]
  have keep: "lookup ev_id i events' = Some x" if "lookup ev_id i (os_events s) = Some x" for i x
    using that by (simp add: publish_Inr(1)[OF p] lookup_append)
  show "events_ok (os_events (s\<lparr>os_events := events'\<rparr>))"
    using events_ok_publish[OF I(1) p] by simp
  show "hold_ok (os_events (s\<lparr>os_events := events'\<rparr>)) h" if "os_holds (s\<lparr>os_events := events'\<rparr>) wid = Some h" for wid h
    using hold_ok_cong[OF I(2), of wid h events'] hold_ok_held[OF I(2)] keep that by auto
  show "wid = wid'" if "os_holds (s\<lparr>os_events := events'\<rparr>) wid = Some h"
    "os_holds (s\<lparr>os_events := events'\<rparr>) wid' = Some h'" "ev_id (held_event h) = ev_id (held_event h')" for wid wid' h h'
    using I(3) that by simp
  show "distinct (os_processed (s\<lparr>os_events := events'\<rparr>))" using I(4) by simp
  show "\<exists>ev. lookup ev_id i (os_events (s\<lparr>os_events := events'\<rparr>)) = Some ev \<and> ev_status ev = PROCESSED"
    if "i \<in> set (os_processed (s\<lparr>os_events := events'\<rparr>))" for i
    using I(5)[of i] keep that by fastforce
qed

lemma outbox_inv_select:
  assumes inv: "outbox_inv s" and none: "os_holds s wid = None"
    and locked: "set (rd_locked rd) = locked_ids s" and ev: "next_event rd (os_events s) = Some ev"
  shows "outbox_inv (s\<lparr>os_holds := (os_holds s)(wid \<mapsto> Locked ev)\<rparr>)"
proof (rule outbox_invI)
  note I = outbox_invD[OF inv]
  let ?s = "s\<lparr>os_holds := (os_holds s)(wid \<mapsto> Locked ev)\<rparr>"
  note e = next_event_Some(1,2)[OF ev]
  have row: "lookup ev_id (ev_id ev) (os_events s) = Some ev"
    using I(1) e(1) by (intro lookup_unique) (simp_all add: events_ok_def)
  have free: "ev_id (held_event h) \<noteq> ev_id ev" if "os_holds s wid' = Some h" for wid' h
  proof
    assume "ev_id (held_event h) = ev_id ev"
    then have "ev_id ev \<in> locked_ids s"
      unfolding locked_ids_def mem_Collect_eq using that by metis
    then show False using e(2) locked by (simp add: ready_def)
  qed
  show "hold_ok (os_events ?s) h" if "os_holds ?s wid' = Some h" for wid' h
    using that I(2) row e(2) by (auto simp: ready_def split: if_splits)
  show "wid1 = wid2" if "os_holds ?s wid1 = Some h1" "os_holds ?s wid2 = Some h2"
    "ev_id (held_event h1) = ev_id (held_event h2)" for wid1 wid2 h1 h2
    using that free[of wid1 h1] free[of wid2 h2] I(3)[of wid1 h1 wid2 h2] by (auto split: if_splits)
qed (use outbox_invD[OF inv] in auto)

lemma outbox_inv_handle:
  assumes inv: "outbox_inv s" and held: "os_holds s wid = Some (Locked ev)"
    and h: "handle_event tb d rd ev (os_world s) = (Inr ev', w')"
  shows "outbox_inv (s\<lparr>os_holds := (os_holds s)(wid \<mapsto> Handled ev ev'), os_world := w'\<rparr>)"
proof (rule outbox_invI)
  note I = outbox_invD[OF inv]
  let ?s = "s\<lparr>os_holds := (os_holds s)(wid \<mapsto> Handled ev ev'), os_world := w'\<rparr>"
  have row: "lookup ev_id (ev_id ev) (os_events s) = Some ev" "ev_status ev = PENDING"
    using I(2)[OF held] by simp_all
  have "event_ok ev" using I(1) lookup_SomeD[OF row(1)] by (simp add: events_ok_def)
  note new = handle_event_ok[OF this row(2) h]
  have "os_holds s wid1 = Some (if wid1 = wid then Locked ev else h1)" and
    "held_event (if wid1 = wid then Locked ev else h1) = held_event h1"
    if "os_holds ?s wid1 = Some h1" for wid1 h1
    using that held by (auto split: if_splits)
  note old = this
  show "hold_ok (os_events ?s) h1" if "os_holds ?s wid1 = Some h1" for wid1 h1
    using that I(2) row new by (auto split: if_splits)
  show "wid1 = wid2" if "os_holds ?s wid1 = Some h1" "os_holds ?s wid2 = Some h2"
    "ev_id (held_event h1) = ev_id (held_event h2)" for wid1 wid2 h1 h2
    using I(3)[OF old(1)[OF that(1)] old(1)[OF that(2)]] old(2)[OF that(1)] old(2)[OF that(2)] that(3) by simp
qed (use outbox_invD[OF inv] in auto)

lemma outbox_inv_commit:
  assumes inv: "outbox_inv s" and held: "os_holds s wid = Some (Handled ev ev')"
  shows "outbox_inv (s\<lparr>os_events := store_event ev' (os_events s), os_holds := (os_holds s)(wid := None),
        os_processed := os_processed s @ (if ev_status ev' = PROCESSED then [ev_id ev'] else [])\<rparr>)"
    (is "outbox_inv ?s")
proof (rule outbox_invI)
  note I = outbox_invD[OF inv]
  have row: "lookup ev_id (ev_id ev) (os_events s) = Some ev" "ev_status ev = PENDING"
    and new: "event_ok ev'" "ev_id ev' = ev_id ev"
    using I(2)[OF held] by simp_all
  have fresh: "ev_id ev \<notin> set (os_processed s)" using I(5) row by fastforce
  show "events_ok (os_events ?s)" using events_ok_store[OF I(1) new(1)] by simp
  show "hold_ok (os_events ?s) h" if h: "os_holds ?s wid' = Some h" for wid' h
  proof -
    have h: "wid' \<noteq> wid" "os_holds s wid' = Some h" using h by (auto split: if_splits)
    then have "ev_id (held_event h) \<noteq> ev_id ev" using I(3)[OF h(2) held] by auto
    then show ?thesis using hold_ok_cong[OF I(2)[OF h(2)]] new(2) by (simp add: lookup_store)
  qed
  show "wid1 = wid2" if "os_holds ?s wid1 = Some h1" "os_holds ?s wid2 = Some h2"
    "ev_id (held_event h1) = ev_id (held_event h2)" for wid1 wid2 h1 h2
    using that I(3)[of wid1 h1 wid2 h2] by (auto split: if_splits)
  show "distinct (os_processed ?s)" using I(4) fresh new(2) by simp
  show "\<exists>x. lookup ev_id i (os_events ?s) = Some x \<and> ev_status x = PROCESSED" if "i \<in> set (os_processed ?s)" for i
    using that I(5)[of i] fresh row new(2) by (auto simp: lookup_store split: if_splits)
qed

lemma outbox_inv_step:
  assumes "outbox_inv s" and "outbox_step tb d s t"
  shows "outbox_inv t"
  using assms(2)
proof cases
  case insert_row
  then show ?thesis using outbox_inv_insert[OF assms(1)] by blast
next
  case select_row
  then show ?thesis using outbox_inv_select[OF assms(1)] by blast
next
  case handle_row
  then show ?thesis using outbox_inv_handle[OF assms(1)] by blast
next
  case handler_lost
  then show ?thesis using outbox_inv_release[OF assms(1)] by blast
next
  case commit_row
  then show ?thesis using outbox_inv_commit[OF assms(1)] by blast
next
  case transaction_lost
  then show ?thesis using outbox_inv_release[OF assms(1)] by blast
qed

interpretation outbox_pool: transition_system outbox_start "outbox_step tb d" outbox_inv for tb d
proof unfold_locales
  fix s t :: "'a outbox_sys"
  show "outbox_start s \<Longrightarrow> outbox_inv s" by (simp add: outbox_start_def outbox_inv_def)
  show "outbox_inv s \<Longrightarrow> outbox_step tb d s t \<Longrightarrow> outbox_inv t" by (rule outbox_inv_step)
qed

subsection \<open>Properties\<close>

definition sample_outbox :: "nat outbox_sys" where
  "sample_outbox = \<lparr>os_events = [sample_event 1 5], os_holds = (\<lambda>_. None), os_world = 0, os_processed = []\<rparr>"

lemma sample_outbox_start: "outbox_start sample_outbox"
  by (simp add: outbox_start_def sample_outbox_def events_ok_def sample_event_ok)

lemma sample_outbox_select:
  "outbox_step tb d sample_outbox
     (sample_outbox\<lparr>os_holds := (\<lambda>_. None)(''w'' \<mapsto> Locked (sample_event 1 5))\<rparr>)"
proof -
  have "next_event sample_round (os_events sample_outbox) = Some (sample_event 1 5)"
    by (simp add: next_event_first sample_outbox_def select_order_by_def ready_def sample_round_def sample_event_def)
  moreover have "set (rd_locked sample_round) = locked_ids sample_outbox"
    by (simp add: sample_round_def locked_ids_def sample_outbox_def)
  ultimately show ?thesis
    using outbox_step.select_row[of sample_outbox "''w''" sample_round] by (simp add: sample_outbox_def)
qed

text \<open>C10. No event is handled by two workers at once and none is processed twice. In every reachable
  state of any number of workers, crashes and lost transactions included, two workers that hold the
  same event are the same worker, the row a worker holds is in the table exactly as it was read (no
  update is lost when it commits), and no event's processing is committed more than once.\<close>

theorem no_event_processed_twice:
  assumes "events_ok (os_events s0)" and "os_holds s0 = (\<lambda>_. None)" and "os_processed s0 = []"
    and "(outbox_step tb d)\<^sup>*\<^sup>* s0 s" and "os_holds s wid = Some h"
  shows "(\<forall>wid' h'. os_holds s wid' = Some h' \<longrightarrow> ev_id (held_event h') = ev_id (held_event h) \<longrightarrow> wid' = wid) \<and>
    lookup ev_id (ev_id (held_event h)) (os_events s) = Some (held_event h) \<and>
    ev_status (held_event h) = PENDING \<and> ev_id (held_event h) \<notin> set (os_processed s) \<and>
    distinct (os_processed s)"
proof -
  have "outbox_start s0" using assms(1-3) by (simp add: outbox_start_def)
  note I = outbox_invD[OF outbox_pool.inv_reachable[OF this assms(4)]]
  have "ev_id (held_event h) \<notin> set (os_processed s)"
    using I(5)[of "ev_id (held_event h)"] hold_ok_held[OF I(2)[OF assms(5)]] by auto
  then show ?thesis using I(3)[OF _ assms(5)] I(4) hold_ok_held[OF I(2)[OF assms(5)]] by blast
qed

lemma no_event_processed_twice_witness:
  "\<exists>s. (outbox_step (\<lambda>e. ''tb'') sample_dispatcher)\<^sup>*\<^sup>* sample_outbox s \<and>
     os_holds s ''w'' = Some (Locked (sample_event 1 5)) \<and>
     (\<nexists>wid' h'. os_holds s wid' = Some h' \<and> ev_id (held_event h') = 1 \<and> wid' \<noteq> ''w'')"
proof -
  obtain s where s: "(outbox_step (\<lambda>e. ''tb'') sample_dispatcher)\<^sup>*\<^sup>* sample_outbox s"
    "os_holds s ''w'' = Some (Locked (sample_event 1 5))"
    using r_into_rtranclp[of "outbox_step (\<lambda>e. ''tb'') sample_dispatcher", OF sample_outbox_select] by fastforce
  have start: "events_ok (os_events sample_outbox)" "os_holds sample_outbox = (\<lambda>_. None)"
    "os_processed sample_outbox = []"
    using sample_outbox_start by (simp_all add: outbox_start_def)
  have "ev_id (held_event (Locked (sample_event 1 5))) = 1" by (simp add: sample_event_def)
  then show ?thesis using no_event_processed_twice[OF start s] s by (metis (no_types))
qed

end
