(* ===== verification/Geometry.thy ===== *)
theory Geometry
  imports Prelude
begin

text \<open>
  \<open>app/tracking/services/geometry.py\<close>: the only place that turns coordinates into geometries and
  back. \<open>shapely\<close> and \<open>geoalchemy2\<close> are a parameter, the record \<open>shapely\<close> of the functions the
  module calls; \<open>shapely_ok\<close> states what their documentation says of them.
  The lemmas show that the axis order survives the round trip and that GeoJSON coordinates come out
  as nested lists, never tuples.
\<close>

definition SRID_WGS84 :: int where
  "SRID_WGS84 = 4326"

text \<open>The Python values in a GeoJSON mapping.\<close>

datatype pyval =
    PFloat real
  | PStr string
  | PTuple "pyval list"
  | PList "pyval list"

record ('g, 'w) shapely =
  Point :: "real \<Rightarrow> real \<Rightarrow> 'g"
  LineString :: "(real \<times> real) list \<Rightarrow> 'g"
  geom_x :: "'g \<Rightarrow> real"
  geom_y :: "'g \<Rightarrow> real"
  mapping :: "'g \<Rightarrow> (string \<times> pyval) list"
  from_shape :: "'g \<Rightarrow> int \<Rightarrow> 'w"
  to_shape :: "'w \<Rightarrow> 'g"

definition point_to_wkb :: "('g, 'w) shapely \<Rightarrow> real \<Rightarrow> real \<Rightarrow> 'w" where
  "point_to_wkb lib latitude longitude =
     from_shape lib (Point lib longitude latitude) SRID_WGS84"

definition linestring_to_wkb :: "('g, 'w) shapely \<Rightarrow> (real \<times> real) list \<Rightarrow> 'w result" where
  "linestring_to_wkb lib points =
     (if length points < 2 then Inl (ValueError ''a linestring needs at least 2 points'')
      else Inr (from_shape lib (LineString lib points) SRID_WGS84))"

definition wkb_to_lonlat :: "('g, 'w) shapely \<Rightarrow> 'w \<Rightarrow> real \<times> real" where
  "wkb_to_lonlat lib element =
     (let point = to_shape lib element in (geom_x lib point, geom_y lib point))"

fun to_lists :: "pyval \<Rightarrow> pyval" where
  "to_lists (PList items) = PList (map to_lists items)"
| "to_lists (PTuple items) = PList (map to_lists items)"
| "to_lists coordinates = coordinates"

definition wkb_to_geojson :: "('g, 'w) shapely \<Rightarrow> 'w \<Rightarrow> (string \<times> pyval) list result" where
  "wkb_to_geojson lib element =
     (let geometry = mapping lib (to_shape lib element) in
      case map_of geometry ''coordinates'' of
        None \<Rightarrow> Inl (KeyError ''coordinates'')
      | Some c \<Rightarrow> Inr (AList.update ''coordinates'' (to_lists c) geometry))"

subsection \<open>What is relied on in the libraries\<close>

text \<open>
  Reading a WKB element gives back the shape it was made of; \<open>x\<close> and \<open>y\<close> of a point are its first
  and second coordinate; \<open>mapping\<close> is the GeoJSON-like mapping with tuples for positions.
\<close>

definition position :: "real \<times> real \<Rightarrow> pyval" where
  "position p = PTuple [PFloat (fst p), PFloat (snd p)]"

definition shapely_ok :: "('g, 'w) shapely \<Rightarrow> bool" where
  "shapely_ok lib \<longleftrightarrow>
     (\<forall>g. to_shape lib (from_shape lib g SRID_WGS84) = g) \<and>
     (\<forall>x y. geom_x lib (Point lib x y) = x \<and> geom_y lib (Point lib x y) = y) \<and>
     (\<forall>x y. mapping lib (Point lib x y) =
        [(''type'', PStr ''Point''), (''coordinates'', position (x, y))]) \<and>
     (\<forall>ps. 2 \<le> length ps \<longrightarrow> mapping lib (LineString lib ps) =
        [(''type'', PStr ''LineString''), (''coordinates'', PTuple (map position ps))])"

text \<open>A library that keeps shapes as they are: it satisfies \<open>shapely_ok\<close>.\<close>

definition plain_shapely :: "(real \<times> real + (real \<times> real) list, real \<times> real + (real \<times> real) list) shapely"
  where "plain_shapely = \<lparr>
     Point = (\<lambda>x y. Inl (x, y)),
     LineString = Inr,
     geom_x = (\<lambda>g. case g of Inl p \<Rightarrow> fst p | Inr _ \<Rightarrow> 0),
     geom_y = (\<lambda>g. case g of Inl p \<Rightarrow> snd p | Inr _ \<Rightarrow> 0),
     mapping = (\<lambda>g. case g of
         Inl p \<Rightarrow> [(''type'', PStr ''Point''), (''coordinates'', position p)]
       | Inr ps \<Rightarrow> [(''type'', PStr ''LineString''), (''coordinates'', PTuple (map position ps))]),
     from_shape = (\<lambda>g _. g),
     to_shape = (\<lambda>w. w)\<rparr>"

lemma plain_shapely_ok: "shapely_ok plain_shapely"
  by (simp add: shapely_ok_def plain_shapely_def)

subsection \<open>Lemmas\<close>

fun no_tuples :: "pyval \<Rightarrow> bool" where
  "no_tuples (PTuple _) = False"
| "no_tuples (PList items) = (\<forall>i \<in> set items. no_tuples i)"
| "no_tuples _ = True"

lemma to_lists_no_tuples: "no_tuples (to_lists v)"
  by (induction v rule: to_lists.induct) auto

lemma to_lists_id: "no_tuples v \<Longrightarrow> to_lists v = v"
  by (induction v rule: to_lists.induct) (auto intro: map_idI)

text \<open>The numbers of a value, in order: what \<open>_to_lists\<close> must not change.\<close>

fun numbers :: "pyval \<Rightarrow> real list" where
  "numbers (PFloat x) = [x]"
| "numbers (PStr _) = []"
| "numbers (PTuple items) = concat (map numbers items)"
| "numbers (PList items) = concat (map numbers items)"

lemma to_lists_numbers: "numbers (to_lists v) = numbers v"
proof (induction v rule: to_lists.induct)
  case (1 items)
  then have "map (\<lambda>x. numbers (to_lists x)) items = map numbers items" by auto
  then show ?case by (simp add: comp_def del: map_eq_conv)
next
  case (2 items)
  then have "map (\<lambda>x. numbers (to_lists x)) items = map numbers items" by auto
  then show ?case by (simp add: comp_def del: map_eq_conv)
qed auto

lemma point_roundtrip:
  "shapely_ok lib \<Longrightarrow> wkb_to_lonlat lib (point_to_wkb lib latitude longitude) = (longitude, latitude)"
  by (simp add: shapely_ok_def wkb_to_lonlat_def point_to_wkb_def)

lemma linestring_geojson:
  assumes "shapely_ok lib" and "linestring_to_wkb lib points = Inr w"
  shows "wkb_to_geojson lib w =
    Inr [(''type'', PStr ''LineString''),
         (''coordinates'', PList (map (\<lambda>p. PList [PFloat (fst p), PFloat (snd p)]) points))]"
  using assms
  by (auto simp: shapely_ok_def linestring_to_wkb_def wkb_to_geojson_def position_def comp_def
      split: if_splits)

end
