(* ===== verification/Db.thy ===== *)
theory Db
  imports Geometry Outbox
begin

text \<open>
  The tables of the tracking domain (\<open>app/tracking/models\<close>), the generic repository (\<open>app/core/repo.py\<close>),
  the repositories (\<open>app/tracking/repos\<close>) and the session boundary (\<open>app/core/db.py\<close>).
  A statement is a function on the tables that gives the new tables or the exception the database
  raises: unique, primary-key and foreign-key violations are \<open>IntegrityError\<close>s, a string too long for
  its column a \<open>DataError\<close>. \<open>now\<close> is the transaction's \<open>now()\<close>, \<open>gen\<close> is \<open>gen_random_uuid()\<close> as a
  function of the ids in use. \<open>'w\<close> is the type of stored geometries.
\<close>

record satellite =
  sat_id :: uuid
  norad_id :: int
  sat_name :: string
  tle_line1 :: string
  tle_line2 :: string
  epoch :: datetime
  sat_created_at :: datetime
  sat_updated_at :: "datetime option"

record 'w ground_station =
  st_id :: uuid
  st_name :: string
  location :: 'w
  altitude_m :: real
  st_created_at :: datetime
  st_updated_at :: "datetime option"

record 'w pass_prediction =
  pp_id :: uuid
  satellite_id :: uuid
  ground_station_id :: uuid
  pp_aos_at :: datetime
  pp_los_at :: datetime
  pp_peak_at :: datetime
  pp_peak_elevation_deg :: real
  track :: 'w
  pp_created_at :: datetime
  pp_updated_at :: "datetime option"

text \<open>The tables, and the notifications sent by the transactions.\<close>

record 'w db =
  satellites :: "satellite list"
  stations :: "'w ground_station list"
  predictions :: "'w pass_prediction list"
  events :: "event list"
  notified :: "(string \<times> string) list"

subsection \<open>The generic repository\<close>

text \<open>
  \<open>create\<close>: \<open>add\<close>, \<open>flush\<close> (the INSERT, where the database checks its constraints) and \<open>refresh\<close>.
  \<open>violation\<close> is the table's first violated constraint for a new row, if any.
\<close>

definition repo_create :: "('r \<Rightarrow> 'r list \<Rightarrow> exc option) \<Rightarrow> 'r \<Rightarrow> 'r list \<Rightarrow> ('r \<times> 'r list) result" where
  "repo_create violation entity rows =
     (case violation entity rows of
        Some e \<Rightarrow> Inl e
      | None \<Rightarrow> Inr (entity, rows @ [entity]))"

definition repo_get_by_id :: "('r \<Rightarrow> uuid) \<Rightarrow> uuid \<Rightarrow> 'r list \<Rightarrow> 'r option" where
  "repo_get_by_id key entity_id rows = first_row (filter (\<lambda>r. key r = entity_id) rows)"

text \<open>
  \<open>update\<close>: the assignments in the order of the dict; a key that is no attribute is ignored
  (\<open>set\<close> gives None for it). The UPDATE is sent, and \<open>updated_at\<close> set by its \<open>onupdate\<close>, when an
  attribute has changed; its constraints are checked against the other rows.
\<close>

fun set_attrs :: "('a \<Rightarrow> 'r \<Rightarrow> 'r option) \<Rightarrow> 'a list \<Rightarrow> 'r \<Rightarrow> 'r" where
  "set_attrs set_attr [] entity = entity"
| "set_attrs set_attr (a # data) entity =
     set_attrs set_attr data (case set_attr a entity of None \<Rightarrow> entity | Some entity' \<Rightarrow> entity')"

definition repo_update ::
  "('r \<Rightarrow> uuid) \<Rightarrow> ('r \<Rightarrow> 'r list \<Rightarrow> exc option) \<Rightarrow> ('r \<Rightarrow> 'r) \<Rightarrow> ('a \<Rightarrow> 'r \<Rightarrow> 'r option) \<Rightarrow>
   'r \<Rightarrow> 'a list \<Rightarrow> 'r list \<Rightarrow> ('r \<times> 'r list) result" where
  "repo_update key violation touch set_attr entity data rows =
     (let changed = set_attrs set_attr data entity in
      if changed = entity then Inr (entity, rows)
      else let row = touch changed in
        (case violation row (delete_where (\<lambda>r. key r = key entity) rows) of
           Some e \<Rightarrow> Inl e
         | None \<Rightarrow> Inr (row, update_where (\<lambda>r. key r = key entity) (\<lambda>_. row) rows)))"

definition repo_delete :: "('r \<Rightarrow> uuid) \<Rightarrow> 'r \<Rightarrow> 'r list \<Rightarrow> 'r list" where
  "repo_delete key entity rows = delete_where (\<lambda>r. key r = key entity) rows"

definition repo_list_paginated :: "('r \<Rightarrow> uuid) \<Rightarrow> nat \<Rightarrow> nat \<Rightarrow> 'r list \<Rightarrow> 'r list \<times> nat" where
  "repo_list_paginated key limit offset rows =
     (let total = length rows;
          items = take limit (drop offset (sort_key key rows))
      in (items, total))"

subsection \<open>Constraints of the tables\<close>

definition satellite_violation :: "satellite \<Rightarrow> satellite list \<Rightarrow> exc option" where
  "satellite_violation row rows =
     (if 255 < length (sat_name row) then Some (DataError ''name'')
      else if sat_id row \<in> sat_id ` set rows then Some (IntegrityError ''pk_satellites'')
      else if norad_id row \<in> norad_id ` set rows then Some (IntegrityError ''uq_satellites_norad_id'')
      else None)"

definition station_violation :: "'w ground_station \<Rightarrow> 'w ground_station list \<Rightarrow> exc option" where
  "station_violation row rows =
     (if 255 < length (st_name row) then Some (DataError ''name'')
      else if st_id row \<in> st_id ` set rows then Some (IntegrityError ''pk_ground_stations'')
      else if st_name row \<in> st_name ` set rows then Some (IntegrityError ''uq_ground_stations_name'')
      else None)"

definition pass_key :: "'w pass_prediction \<Rightarrow> uuid \<times> uuid \<times> datetime" where
  "pass_key p = (satellite_id p, ground_station_id p, pp_aos_at p)"

definition prediction_violation ::
  "satellite list \<Rightarrow> 'w ground_station list \<Rightarrow> 'w pass_prediction \<Rightarrow> 'w pass_prediction list \<Rightarrow> exc option" where
  "prediction_violation sats stats row rows =
     (if pp_id row \<in> pp_id ` set rows then Some (IntegrityError ''pk_pass_predictions'')
      else if pass_key row \<in> pass_key ` set rows
        then Some (IntegrityError ''uq_pass_predictions_sat_station_aos'')
      else if satellite_id row \<notin> sat_id ` set sats
        then Some (IntegrityError ''fk_pass_predictions_satellite_id_satellites'')
      else if ground_station_id row \<notin> st_id ` set stats
        then Some (IntegrityError ''fk_pass_predictions_ground_station_id_ground_stations'')
      else None)"

subsection \<open>The repositories\<close>

datatype sat_attr =
    Attr_name string
  | Attr_tle_line1 string
  | Attr_tle_line2 string
  | Attr_epoch datetime
  | No_attr string

fun set_sat_attr :: "sat_attr \<Rightarrow> satellite \<Rightarrow> satellite option" where
  "set_sat_attr (Attr_name v) s = Some (s\<lparr>sat_name := v\<rparr>)"
| "set_sat_attr (Attr_tle_line1 v) s = Some (s\<lparr>tle_line1 := v\<rparr>)"
| "set_sat_attr (Attr_tle_line2 v) s = Some (s\<lparr>tle_line2 := v\<rparr>)"
| "set_sat_attr (Attr_epoch v) s = Some (s\<lparr>epoch := v\<rparr>)"
| "set_sat_attr (No_attr _) s = None"

definition update_satellite ::
  "datetime \<Rightarrow> satellite \<Rightarrow> sat_attr list \<Rightarrow> satellite list \<Rightarrow> (satellite \<times> satellite list) result" where
  "update_satellite now entity data rows =
     repo_update sat_id satellite_violation (\<lambda>s. s\<lparr>sat_updated_at := Some now\<rparr>) set_sat_attr entity data rows"

definition get_by_norad_id :: "int \<Rightarrow> satellite list \<Rightarrow> satellite option" where
  "get_by_norad_id n rows = first_row (filter (\<lambda>s. norad_id s = n) rows)"

text \<open>\<open>ORDER BY name\<close>: \<open>collate\<close> is the sort key of the database's collation.\<close>

definition list_all_satellites :: "(string \<Rightarrow> real) \<Rightarrow> satellite list \<Rightarrow> satellite list" where
  "list_all_satellites collate rows = select_order_by (\<lambda>s. collate (sat_name s)) (\<lambda>_. True) rows"

definition get_by_name :: "string \<Rightarrow> 'w ground_station list \<Rightarrow> 'w ground_station option" where
  "get_by_name name rows = first_row (filter (\<lambda>s. st_name s = name) rows)"

definition list_all_stations :: "(string \<Rightarrow> real) \<Rightarrow> 'w ground_station list \<Rightarrow> 'w ground_station list" where
  "list_all_stations collate rows = select_order_by (\<lambda>s. collate (st_name s)) (\<lambda>_. True) rows"

definition list_for_ground_station ::
  "uuid \<Rightarrow> datetime \<Rightarrow> 'w pass_prediction list \<Rightarrow> 'w pass_prediction list" where
  "list_for_ground_station station after rows =
     select_order_by pp_aos_at (\<lambda>p. ground_station_id p = station \<and> pp_aos_at p \<ge> after) rows"

definition delete_for_satellite_and_station ::
  "uuid \<Rightarrow> uuid \<Rightarrow> 'w pass_prediction list \<Rightarrow> 'w pass_prediction list" where
  "delete_for_satellite_and_station sat station rows =
     delete_where (\<lambda>p. satellite_id p = sat \<and> ground_station_id p = station) rows"

text \<open>\<open>ST_Intersects(track, ST_MakeEnvelope(\<dots>, 4326))\<close> of PostGIS is a parameter.\<close>

definition list_in_bbox ::
  "('w \<Rightarrow> real \<times> real \<times> real \<times> real \<times> int \<Rightarrow> bool) \<Rightarrow> real \<Rightarrow> real \<Rightarrow> real \<Rightarrow> real \<Rightarrow>
   'w pass_prediction list \<Rightarrow> 'w pass_prediction list" where
  "list_in_bbox st_intersects min_lon min_lat max_lon max_lat rows =
     select_order_by pp_aos_at (\<lambda>p. st_intersects (track p) (min_lon, min_lat, max_lon, max_lat, 4326)) rows"

text \<open>Deleting a satellite or a station: the foreign keys cascade to the predictions.\<close>

definition delete_satellite :: "satellite \<Rightarrow> 'w db \<Rightarrow> 'w db" where
  "delete_satellite s d = d\<lparr>satellites := repo_delete sat_id s (satellites d),
     predictions := delete_where (\<lambda>p. satellite_id p = sat_id s) (predictions d)\<rparr>"

definition delete_station :: "'w ground_station \<Rightarrow> 'w db \<Rightarrow> 'w db" where
  "delete_station s d = d\<lparr>stations := repo_delete st_id s (stations d),
     predictions := delete_where (\<lambda>p. ground_station_id p = st_id s) (predictions d)\<rparr>"

subsection \<open>The session\<close>

text \<open>\<open>get_session\<close>: commit when the body ends normally, rollback when it raises.\<close>

definition with_session :: "('d \<Rightarrow> ('a \<times> 'd) result) \<Rightarrow> 'd \<Rightarrow> 'a result \<times> 'd" where
  "with_session body d = (case body d of Inl e \<Rightarrow> (Inl e, d) | Inr (x, d') \<Rightarrow> (Inr x, d'))"

subsection \<open>The invariant of the tables\<close>

definition satellites_ok :: "satellite list \<Rightarrow> bool" where
  "satellites_ok rows \<longleftrightarrow> distinct (map sat_id rows) \<and> distinct (map norad_id rows) \<and>
     (\<forall>s \<in> set rows. length (sat_name s) \<le> 255)"

definition stations_ok :: "'w ground_station list \<Rightarrow> bool" where
  "stations_ok rows \<longleftrightarrow> distinct (map st_id rows) \<and> distinct (map st_name rows) \<and>
     (\<forall>s \<in> set rows. length (st_name s) \<le> 255)"

definition predictions_ok ::
  "satellite list \<Rightarrow> 'w ground_station list \<Rightarrow> 'w pass_prediction list \<Rightarrow> bool" where
  "predictions_ok sats stats rows \<longleftrightarrow> distinct (map pp_id rows) \<and> distinct (map pass_key rows) \<and>
     (\<forall>p \<in> set rows. satellite_id p \<in> sat_id ` set sats \<and> ground_station_id p \<in> st_id ` set stats)"

definition db_ok :: "'w db \<Rightarrow> bool" where
  "db_ok d \<longleftrightarrow> satellites_ok (satellites d) \<and> stations_ok (stations d) \<and>
     predictions_ok (satellites d) (stations d) (predictions d) \<and> events_ok (events d)"

lemma db_okD:
  assumes "db_ok d"
  shows "satellites_ok (satellites d)" "stations_ok (stations d)"
    "predictions_ok (satellites d) (stations d) (predictions d)" "events_ok (events d)"
    "distinct (map sat_id (satellites d))" "distinct (map norad_id (satellites d))"
    "distinct (map st_id (stations d))" "distinct (map st_name (stations d))"
  using assms by (simp_all add: db_ok_def satellites_ok_def stations_ok_def)

subsection \<open>Interface: a table whose INSERT keeps its invariant\<close>

text \<open>
  What the clients of \<open>repo_create\<close> rely on: a row the database accepts keeps the table's invariant.
\<close>

locale checked_table =
  fixes violation :: "'r \<Rightarrow> 'r list \<Rightarrow> exc option"
    and rows_ok :: "'r list \<Rightarrow> bool"
  assumes accepted: "rows_ok rows \<Longrightarrow> violation r rows = None \<Longrightarrow> rows_ok (rows @ [r])"
    and rejected: "violation r rows = Some e \<Longrightarrow> (\<exists>m. e = IntegrityError m) \<or> (\<exists>m. e = DataError m)"
begin

lemma create_ok:
  "rows_ok rows \<Longrightarrow> repo_create violation r rows = Inr (r', rows') \<Longrightarrow>
   r' = r \<and> rows' = rows @ [r] \<and> rows_ok rows'"
  by (auto simp: repo_create_def accepted split: option.splits)

lemma create_error:
  "repo_create violation r rows = Inl e \<Longrightarrow> (\<exists>m. e = IntegrityError m) \<or> (\<exists>m. e = DataError m)"
  using rejected by (auto simp: repo_create_def split: option.splits)

end

interpretation satellite_table: checked_table satellite_violation satellites_ok
  by unfold_locales (auto simp: satellite_violation_def satellites_ok_def split: if_splits)

interpretation station_table: checked_table station_violation stations_ok
  by unfold_locales (auto simp: station_violation_def stations_ok_def split: if_splits)

interpretation prediction_table: checked_table "prediction_violation sats stats" "predictions_ok sats stats"
  for sats stats
  by unfold_locales (auto simp: prediction_violation_def predictions_ok_def split: if_splits)

subsection \<open>Lemmas\<close>

lemma get_by_id_lookup: "repo_get_by_id key i rows = lookup key i rows"
  by (simp add: repo_get_by_id_def lookup_def)

lemma get_by_norad_id_lookup: "get_by_norad_id n rows = lookup norad_id n rows"
  by (simp add: get_by_norad_id_def lookup_def)

lemma get_by_name_lookup: "get_by_name n rows = lookup st_name n rows"
  by (simp add: get_by_name_def lookup_def)

lemma set_list_all_stations [sql_simps]: "set (list_all_stations c rows) = set rows"
  by (simp add: list_all_stations_def sql_simps)

lemma set_list_all_satellites [sql_simps]: "set (list_all_satellites c rows) = set rows"
  by (simp add: list_all_satellites_def sql_simps)

lemma distinct_list_all_stations:
  "distinct (map st_id rows) \<Longrightarrow> distinct (map st_id (list_all_stations c rows))"
  by (simp add: list_all_stations_def select_order_by_def distinct_map distinct_sort)

lemma with_session_Inr: "body d = Inr (x, d') \<Longrightarrow> with_session body d = (Inr x, d')"
  by (simp add: with_session_def)

lemma with_session_Inl: "body d = Inl e \<Longrightarrow> with_session body d = (Inl e, d)"
  by (simp add: with_session_def)

lemma predictions_ok_more:
  assumes "predictions_ok sats stats rows" and "sat_id ` set sats \<subseteq> sat_id ` set sats'"
    and "st_id ` set stats \<subseteq> st_id ` set stats'"
  shows "predictions_ok sats' stats' rows"
  using assms unfolding predictions_ok_def by blast

lemma predictions_ok_delete:
  "predictions_ok sats stats rows \<Longrightarrow> predictions_ok sats stats (delete_where p rows)"
  unfolding predictions_ok_def delete_where_def by (simp add: distinct_map_filter)

end
