(* ===== verification/Celestrak.thy ===== *)
theory Celestrak
  imports Config
begin

text \<open>
  \<open>app/core/celestrak\<close>: the record type (\<open>types.py\<close>), the HTTP driver (\<open>drivers/http.py\<close>) with its
  mapping of responses to the driver's errors and its parser of the three-line format, the client
  interface (\<open>driver.py\<close>, the locale \<open>tle_source\<close>) and the client registry (\<open>registry.py\<close>).
  \<open>httpx\<close> is a parameter: \<open>http\<close> gives the outcome of a GET on a URL with its query parameters, and
  \<open>AsyncClient\<close> the exchange of a new client with its options.
  The lemmas show what a parsed record looks like (\<open>parse_records_ok\<close>), that the parser inverts
  CelesTrak's own layout (\<open>parse_render\<close>), and which response ends in which error.
\<close>

record tle_record =
  tle_name :: string
  line1 :: string
  line2 :: string

definition NOT_FOUND_BODY :: string where
  "NOT_FOUND_BODY = ''No GP data found''"

subsection \<open>The HTTP exchange\<close>

text \<open>
  What \<open>self._client.get\<close> can do: answer, time out, fail in transport (both are
  \<open>httpx.TransportError\<close>s), or raise anything else, which the driver does not catch.
\<close>

datatype http_outcome =
    Response int string
  | TimeoutException string
  | TransportError string
  | OtherError exc

type_synonym http_client = "string \<Rightarrow> (string \<times> string) list \<Rightarrow> http_outcome"

definition celestrak_get :: "http_client \<Rightarrow> string \<Rightarrow> (string \<times> string) list \<Rightarrow> string result" where
  "celestrak_get http base_url params =
     (case http base_url params of
        TimeoutException m \<Rightarrow> Inl (TransientError (''CelesTrak timeout: '' @ m))
      | TransportError m \<Rightarrow> Inl (TransientError (''CelesTrak transport error: '' @ m))
      | OtherError e \<Rightarrow> Inl e
      | Response status body \<Rightarrow>
          (let text = strip body in
           if status = 403 then Inl (RateLimitedError text)
           else if status \<ge> 500 then Inl (TransientError (''CelesTrak '' @ py_str_int status))
           else if status = 404 \<or> (status = 200 \<and> text = NOT_FOUND_BODY)
             then Inl (TleNotFound (if text \<noteq> [] then text else ''no GP data''))
           else if status \<noteq> 200
             then Inl (CelestrakError (''CelesTrak unexpected status '' @ py_str_int status))
           else Inr body))"

subsection \<open>The parser\<close>

text \<open>The loop over groups of three lines; the first malformed group ends it.\<close>

fun parse_groups :: "string list \<Rightarrow> tle_record list result" where
  "parse_groups (name # l1 # l2 # rest) =
     (if \<not> startswith l1 ''1 '' \<or> \<not> startswith l2 ''2 ''
      then Inl (CelestrakError (''malformed TLE record near '' @ py_repr name))
      else rbind (parse_groups rest)
             (\<lambda>records. Inr (\<lparr>tle_name = strip name, line1 = l1, line2 = l2\<rparr> # records)))"
| "parse_groups _ = Inr []"

definition parse_records :: "string \<Rightarrow> tle_record list result" where
  "parse_records body =
     (let text = strip body in
      if text = [] \<or> text = NOT_FOUND_BODY
      then Inl (TleNotFound (if text \<noteq> [] then text else ''empty response''))
      else let lines = [rstrip l. l \<leftarrow> splitlines text, strip l \<noteq> []] in
        if length lines mod 3 \<noteq> 0
        then Inl (CelestrakError (''expected groups of 3 lines, got '' @ py_str_int (int (length lines))))
        else parse_groups lines)"

definition fetch_group :: "http_client \<Rightarrow> string \<Rightarrow> string \<Rightarrow> tle_record list result" where
  "fetch_group http base_url grp =
     rbind (celestrak_get http base_url [(''GROUP'', grp), (''FORMAT'', ''TLE'')]) parse_records"

definition fetch_by_catalog_id :: "http_client \<Rightarrow> string \<Rightarrow> int \<Rightarrow> tle_record result" where
  "fetch_by_catalog_id http base_url catalog_id =
     rbind (celestrak_get http base_url [(''CATNR'', py_str_int catalog_id), (''FORMAT'', ''TLE'')])
       (\<lambda>body. rbind (parse_records body)
         (\<lambda>records. case records of [] \<Rightarrow> Inl IndexError | r # _ \<Rightarrow> Inr r))"

subsection \<open>What the parser accepts\<close>

text \<open>
  What the rest of the program may rely on in a record: the two element lines carry their line
  numbers, have no trailing white space and are single lines; the name is trimmed and not empty.
\<close>

definition tle_ok :: "tle_record \<Rightarrow> bool" where
  "tle_ok r \<longleftrightarrow>
     startswith (line1 r) ''1 '' \<and> startswith (line2 r) ''2 '' \<and>
     rstrip (line1 r) = line1 r \<and> rstrip (line2 r) = line2 r \<and>
     filter is_linebreak (line1 r @ line2 r) = [] \<and>
     tle_name r \<noteq> [] \<and> strip (tle_name r) = tle_name r"

text \<open>The lines the parser works on: not blank, trimmed on the right, without line breaks.\<close>

definition clean_line :: "string \<Rightarrow> bool" where
  "clean_line l \<longleftrightarrow> rstrip l = l \<and> filter is_linebreak l = [] \<and> strip l \<noteq> []"

lemma clean_lines: "\<forall>l \<in> set [rstrip l. l \<leftarrow> splitlines text, strip l \<noteq> []]. clean_line l"
proof
  fix l assume "l \<in> set [rstrip l. l \<leftarrow> splitlines text, strip l \<noteq> []]"
  then obtain k where k: "k \<in> set (splitlines text)" "strip k \<noteq> []" "l = rstrip k"
    by auto
  have "filter is_linebreak k = []"
    using splitlines_no_break[OF k(1)] by (simp add: filter_empty_conv)
  then have "filter is_linebreak l = []"
    using set_rstrip[of k] k(3) by (auto simp: filter_empty_conv)
  moreover have "strip l \<noteq> []"
    using k rstrip_prefix[of k] unfolding strip_Nil_iff
    by (metis rstrip_Nil_iff rstrip_idem strip_Nil_iff)
  ultimately show "clean_line l" using k(3) by (simp add: clean_line_def rstrip_idem)
qed

lemma parse_groups_ok:
  "parse_groups ls = Inr rs \<Longrightarrow> \<forall>l \<in> set ls. clean_line l \<Longrightarrow> \<forall>r \<in> set rs. tle_ok r"
proof (induction ls arbitrary: rs rule: parse_groups.induct)
  case (1 name l1 l2 rest)
  then show ?case
    by (auto simp: rbind_eq_Inr tle_ok_def clean_line_def strip_idem split: if_splits)
qed auto

lemma parse_records_ok: "parse_records body = Inr rs \<Longrightarrow> r \<in> set rs \<Longrightarrow> tle_ok r"
  using parse_groups_ok clean_lines
  by (fastforce simp: parse_records_def Let_def split: if_splits)

subsection \<open>Interface: a source of TLEs\<close>

text \<open>
  The protocol \<open>CelestrakClient\<close> (\<open>driver.py\<close>) as its clients use it: a group's records, each of them
  well formed. The HTTP driver provides it.
\<close>

locale tle_source =
  fixes fetch :: "string \<Rightarrow> tle_record list result"
  assumes fetched_ok: "fetch grp = Inr rs \<Longrightarrow> r \<in> set rs \<Longrightarrow> tle_ok r"

interpretation celestrak_http: tle_source "fetch_group http base_url" for http base_url
  by unfold_locales (auto simp: fetch_group_def rbind_eq_Inr intro: parse_records_ok)

lemma parse_groups_length:
  "parse_groups ls = Inr rs \<Longrightarrow> length ls mod 3 = 0 \<Longrightarrow> length ls = 3 * length rs"
  by (induction ls arbitrary: rs rule: parse_groups.induct)
    (auto simp: rbind_eq_Inr mod_Suc split: if_splits)

subsection \<open>The parser inverts CelesTrak's layout\<close>

text \<open>
  CelesTrak's layout of a record: the name padded with blanks to 24 characters, the two element
  lines, each line ended by CR LF.
\<close>

definition ljust :: "nat \<Rightarrow> string \<Rightarrow> string" where
  "ljust n s = s @ replicate (n - length s) (CHR '' '')"

definition record_lines :: "tle_record \<Rightarrow> string list" where
  "record_lines r = [ljust 24 (tle_name r), line1 r, line2 r]"

definition render_records :: "tle_record list \<Rightarrow> string" where
  "render_records rs = concat (map (\<lambda>l. l @ crlf) (concat (map record_lines rs)))"

definition renderable :: "tle_record \<Rightarrow> bool" where
  "renderable r \<longleftrightarrow> tle_ok r \<and> filter is_linebreak (tle_name r) = []"

lemma strip_split: "strip s = s \<longleftrightarrow> lstrip s = s \<and> rstrip s = s"
proof
  assume s: "strip s = s"
  have "length (strip s) \<le> length (lstrip s)"
    using rstrip_prefix[of "lstrip s"] unfolding strip_def by (metis length_append le_add1)
  moreover have "length (lstrip s) \<le> length s"
    by (simp add: lstrip_def length_dropWhile_le)
  ultimately have "length (lstrip s) = length s" using s by simp
  then have "lstrip s = s"
    unfolding lstrip_def by (metis append_eq_append_conv self_append_conv2 takeWhile_dropWhile_id length_append add_cancel_left_left length_0_conv)
  then show "lstrip s = s \<and> rstrip s = s" using s by (simp add: strip_def)
qed (simp add: strip_def)

lemma rstrip_ljust: "rstrip s = s \<Longrightarrow> rstrip (ljust n s) = s"
  by (simp add: ljust_def rstrip_append_space is_space_def char_code_def)

lemma parse_groups_render:
  assumes "\<forall>r \<in> set rs. renderable r"
  shows "parse_groups (concat (map (\<lambda>r. [tle_name r, line1 r, line2 r]) rs)) = Inr rs"
  using assms by (induction rs) (auto simp: renderable_def tle_ok_def)

lemma startswith_not_blank: "startswith s (c # cs) \<Longrightarrow> \<not> is_space c \<Longrightarrow> strip s \<noteq> []"
  by (cases s) (auto simp: startswith_def strip_Nil_iff)

lemma record_lines_clean:
  assumes "renderable r"
  shows "[rstrip l. l \<leftarrow> record_lines r, strip l \<noteq> []] = [tle_name r, line1 r, line2 r]"
proof -
  have "strip (line1 r) \<noteq> []" "strip (line2 r) \<noteq> []"
    using assms startswith_not_blank[of _ "CHR ''1''" "'' ''"] startswith_not_blank[of _ "CHR ''2''" "'' ''"]
    by (auto simp: renderable_def tle_ok_def is_space_def char_code_def)
  moreover have "strip (ljust 24 (tle_name r)) \<noteq> []"
    using assms strip_Nil_iff[of "tle_name r"]
    by (auto simp: renderable_def tle_ok_def ljust_def strip_Nil_iff)
  moreover have "rstrip (tle_name r) = tle_name r"
    using assms by (auto simp: renderable_def tle_ok_def strip_split)
  ultimately show ?thesis
    using assms by (simp add: record_lines_def rstrip_ljust renderable_def tle_ok_def)
qed

lemma clean_all_lines:
  assumes "\<forall>r \<in> set rs. renderable r"
  shows "[rstrip l. l \<leftarrow> concat (map record_lines rs), strip l \<noteq> []] =
         concat (map (\<lambda>r. [tle_name r, line1 r, line2 r]) rs)"
  using assms
proof (induction rs)
  case (Cons r rs)
  then show ?case using record_lines_clean[of r] by (simp add: record_lines_def)
qed simp

lemma render_text:
  assumes "rs \<noteq> []" and ok: "\<forall>r \<in> set rs. renderable r"
  defines "ls \<equiv> concat (map record_lines rs)"
  shows "strip (render_records rs) = concat (map (\<lambda>l. l @ crlf) (butlast ls)) @ last ls"
proof -
  obtain r rs' where rs: "rs = r # rs'" using assms(1) by (cases rs) auto
  obtain rs'' q where q: "rs = rs'' @ [q]" using assms(1) by (cases rs rule: rev_cases) auto
  have nonempty: "ls \<noteq> []" and last: "last ls = line2 q"
    by (auto simp: ls_def q record_lines_def)
  have "renderable q" using ok q by simp
  moreover have "renderable r" using ok rs by simp
  ultimately have l2: "rstrip (line2 q) = line2 q" and name: "tle_name r \<noteq> []" "lstrip (tle_name r) = tle_name r"
    by (auto simp: renderable_def tle_ok_def strip_split)
  have "line2 q \<noteq> []" using \<open>renderable q\<close> by (auto simp: renderable_def tle_ok_def startswith_def)
  have "render_records rs = concat (map (\<lambda>l. l @ crlf) (butlast ls @ [last ls]))"
    using nonempty by (simp add: render_records_def ls_def)
  then have body: "render_records rs =
      (concat (map (\<lambda>l. l @ crlf) (butlast ls)) @ last ls) @ crlf" by simp
  have "\<not> is_space (hd (tle_name r))"
    using name by (metis hd_dropWhile lstrip_def)
  moreover have "hd (render_records rs) = hd (tle_name r)" "render_records rs \<noteq> []"
    using name(1) by (auto simp: render_records_def rs record_lines_def ljust_def)
  ultimately have left: "lstrip (render_records rs) = render_records rs"
    by (simp add: lstrip_id)
  let ?t = "concat (map (\<lambda>l. l @ crlf) (butlast ls)) @ last ls"
  have "\<not> is_space (last ?t)"
    using \<open>line2 q \<noteq> []\<close> l2 last last_rstrip[of "line2 q"] by simp
  then have "rstrip ?t = ?t" by (simp add: rstrip_id)
  moreover have "rstrip (?t @ crlf) = rstrip ?t"
    by (rule rstrip_append_space) (simp add: crlf_def is_space_def char_code_def)
  moreover have "strip (render_records rs) = rstrip (?t @ crlf)"
    by (metis strip_def left body)
  ultimately show ?thesis by simp
qed

theorem parse_render:
  assumes "rs \<noteq> []" and "\<forall>r \<in> set rs. renderable r"
  shows "parse_records (render_records rs) = Inr rs"
proof -
  let ?ls = "concat (map record_lines rs)"
  obtain r rs' where rs: "rs = r # rs'" using assms(1) by (cases rs) auto
  have ls: "?ls = butlast ?ls @ [last ?ls]" using rs by (simp add: record_lines_def)
  have no_break: "\<forall>l \<in> set ?ls. \<forall>c \<in> set l. \<not> is_linebreak c"
    using assms(2) by (auto simp: record_lines_def renderable_def tle_ok_def ljust_def
        filter_empty_conv is_linebreak_def char_code_def)
  obtain rs'' q where q: "rs = rs'' @ [q]" using assms(1) by (cases rs rule: rev_cases) auto
  have "renderable q" using assms(2) q by simp
  then have "last ?ls \<noteq> []"
    by (auto simp: q record_lines_def renderable_def tle_ok_def startswith_def)
  moreover have "\<forall>l \<in> set (butlast ?ls). \<forall>c \<in> set l. \<not> is_linebreak c"
    using no_break in_set_butlastD[of _ ?ls] by blast
  moreover have "\<forall>c \<in> set (last ?ls). \<not> is_linebreak c"
  proof -
    have "?ls \<noteq> []" using ls by (metis snoc_eq_iff_butlast)
    then show ?thesis using no_break last_in_set[of ?ls] by blast
  qed
  ultimately have "splitlines (strip (render_records rs)) = butlast ?ls @ [last ?ls]"
    unfolding render_text[OF assms] by (intro splitlines_crlf_last) auto
  then have split: "splitlines (strip (render_records rs)) = ?ls" using ls by simp
  have cr: "CHR 0x0D \<in> set (strip (render_records rs))"
    unfolding render_text[OF assms] by (simp add: rs record_lines_def crlf_def)
  have "CHR 0x0D \<notin> set NOT_FOUND_BODY" by (simp add: NOT_FOUND_BODY_def)
  then have nontrivial: "strip (render_records rs) \<noteq> []" "strip (render_records rs) \<noteq> NOT_FOUND_BODY"
    using cr by auto
  have "length (concat (map (\<lambda>r. [tle_name r, line1 r, line2 r]) xs)) mod 3 = 0" for xs
    by (induction xs) auto
  then show ?thesis
    using nontrivial by (simp add: parse_records_def Let_def split clean_all_lines[OF assms(2)]
        parse_groups_render[OF assms(2)])
qed

subsection \<open>The client registry\<close>

text \<open>
  \<open>_CelestrakClientRegistry\<close>: its state is the registered client, if any; \<open>get\<close> builds the default
  one from the settings when there is none and keeps it. A client is its \<open>fetch_group\<close>.
\<close>

type_synonym client = "string \<Rightarrow> tle_record list result"

text \<open>
  \<open>CelestrakHttpClient.__init__\<close>: its exchange is the injected client's or that of a new
  \<open>httpx.AsyncClient\<close>, which the library makes of the options.
\<close>

definition USER_AGENT :: string where
  "USER_AGENT = ''apsis/0.1 (+https://github.com/aJustDev/apsis)''"

record client_options =
  co_timeout :: timedelta
  co_follow_redirects :: bool
  co_headers :: "(string \<times> string) list"

definition driver_exchange :: "(client_options \<Rightarrow> http_client) \<Rightarrow> timedelta \<Rightarrow> http_client option \<Rightarrow> http_client" where
  "driver_exchange AsyncClient timeout injected =
     (case injected of
        Some http \<Rightarrow> http
      | None \<Rightarrow> AsyncClient \<lparr>co_timeout = timeout, co_follow_redirects = True,
          co_headers = [(''User-Agent'', USER_AGENT)]\<rparr>)"

definition build_default_client :: "(client_options \<Rightarrow> http_client) \<Rightarrow> settings \<Rightarrow> client" where
  "build_default_client AsyncClient cfg =
     fetch_group (driver_exchange AsyncClient (CELESTRAK_TIMEOUT cfg) None) (CELESTRAK_BASE_URL cfg)"

definition register_client :: "client \<Rightarrow> client option \<Rightarrow> client option" where
  "register_client c st = Some c"

definition get_client :: "(client_options \<Rightarrow> http_client) \<Rightarrow> settings \<Rightarrow> client option \<Rightarrow> client \<times> client option" where
  "get_client AsyncClient cfg st =
     (case st of
        None \<Rightarrow> (build_default_client AsyncClient cfg, Some (build_default_client AsyncClient cfg))
      | Some c \<Rightarrow> (c, Some c))"

definition reset_client :: "client option \<Rightarrow> client option" where
  "reset_client st = None"

lemma get_client_stable:
  "get_client new cfg (snd (get_client new' cfg' st)) = (fst (get_client new' cfg' st), snd (get_client new' cfg' st))"
  by (simp add: get_client_def split: option.split)

text \<open>The client built from the settings is a source of TLEs too.\<close>

interpretation celestrak_default: tle_source "build_default_client AsyncClient cfg" for AsyncClient cfg
  by unfold_locales (auto simp: build_default_client_def intro: celestrak_http.fetched_ok)

subsection \<open>Properties\<close>

definition sample_records :: "tle_record list" where
  "sample_records = [\<lparr>tle_name = ''ISS (ZARYA)'', line1 = ''1 25544U'', line2 = ''2 25544''\<rparr>,
     \<lparr>tle_name = ''NOAA 19'', line1 = ''1 33591U'', line2 = ''2 33591''\<rparr>]"

lemma sample_renderable: "\<forall>r \<in> set sample_records. renderable r"
  by (simp add: sample_records_def renderable_def tle_ok_def startswith_def strip_def rstrip_def lstrip_def
      is_space_def is_linebreak_def char_code_def)

lemma parse_groups_nonempty: "parse_groups ls = Inr rs \<Longrightarrow> 3 \<le> length ls \<Longrightarrow> rs \<noteq> []"
  by (cases ls rule: parse_groups.cases) (auto simp: rbind_eq_Inr split: if_splits)

lemma parse_groups_Inl: "parse_groups ls = Inl e \<Longrightarrow> \<exists>m. e = CelestrakError m"
  by (induction ls arbitrary: e rule: parse_groups.induct) (auto simp: rbind_eq_Inl split: if_splits)

lemma parse_records_nonempty:
  assumes "parse_records body = Inr rs"
  shows "rs \<noteq> []"
proof -
  let ?lines = "[rstrip l. l \<leftarrow> splitlines (strip body), strip l \<noteq> []]"
  have ne: "strip (strip body) \<noteq> []" and m: "length ?lines mod 3 = 0" and g: "parse_groups ?lines = Inr rs"
    using assms by (auto simp: parse_records_def Let_def strip_idem split: if_splits)
  obtain l where "l \<in> set (splitlines (strip body))" "strip l \<noteq> []"
    using splitlines_keeps[OF ne] by blast
  then have "?lines \<noteq> []" by auto
  then have "0 < length ?lines" unfolding length_greater_0_conv .
  moreover have three: "k mod 3 = 0 \<Longrightarrow> 0 < k \<Longrightarrow> 3 \<le> k" for k :: nat by presburger
  ultimately have "3 \<le> length ?lines" by (intro three[OF m])
  then show ?thesis using parse_groups_nonempty[OF g] by blast
qed

lemma parse_records_Inl:
  "parse_records body = Inl e \<Longrightarrow> (\<exists>m. e = CelestrakError m) \<or> (\<exists>m. e = TleNotFound m)"
  by (auto simp: parse_records_def Let_def dest: parse_groups_Inl split: if_splits)

lemma first_or_raise: "(case rs of [] \<Rightarrow> Inl e | r # _ \<Rightarrow> Inr r) = Inl e' \<longleftrightarrow> rs = [] \<and> e = e'"
  by (cases rs) auto

lemma celestrak_get_Inr: "celestrak_get http url ps = Inr b \<Longrightarrow> http url ps = Response 200 b"
  by (auto simp: celestrak_get_def Let_def split: http_outcome.splits if_splits)

text \<open>C28. The parser reads CelesTrak's own layout back: a non-empty list of well-formed records, rendered
  with names padded to 24 characters and CR LF line ends, parses to exactly these records.\<close>

theorem parse_render_records:
  assumes "rs \<noteq> []" and "\<forall>r \<in> set rs. renderable r"
  shows "parse_records (render_records rs) = Inr rs"
  by (rule parse_render[OF assms])

lemma parse_render_records_witness: "parse_records (render_records sample_records) = Inr sample_records"
  by (rule parse_render_records[OF _ sample_renderable]) (simp add: sample_records_def)

text \<open>C29. How a fetch ends. When the exchange itself raises nothing unexpected: a rate-limit error exactly
  on 403, a transient error exactly on a timeout, a transport failure or a status from 500 on, and
  otherwise an error of the driver's own hierarchy or, on 200 only, at least one record, every one well
  formed; so fetching one catalog number never fails on an empty list.\<close>

theorem fetch_outcomes:
  assumes "\<forall>ps e. http base_url ps \<noteq> OtherError e"
  shows "((\<exists>m. fetch_group http base_url grp = Inl (RateLimitedError m)) \<longleftrightarrow>
      (\<exists>b. http base_url [(''GROUP'', grp), (''FORMAT'', ''TLE'')] = Response 403 b)) \<and>
    ((\<exists>m. fetch_group http base_url grp = Inl (TransientError m)) \<longleftrightarrow>
      (case http base_url [(''GROUP'', grp), (''FORMAT'', ''TLE'')] of
         TimeoutException _ \<Rightarrow> True | TransportError _ \<Rightarrow> True | Response s _ \<Rightarrow> 500 \<le> s | OtherError _ \<Rightarrow> False)) \<and>
    (case fetch_group http base_url grp of
       Inr rs \<Rightarrow> rs \<noteq> [] \<and> filter (\<lambda>r. \<not> tle_ok r) rs = [] \<and>
         (\<exists>b. http base_url [(''GROUP'', grp), (''FORMAT'', ''TLE'')] = Response 200 b)
     | Inl e \<Rightarrow> \<exists>m. e \<in> {RateLimitedError m, TransientError m, TleNotFound m, CelestrakError m}) \<and>
    fetch_by_catalog_id http base_url n \<noteq> Inl IndexError"
proof (intro conjI)
  let ?ps = "[(''GROUP'', grp), (''FORMAT'', ''TLE'')]"
  show "(\<exists>m. fetch_group http base_url grp = Inl (RateLimitedError m)) \<longleftrightarrow>
      (\<exists>b. http base_url ?ps = Response 403 b)"
    using assms parse_records_Inl
    by (cases "http base_url ?ps")
      (auto simp: fetch_group_def celestrak_get_def Let_def rbind_eq_Inl split: if_splits)
  show "(\<exists>m. fetch_group http base_url grp = Inl (TransientError m)) \<longleftrightarrow>
      (case http base_url ?ps of
         TimeoutException _ \<Rightarrow> True | TransportError _ \<Rightarrow> True | Response s _ \<Rightarrow> 500 \<le> s | OtherError _ \<Rightarrow> False)"
    using assms parse_records_Inl
    by (cases "http base_url ?ps")
      (auto simp: fetch_group_def celestrak_get_def Let_def rbind_eq_Inl split: if_splits)
  show "case fetch_group http base_url grp of
       Inr rs \<Rightarrow> rs \<noteq> [] \<and> filter (\<lambda>r. \<not> tle_ok r) rs = [] \<and> (\<exists>b. http base_url ?ps = Response 200 b)
     | Inl e \<Rightarrow> \<exists>m. e \<in> {RateLimitedError m, TransientError m, TleNotFound m, CelestrakError m}"
  proof (cases "fetch_group http base_url grp")
    case (Inl e)
    then consider "celestrak_get http base_url ?ps = Inl e" | b where "parse_records b = Inl e"
      by (auto simp: fetch_group_def rbind_eq_Inl)
    then show ?thesis
    proof cases
      case 1
      then show ?thesis using Inl assms
        by (cases "http base_url ?ps") (auto simp: celestrak_get_def Let_def split: if_splits)
    next
      case 2
      then show ?thesis using Inl parse_records_Inl[OF 2] by auto
    qed
  next
    case (Inr rs)
    then obtain b where b: "celestrak_get http base_url ?ps = Inr b" "parse_records b = Inr rs"
      by (auto simp: fetch_group_def rbind_eq_Inr)
    have "http base_url ?ps = Response 200 b" by (rule celestrak_get_Inr[OF b(1)])
    then show ?thesis
      using Inr parse_records_nonempty[OF b(2)] parse_records_ok[OF b(2)] by (auto simp: filter_empty_conv)
  qed
  show "fetch_by_catalog_id http base_url n \<noteq> Inl IndexError"
  proof
    let ?qs = "[(''CATNR'', py_str_int n), (''FORMAT'', ''TLE'')]"
    assume e: "fetch_by_catalog_id http base_url n = Inl IndexError"
    then consider "celestrak_get http base_url ?qs = Inl IndexError" | b where "parse_records b = Inl IndexError"
      | b where "parse_records b = Inr []"
      by (auto simp: fetch_by_catalog_id_def rbind_eq_Inl first_or_raise)
    then show False
    proof cases
      case 1
      then show False using assms
        by (cases "http base_url ?qs") (auto simp: celestrak_get_def Let_def split: if_splits)
    next
      case 2
      then show False using parse_records_Inl by blast
    next
      case 3
      then show False using parse_records_nonempty by blast
    qed
  qed
qed

lemma fetch_outcomes_witness:
  "fetch_by_catalog_id (\<lambda>u ps. Response 404 ''x'') ''u'' 25544 \<noteq> Inl IndexError"
  using fetch_outcomes[of "\<lambda>u ps. Response 404 ''x''" "''u''" "''g''" 25544] by simp

end
