(* ===== verification/Passes.thy ===== *)
theory Passes
  imports PyTime
begin

text \<open>
  The pure services \<open>app/tracking/services/propagation.py\<close>, \<open>passes.py\<close> and \<open>_skyfield.py\<close>.
  skyfield is a parameter, the record \<open>skyfield\<close> of the calls the services make: \<open>'s\<close> are its
  satellites, \<open>'o\<close> its observer positions, \<open>'t\<close> its \<open>Time\<close>s. \<open>_skyfield.py\<close>'s cached
  \<open>timescale()\<close> is inside \<open>EarthSatellite\<close> and \<open>from_datetime\<close>.
\<close>

record ('s, 'o, 't) skyfield =
  EarthSatellite :: "string \<Rightarrow> string \<Rightarrow> 's result"
  from_datetime :: "datetime \<Rightarrow> 't"
  utc_datetime :: "'t \<Rightarrow> datetime"
  sat_epoch :: "'s \<Rightarrow> 't"
  latlon :: "real \<Rightarrow> real \<Rightarrow> real \<Rightarrow> 'o"
  find_events :: "'s \<Rightarrow> 'o \<Rightarrow> 't \<Rightarrow> 't \<Rightarrow> real \<Rightarrow> 't list \<times> int list"
  altitude_deg :: "'s \<Rightarrow> 'o \<Rightarrow> 't \<Rightarrow> real"
  subpoint :: "'s \<Rightarrow> 't list \<Rightarrow> real list \<times> real list \<times> real list"

definition build_satellite :: "('s, 'o, 't) skyfield \<Rightarrow> string \<Rightarrow> string \<Rightarrow> 's result" where
  "build_satellite sky l1 l2 = EarthSatellite sky l1 l2"

subsection \<open>Propagation\<close>

record geodetic_point =
  pt_at :: datetime
  pt_latitude :: real
  pt_longitude :: real
  altitude_km :: real

definition tle_epoch :: "('s, 'o, 't) skyfield \<Rightarrow> string \<Rightarrow> string \<Rightarrow> datetime result" where
  "tle_epoch sky l1 l2 =
     rbind (build_satellite sky l1 l2) (\<lambda>satellite. Inr (utc_datetime sky (sat_epoch sky satellite)))"

definition tle_norad_id :: "string \<Rightarrow> int result" where
  "tle_norad_id l1 = py_int 10 (slice 2 7 l1)"

text \<open>\<open>zip(\<dots>, strict=True)\<close> over the instants and the three arrays.\<close>

fun zip_points :: "py_datetime list \<Rightarrow> real list \<Rightarrow> real list \<Rightarrow> real list \<Rightarrow> geodetic_point list result" where
  "zip_points [] [] [] [] = Inr []"
| "zip_points (t # ts) (la # las) (lo # los) (al # als) =
     rbind (zip_points ts las los als) (\<lambda>ps.
       Inr (\<lparr>pt_at = instant_us t, pt_latitude = la, pt_longitude = lo, altitude_km = al\<rparr> # ps))"
| "zip_points _ _ _ _ = Inl (ValueError ''zip() arguments have different lengths'')"

definition subpoints ::
  "('s, 'o, 't) skyfield \<Rightarrow> string \<Rightarrow> string \<Rightarrow> py_datetime list \<Rightarrow> geodetic_point list result" where
  "subpoints sky l1 l2 instants =
     (if instants = [] then Inl (ValueError ''instants must not be empty'')
      else if list_ex (\<lambda>i. \<not> tz_aware i) instants
        then Inl (ValueError ''instants must be timezone-aware (UTC)'')
      else rbind (build_satellite sky l1 l2) (\<lambda>satellite.
        let event_times = map (\<lambda>i. from_datetime sky (instant_us i)) instants;
            (latitudes, longitudes, altitudes) = subpoint sky satellite event_times
        in zip_points instants latitudes longitudes altitudes))"

lemma zip_points_length: "zip_points ts las los als = Inr ps \<Longrightarrow> length ps = length ts"
  by (induction ts las los als arbitrary: ps rule: zip_points.induct) (auto simp: rbind_eq_Inr)

lemma zip_points_at: "zip_points ts las los als = Inr ps \<Longrightarrow> map pt_at ps = map instant_us ts"
  by (induction ts las los als arbitrary: ps rule: zip_points.induct) (auto simp: rbind_eq_Inr)

lemma subpoints_at:
  assumes "subpoints sky l1 l2 instants = Inr ps"
  shows "map pt_at ps = map instant_us instants"
proof -
  obtain satellite where s: "build_satellite sky l1 l2 = Inr satellite"
    using assms by (auto simp: subpoints_def rbind_eq_Inr split: if_splits)
  obtain las los als where
    "subpoint sky satellite (map (\<lambda>i. from_datetime sky (instant_us i)) instants) = (las, los, als)"
    by (cases "subpoint sky satellite (map (\<lambda>i. from_datetime sky (instant_us i)) instants)") auto
  then have "zip_points instants las los als = Inr ps"
    using assms s by (simp add: subpoints_def split: if_splits)
  then show ?thesis by (rule zip_points_at)
qed

lemma subpoints_length: "subpoints sky l1 l2 instants = Inr ps \<Longrightarrow> length ps = length instants"
  using subpoints_at by (metis length_map)

subsection \<open>Sampling a pass\<close>

text \<open>
  \<open>_sample_instants\<close>. The list comprehension divides by \<open>count - 1\<close> (an exception for
  \<open>count = 1\<close>), and \<open>instants[-1] = end\<close> fails on an empty list.
\<close>

definition sample_instants :: "datetime \<Rightarrow> datetime \<Rightarrow> int \<Rightarrow> datetime list result" where
  "sample_instants start end count =
     (if count \<le> 0 then Inl IndexError
      else if count = 1 then Inl ZeroDivisionError
      else let span = end - start;
               instants = map (\<lambda>step. start + div_half_even (span * int step) (count - 1)) [0..<nat count]
           in Inr (instants[length instants - 1 := end]))"

lemma sample_instants_Inr:
  assumes "sample_instants start end count = Inr ts"
  shows "2 \<le> count" "length ts = nat count"
    "\<And>i. i < nat count \<Longrightarrow> ts ! i = start + div_half_even ((end - start) * int i) (count - 1)"
proof -
  show c: "2 \<le> count" using assms by (auto simp: sample_instants_def split: if_splits)
  have ts: "ts = (map (\<lambda>step. start + div_half_even ((end - start) * int step) (count - 1))
      [0..<nat count])[nat count - 1 := end]"
    using assms c by (simp add: sample_instants_def Let_def)
  then show "length ts = nat count" by simp
  show "ts ! i = start + div_half_even ((end - start) * int i) (count - 1)" if "i < nat count" for i
  proof (cases "i = nat count - 1")
    case True
    then have "int i = count - 1" using c by simp
    then show ?thesis
      using ts that True c by (simp add: div_half_even_exact)
  next
    case False
    then show ?thesis using ts that by simp
  qed
qed

lemma sample_instants_ends:
  assumes "sample_instants start end count = Inr ts"
  shows "hd ts = start" "last ts = end"
proof -
  note c = sample_instants_Inr[OF assms]
  have ne: "ts \<noteq> []" using c(1,2) by auto
  show "hd ts = start"
    using c(1) c(3)[of 0] ne div_half_even_exact[of "count - 1" 0] by (simp add: hd_conv_nth)
  have "int (nat count - 1) = count - 1" using c(1) by simp
  then show "last ts = end"
    using c(1) c(2) c(3)[of "nat count - 1"] ne by (simp add: last_conv_nth div_half_even_exact)
qed

lemma sample_instants_sorted:
  assumes "sample_instants start end count = Inr ts" and "start \<le> end"
  shows "sorted ts"
proof -
  note c = sample_instants_Inr[OF assms(1)]
  have "ts ! i \<le> ts ! j" if "i \<le> j" "j < length ts" for i j
    using that c(1,2) c(3)[of i] c(3)[of j] assms(2)
    by (auto intro!: div_half_even_mono mult_left_mono)
  then show ?thesis by (simp add: sorted_iff_nth_mono)
qed

lemma sample_instants_within:
  assumes "sample_instants start end count = Inr ts" and "start \<le> end" and "t \<in> set ts"
  shows "start \<le> t" "t \<le> end"
proof -
  have s: "sorted ts" by (rule sample_instants_sorted[OF assms(1,2)])
  obtain i where i: "i < length ts" "t = ts ! i" using assms(3) by (auto simp: in_set_conv_nth)
  have "ts ! 0 = start" using sample_instants_ends[OF assms(1)] i by (cases ts) auto
  then show "start \<le> t" using s i sorted_nth_mono[of ts 0 i] by simp
  have "ts ! (length ts - 1) = end"
    using sample_instants_ends[OF assms(1)] i by (metis last_conv_nth list.size(3) not_less_zero)
  then show "t \<le> end" using s i sorted_nth_mono[of ts i "length ts - 1"] by simp
qed

subsection \<open>Passes\<close>

record observer_site =
  obs_latitude :: real
  obs_longitude :: real
  elevation_m :: real

record satellite_pass =
  aos_at :: datetime
  los_at :: datetime
  peak_at :: datetime
  peak_elevation_deg :: real
  ground_track :: "(real \<times> real) list"

definition RISE :: int where "RISE = 0"
definition CULMINATE :: int where "CULMINATE = 1"
definition SET :: int where "SET = 2"

lemmas event_codes = RISE_def CULMINATE_def SET_def

text \<open>\<open>_build_pass\<close>; \<open>topos\<close> is the observer's position.\<close>

definition build_pass ::
  "('s, 'o, 't) skyfield \<Rightarrow> string \<Rightarrow> string \<Rightarrow> 'o \<Rightarrow> int \<Rightarrow>
   datetime \<Rightarrow> 't \<Rightarrow> datetime \<Rightarrow> satellite_pass result" where
  "build_pass sky l1 l2 topos track_samples aos peak_time los =
     rbind (build_satellite sky l1 l2) (\<lambda>satellite.
       let altitude = altitude_deg sky satellite topos peak_time in
       rbind (sample_instants aos los track_samples) (\<lambda>instants.
         rbind (subpoints sky l1 l2 (map Aware instants)) (\<lambda>track.
           Inr \<lparr>aos_at = aos, los_at = los, peak_at = utc_datetime sky peak_time,
                peak_elevation_deg = altitude,
                ground_track = map (\<lambda>p. (pt_longitude p, pt_latitude p)) track\<rparr>)))"

text \<open>
  The loop over the events, with its two variables \<open>aos_at\<close> and \<open>peak_time\<close>; \<open>build\<close> is the call
  of \<open>_build_pass\<close> and \<open>utc\<close> is \<open>utc_datetime\<close>. An exception of \<open>build\<close> ends the loop.
\<close>

fun scan_events ::
  "('t \<Rightarrow> datetime) \<Rightarrow> (datetime \<Rightarrow> 't \<Rightarrow> datetime \<Rightarrow> satellite_pass result) \<Rightarrow>
   datetime option \<Rightarrow> 't option \<Rightarrow> ('t \<times> int) list \<Rightarrow> satellite_pass list result" where
  "scan_events utc build aos peak [] = Inr []"
| "scan_events utc build aos peak ((event_time, code) # es) =
     (if code = RISE then scan_events utc build (Some (utc event_time)) None es
      else if code = CULMINATE \<and> aos \<noteq> None then scan_events utc build aos (Some event_time) es
      else if code = SET \<and> aos \<noteq> None \<and> peak \<noteq> None then
        rbind (build (the aos) (the peak) (utc event_time)) (\<lambda>p.
          rbind (scan_events utc build None None es) (\<lambda>ps. Inr (p # ps)))
      else if code = SET then scan_events utc build None None es
      else scan_events utc build aos peak es)"

definition compute_passes ::
  "('s, 'o, 't) skyfield \<Rightarrow> string \<Rightarrow> string \<Rightarrow> observer_site \<Rightarrow> py_datetime \<times> py_datetime \<Rightarrow>
   real \<Rightarrow> int \<Rightarrow> satellite_pass list result" where
  "compute_passes sky l1 l2 observer window min_elevation_deg track_samples =
     (let (start, end) = window in
      if \<not> tz_aware start \<or> \<not> tz_aware end
        then Inl (ValueError ''window bounds must be timezone-aware (UTC)'')
      else if instant_us start \<ge> instant_us end
        then Inl (ValueError ''window start must be earlier than end'')
      else if \<not> (0 < min_elevation_deg \<and> min_elevation_deg < 90)
        then Inl (ValueError ''min_elevation_deg must be in (0, 90)'')
      else if track_samples < 2
        then Inl (ValueError ''track_samples must be at least 2'')
      else rbind (build_satellite sky l1 l2) (\<lambda>satellite.
        let topos = latlon sky (obs_latitude observer) (obs_longitude observer) (elevation_m observer);
            (event_times, events) = find_events sky satellite topos
               (from_datetime sky (instant_us start)) (from_datetime sky (instant_us end))
               min_elevation_deg
        in if length event_times \<noteq> length events
           then Inl (ValueError ''zip() arguments have different lengths'')
           else scan_events (utc_datetime sky) (build_pass sky l1 l2 topos track_samples)
                  None None (zip event_times events)))"

subsection \<open>What the loop finds\<close>

text \<open>
  The loop without \<open>_build_pass\<close>: the rise, culmination and set of each pass it reports.
\<close>

fun scan_triples :: "'t option \<Rightarrow> 't option \<Rightarrow> ('t \<times> int) list \<Rightarrow> ('t \<times> 't \<times> 't) list" where
  "scan_triples aos peak [] = []"
| "scan_triples aos peak ((t, code) # es) =
     (if code = RISE then scan_triples (Some t) None es
      else if code = CULMINATE \<and> aos \<noteq> None then scan_triples aos (Some t) es
      else if code = SET \<and> aos \<noteq> None \<and> peak \<noteq> None
        then (the aos, the peak, t) # scan_triples None None es
      else if code = SET then scan_triples None None es
      else scan_triples aos peak es)"

lemma scan_events_triples:
  "scan_events utc build (map_option utc aos) peak es =
   map_r (\<lambda>(a, p, l). build (utc a) p (utc l)) (scan_triples aos peak es)"
proof (induction aos peak es rule: scan_triples.induct)
  case (1 aos peak)
  then show ?case by simp
next
  case (2 aos peak t code es)
  have none: "map_option utc None = None" and some: "map_option utc (Some t) = Some (utc t)" by simp_all
  show ?case
    using 2 unfolding none some
    by (cases aos) (auto simp: event_codes intro!: rbind_cong)
qed

text \<open>
  A complete pass of an event sequence, without reference to the loop: a rise and the next set,
  with nothing but culminations (at least one) between them; its peak is the last culmination.
\<close>

definition culminations :: "('t \<times> int) list \<Rightarrow> 't list" where
  "culminations mid = map fst (filter (\<lambda>e. snd e = CULMINATE) mid)"

definition no_edge :: "('t \<times> int) list \<Rightarrow> bool" where
  "no_edge mid \<longleftrightarrow> (\<forall>e \<in> set mid. snd e \<noteq> RISE \<and> snd e \<noteq> SET)"

definition complete_pass :: "('t \<times> int) list \<Rightarrow> 't \<times> 't \<times> 't \<Rightarrow> bool" where
  "complete_pass es pass \<longleftrightarrow> (\<exists>pre mid post.
     es = pre @ (fst pass, RISE) # mid @ (snd (snd pass), SET) # post \<and> no_edge mid \<and>
     culminations mid \<noteq> [] \<and> fst (snd pass) = last (culminations mid))"

lemma complete_pass_Cons:
  "complete_pass ((t, code) # es) (a, p, l) \<longleftrightarrow>
     complete_pass es (a, p, l) \<or>
     (code = RISE \<and> a = t \<and> (\<exists>mid post. es = mid @ (l, SET) # post \<and> no_edge mid \<and>
        culminations mid \<noteq> [] \<and> p = last (culminations mid)))"
  (is "?lhs \<longleftrightarrow> _ \<or> ?first")
proof
  assume ?lhs
  then obtain pre mid post where es: "(t, code) # es = pre @ (a, RISE) # mid @ (l, SET) # post"
    "no_edge mid" "culminations mid \<noteq> []" "p = last (culminations mid)"
    by (auto simp: complete_pass_def)
  show "complete_pass es (a, p, l) \<or> ?first"
  proof (cases pre)
    case Nil
    then show ?thesis using es by auto
  next
    case (Cons e pre')
    then have "complete_pass es (a, p, l)"
      using es by (auto simp: complete_pass_def)
    then show ?thesis ..
  qed
next
  assume "complete_pass es (a, p, l) \<or> ?first"
  then show ?lhs
  proof
    assume "complete_pass es (a, p, l)"
    then obtain pre mid post where "es = pre @ (a, RISE) # mid @ (l, SET) # post"
      "no_edge mid" "culminations mid \<noteq> []" "p = last (culminations mid)"
      by (auto simp: complete_pass_def)
    then show ?lhs unfolding complete_pass_def
      by (intro exI[of _ "(t, code) # pre"] exI[of _ mid] exI[of _ post]) auto
  next
    assume ?first
    then obtain mid post where "code = RISE" "a = t" "es = mid @ (l, SET) # post" "no_edge mid"
      "culminations mid \<noteq> []" "p = last (culminations mid)" by blast
    then show ?lhs unfolding complete_pass_def
      by (intro exI[of _ "[]"] exI[of _ mid] exI[of _ post]) auto
  qed
qed

text \<open>What the loop still owes a pass whose rise it has seen: \<open>peak\<close> is the culmination so far.\<close>

definition open_pass :: "'t option \<Rightarrow> ('t \<times> int) list \<Rightarrow> 't \<Rightarrow> 't \<Rightarrow> bool" where
  "open_pass peak es p l \<longleftrightarrow> (\<exists>mid post. es = mid @ (l, SET) # post \<and> no_edge mid \<and>
     (if culminations mid = [] then peak = Some p else p = last (culminations mid)))"

lemma open_pass_Nil: "\<not> open_pass peak [] p l"
  by (simp add: open_pass_def)

lemma open_pass_Cons:
  "open_pass peak ((t, code) # es) p l \<longleftrightarrow>
     (if code = RISE then False
      else if code = SET then peak = Some p \<and> l = t
      else if code = CULMINATE then open_pass (Some t) es p l
      else open_pass peak es p l)"
  (is "_ \<longleftrightarrow> ?rhs")
proof
  assume "open_pass peak ((t, code) # es) p l"
  then obtain mid post where m: "(t, code) # es = mid @ (l, SET) # post" "no_edge mid"
    "if culminations mid = [] then peak = Some p else p = last (culminations mid)"
    by (auto simp: open_pass_def)
  then show ?rhs
    by (cases mid) (fastforce simp: no_edge_def culminations_def open_pass_def event_codes split: if_splits)+
next
  assume rhs: ?rhs
  have cons: "\<exists>mid post. (t, code) # es = mid @ (l, SET) # post \<and> no_edge mid \<and>
     (if culminations mid = [] then peak = Some p else p = last (culminations mid))"
    if inner: "code \<noteq> RISE" "code \<noteq> SET" and rest: "open_pass pk es p l"
      and pk: "pk = (if code = CULMINATE then Some t else peak)" for pk
  proof -
    obtain mid post where m: "es = mid @ (l, SET) # post" "no_edge mid"
      "if culminations mid = [] then pk = Some p else p = last (culminations mid)"
      using rest by (auto simp: open_pass_def)
    have "no_edge ((t, code) # mid)" using m(2) inner by (auto simp: no_edge_def)
    moreover have "culminations ((t, code) # mid) =
        (if code = CULMINATE then t # culminations mid else culminations mid)"
      by (simp add: culminations_def)
    ultimately show ?thesis
      using m(1,3) pk by (intro exI[of _ "(t, code) # mid"] exI[of _ post]) (auto split: if_splits)
  qed
  show "open_pass peak ((t, code) # es) p l"
    unfolding open_pass_def
  proof (cases "code = SET")
    case True
    then show "\<exists>mid post. (t, code) # es = mid @ (l, SET) # post \<and> no_edge mid \<and>
       (if culminations mid = [] then peak = Some p else p = last (culminations mid))"
      using rhs by (intro exI[of _ "[]"] exI[of _ es])
        (auto simp: no_edge_def culminations_def event_codes split: if_splits)
  next
    case False
    then show "\<exists>mid post. (t, code) # es = mid @ (l, SET) # post \<and> no_edge mid \<and>
       (if culminations mid = [] then peak = Some p else p = last (culminations mid))"
      using rhs cons by (auto split: if_splits)
  qed
qed

lemma complete_open:
  "complete_pass ((t, code) # es) (a, p, l) \<longleftrightarrow>
     complete_pass es (a, p, l) \<or> (code = RISE \<and> a = t \<and> open_pass None es p l)"
  unfolding complete_pass_Cons open_pass_def by auto

theorem scan_triples_complete:
  assumes "aos = None \<Longrightarrow> peak = None"
  shows "(a, p, l) \<in> set (scan_triples aos peak es) \<longleftrightarrow>
     complete_pass es (a, p, l) \<or> (aos = Some a \<and> open_pass peak es p l)"
  using assms
proof (induction aos peak es rule: scan_triples.induct)
  case (1 aos peak)
  then show ?case by (simp add: complete_pass_def open_pass_Nil)
next
  case (2 aos peak t code es)
  show ?case
    using 2 by (auto simp: complete_open open_pass_Cons event_codes)
qed

subsection \<open>Order of the reported passes\<close>

lemma scan_triples_times:
  "(a, p, l) \<in> set (scan_triples aos peak es) \<Longrightarrow>
   l \<in> fst ` set es \<and> (aos = Some a \<or> a \<in> fst ` set es)"
  by (induction aos peak es rule: scan_triples.induct) (auto split: if_splits)

definition ordered_triples :: "('t \<Rightarrow> datetime) \<Rightarrow> ('t \<times> 't \<times> 't) list \<Rightarrow> bool" where
  "ordered_triples utc ps \<longleftrightarrow>
     (\<forall>(a, p, l) \<in> set ps. utc a < utc p \<and> utc p < utc l) \<and>
     sorted_wrt (\<lambda>(a, p, l) (a', p', l'). utc l < utc a') ps"

lemma ordered_triples_Cons:
  "ordered_triples utc ((a, p, l) # ps) \<longleftrightarrow>
     utc a < utc p \<and> utc p < utc l \<and> (\<forall>(a', p', l') \<in> set ps. utc l < utc a') \<and> ordered_triples utc ps"
  by (auto simp: ordered_triples_def)

lemma scan_triples_ordered:
  assumes "sorted_wrt (\<lambda>e e'. utc (fst e) < utc (fst e')) es"
    and "\<forall>a. aos = Some a \<longrightarrow> (\<forall>e \<in> set es. utc a < utc (fst e))"
    and "\<forall>q. peak = Some q \<longrightarrow> (\<forall>e \<in> set es. utc q < utc (fst e)) \<and> (\<forall>a. aos = Some a \<longrightarrow> utc a < utc q)"
  shows "ordered_triples utc (scan_triples aos peak es)"
  using assms
proof (induction aos peak es rule: scan_triples.induct)
  case (1 aos peak)
  then show ?case by (simp add: ordered_triples_def)
next
  case (2 aos peak t code es)
  have later: "\<forall>e \<in> set es. utc t < utc (fst e)" using "2.prems"(1) by simp
  have rest: "\<forall>(a, p, l) \<in> set (scan_triples None None es). utc t < utc a"
    using later scan_triples_times by fastforce
  show ?case
    using 2 later rest by (auto simp: ordered_triples_Cons event_codes)
qed

subsection \<open>The service\<close>

lemma build_pass_track:
  assumes "sample_instants aos los n = Inr ts" and "subpoints sky l1 l2 (map Aware ts) = Inr track"
  shows "length track = nat n"
  using subpoints_length[OF assms(2)] sample_instants_Inr(2)[OF assms(1)] by simp

lemma build_pass_Inr:
  assumes "build_pass sky l1 l2 topos n aos peak los = Inr p"
  shows "aos_at p = aos" "los_at p = los" "peak_at p = utc_datetime sky peak"
    "length (ground_track p) = nat n"
    "EarthSatellite sky l1 l2 = Inr s \<Longrightarrow> peak_elevation_deg p = altitude_deg sky s topos peak"
  using assms
  by (auto simp: build_pass_def rbind_eq_Inr Let_def build_satellite_def intro: build_pass_track)

text \<open>A successful call: the satellite and events skyfield gave, and one pass per triple.\<close>

lemma compute_passes_Inr:
  assumes "compute_passes sky l1 l2 obs (Aware t0, Aware t1) min_el n = Inr ps"
    and "EarthSatellite sky l1 l2 = Inr s"
    and "find_events sky s (latlon sky (obs_latitude obs) (obs_longitude obs) (elevation_m obs))
           (from_datetime sky t0) (from_datetime sky t1) min_el = (event_times, codes)"
  shows "list_all2 (\<lambda>(a, p, l) pass.
      build_pass sky l1 l2 (latlon sky (obs_latitude obs) (obs_longitude obs) (elevation_m obs)) n
        (utc_datetime sky a) p (utc_datetime sky l) = Inr pass)
    (scan_triples None None (zip event_times codes)) ps" "2 \<le> n"
proof -
  let ?b = "build_pass sky l1 l2 (latlon sky (obs_latitude obs) (obs_longitude obs) (elevation_m obs)) n"
  have "scan_events (utc_datetime sky) ?b None None (zip event_times codes) = Inr ps"
    using assms by (auto simp: compute_passes_def build_satellite_def split: if_splits)
  then have "map_r (\<lambda>(a, p, l). ?b (utc_datetime sky a) p (utc_datetime sky l))
      (scan_triples None None (zip event_times codes)) = Inr ps"
    using scan_events_triples[of "utc_datetime sky" ?b None None "zip event_times codes"] by simp
  then show "list_all2 (\<lambda>(a, p, l) pass. ?b (utc_datetime sky a) p (utc_datetime sky l) = Inr pass)
      (scan_triples None None (zip event_times codes)) ps"
    by (simp add: map_r_Inr_iff case_prod_unfold)
  show "2 \<le> n" using assms(1) by (auto simp: compute_passes_def split: if_splits)
qed

lemma compute_passes_times:
  assumes "compute_passes sky l1 l2 obs (Aware t0, Aware t1) min_el n = Inr ps"
    and "EarthSatellite sky l1 l2 = Inr s"
    and "find_events sky s (latlon sky (obs_latitude obs) (obs_longitude obs) (elevation_m obs))
           (from_datetime sky t0) (from_datetime sky t1) min_el = (event_times, codes)"
  shows "map (\<lambda>pass. (aos_at pass, peak_at pass, los_at pass)) ps =
    map (\<lambda>(a, p, l). (utc_datetime sky a, utc_datetime sky p, utc_datetime sky l))
      (scan_triples None None (zip event_times codes))"
  using compute_passes_Inr(1)[OF assms]
  by (induction rule: list_all2_induct) (auto dest: build_pass_Inr)

subsection \<open>A small library for the witnesses\<close>

text \<open>
  Every TLE is accepted, and every search finds one pass: rise, culmination and set one, two and three
  seconds after its start.
\<close>

definition sample_sky :: "(string, unit, int) skyfield" where
  "sample_sky = \<lparr>
     EarthSatellite = (\<lambda>l1 l2. Inr l1),
     from_datetime = (\<lambda>t. t),
     utc_datetime = (\<lambda>t. t),
     sat_epoch = (\<lambda>s. 7),
     latlon = (\<lambda>lat lon el. ()),
     find_events = (\<lambda>s o' t0 t1 el.
       ([t0 + seconds 1, t0 + seconds 2, t0 + seconds 3], [RISE, CULMINATE, SET])),
     altitude_deg = (\<lambda>s o' t. 45),
     subpoint = (\<lambda>s ts. (map (\<lambda>_. 0) ts, map (\<lambda>_. 0) ts, map (\<lambda>_. 0) ts))\<rparr>"

subsection \<open>When the service cannot fail\<close>

text \<open>
  What skyfield's documentation says and the service relies on: \<open>find_events\<close> gives its events in
  chronological order (at distinct instants), one code per time, and \<open>subpoint\<close> one value per time.
\<close>

definition skyfield_ok :: "('s, 'o, 't) skyfield \<Rightarrow> bool" where
  "skyfield_ok sky \<longleftrightarrow>
     (\<forall>s topos t0 t1 el event_times codes.
        find_events sky s topos t0 t1 el = (event_times, codes) \<longrightarrow>
        length event_times = length codes \<and>
        sorted_wrt (\<lambda>t t'. utc_datetime sky t < utc_datetime sky t') event_times) \<and>
     (\<forall>s ts las los als. subpoint sky s ts = (las, los, als) \<longrightarrow>
        length las = length ts \<and> length los = length ts \<and> length als = length ts)"

lemma sample_sky_ok: "skyfield_ok sample_sky"
  by (simp add: skyfield_ok_def sample_sky_def)

lemma zip_points_total:
  "length las = length ts \<Longrightarrow> length los = length ts \<Longrightarrow> length als = length ts \<Longrightarrow>
   \<exists>ps. zip_points ts las los als = Inr ps"
  by (induction ts las los als rule: zip_points.induct) auto

lemma build_pass_total:
  assumes "skyfield_ok sky" and "EarthSatellite sky l1 l2 = Inr s" and "2 \<le> n"
  shows "\<exists>p. build_pass sky l1 l2 topos n aos peak los = Inr p"
proof -
  obtain ts where ts: "sample_instants aos los n = Inr ts"
    using assms(3) by (simp add: sample_instants_def Let_def)
  have ne: "ts \<noteq> []" using sample_instants_Inr(1,2)[OF ts] by auto
  let ?times = "map (\<lambda>i. from_datetime sky (instant_us i)) (map Aware ts)"
  obtain las lns als where sub: "subpoint sky s ?times = (las, lns, als)" by (metis prod_cases3)
  then have "length las = length (map Aware ts) \<and> length lns = length (map Aware ts) \<and>
      length als = length (map Aware ts)"
    using assms(1) unfolding skyfield_ok_def by (metis length_map)
  then obtain ps where "zip_points (map Aware ts) las lns als = Inr ps" using zip_points_total by blast
  then have "subpoints sky l1 l2 (map Aware ts) = Inr ps"
    using ne sub assms(2) by (simp add: subpoints_def build_satellite_def list_ex_iff comp_def)
  then show ?thesis using ts assms(2) by (simp add: build_pass_def build_satellite_def Let_def)
qed

lemma ordered_triples_distinct: "ordered_triples utc ps \<Longrightarrow> distinct (map (\<lambda>(a, p, l). utc a) ps)"
  by (induction ps) (fastforce simp: ordered_triples_Cons ordered_triples_def)+

lemma scan_zip_ordered:
  assumes "length event_times = length codes" and "sorted_wrt (\<lambda>t t'. utc t < utc t') event_times"
  shows "ordered_triples utc (scan_triples None None (zip event_times codes))"
proof (rule scan_triples_ordered)
  have "sorted_wrt (\<lambda>t t'. utc t < utc t') (map fst (zip event_times codes))"
    using assms by simp
  then show "sorted_wrt (\<lambda>e e'. utc (fst e) < utc (fst e')) (zip event_times codes)"
    unfolding sorted_wrt_map .
qed simp_all

lemma compute_passes_total:
  assumes sky: "skyfield_ok sky" and sat: "EarthSatellite sky l1 l2 = Inr s" and "t0 < t1"
    and "0 < min_el" "min_el < 90" and n: "2 \<le> n"
  shows "\<exists>ps. compute_passes sky l1 l2 obs (Aware t0, Aware t1) min_el n = Inr ps \<and>
    distinct (map aos_at ps) \<and> (\<forall>p \<in> set ps. length (ground_track p) = nat n)"
proof -
  let ?topos = "latlon sky (obs_latitude obs) (obs_longitude obs) (elevation_m obs)"
  obtain ets codes where fe:
    "find_events sky s ?topos (from_datetime sky t0) (from_datetime sky t1) min_el = (ets, codes)"
    by fastforce
  then have ev: "length ets = length codes" "sorted_wrt (\<lambda>t t'. utc_datetime sky t < utc_datetime sky t') ets"
    using sky unfolding skyfield_ok_def by blast+
  let ?b = "\<lambda>(a, p, l). build_pass sky l1 l2 ?topos n (utc_datetime sky a) p (utc_datetime sky l)"
  let ?ts = "scan_triples None None (zip ets codes)"
  have "\<forall>x. \<exists>p. ?b x = Inr p" using build_pass_total[OF sky sat n] by auto
  then obtain g where g: "\<And>x. ?b x = Inr (g x)" by metis
  have "map_r ?b ?ts = Inr (map g ?ts)" by (rule map_r_total) (rule g)
  then have "scan_events (utc_datetime sky) (build_pass sky l1 l2 ?topos n) None None (zip ets codes) = Inr (map g ?ts)"
    using scan_events_triples[of "utc_datetime sky" "build_pass sky l1 l2 ?topos n" None None "zip ets codes"] by simp
  then have run: "compute_passes sky l1 l2 obs (Aware t0, Aware t1) min_el n = Inr (map g ?ts)"
    using assms(2-6) fe ev(1) by (simp add: compute_passes_def build_satellite_def)
  have "aos_at (g x) = (\<lambda>(a, p, l). utc_datetime sky a) x" for x
    using g[of x] build_pass_Inr(1) by (cases x) auto
  then have "distinct (map aos_at (map g ?ts))"
    using ordered_triples_distinct[OF scan_zip_ordered[OF ev]] by (simp add: comp_def)
  moreover have "length (ground_track (g x)) = nat n" for x
    using g[of x] build_pass_Inr(4) by (cases x) auto
  ultimately show ?thesis using run by (intro exI[of _ "map g ?ts"]) auto
qed

text \<open>Each pass rises before its peak and sets after it, and the next one rises later.\<close>

lemma compute_passes_order:
  assumes run: "compute_passes sky l1 l2 obs (Aware t0, Aware t1) min_el n = Inr ps"
    and "EarthSatellite sky l1 l2 = Inr s" and "skyfield_ok sky"
  shows "sorted_wrt (\<lambda>x y. los_at x < aos_at y) ps"
    "pass \<in> set ps \<Longrightarrow> aos_at pass < peak_at pass \<and> peak_at pass < los_at pass"
    "sorted (map aos_at ps)"
proof -
  obtain ets codes where fe: "find_events sky s (latlon sky (obs_latitude obs) (obs_longitude obs) (elevation_m obs))
      (from_datetime sky t0) (from_datetime sky t1) min_el = (ets, codes)"
    by fastforce
  then have ev: "length ets = length codes" "sorted_wrt (\<lambda>t t'. utc_datetime sky t < utc_datetime sky t') ets"
    using assms(3) unfolding skyfield_ok_def by blast+
  let ?ts = "scan_triples None None (zip ets codes)"
  let ?times = "map (\<lambda>(a, p, l). (utc_datetime sky a, utc_datetime sky p, utc_datetime sky l)) ?ts"
  note times = compute_passes_times[OF assms(1,2) fe]
  have ord: "ordered_triples (utc_datetime sky) ?ts" by (rule scan_zip_ordered[OF ev])
  then have "sorted_wrt (\<lambda>(a, p, l) (a', p', l'). l < a') ?times"
    by (simp add: ordered_triples_def sorted_wrt_map case_prod_unfold)
  then show order: "sorted_wrt (\<lambda>x y. los_at x < aos_at y) ps"
    unfolding times[symmetric] sorted_wrt_map by simp
  have inside: "aos_at x < peak_at x \<and> peak_at x < los_at x" if "x \<in> set ps" for x
  proof -
    have "(aos_at x, peak_at x, los_at x) \<in> set ?times" unfolding times[symmetric] using that by simp
    then show ?thesis using ord by (fastforce simp: ordered_triples_def)
  qed
  then show "pass \<in> set ps \<Longrightarrow> aos_at pass < peak_at pass \<and> peak_at pass < los_at pass" .
  have "sorted_wrt (\<lambda>x y. aos_at x \<le> aos_at y) ps"
    by (rule sorted_wrt_mono_rel[OF _ order]) (use inside in fastforce)
  then show "sorted (map aos_at ps)" by (simp add: sorted_map)
qed

subsection \<open>Properties\<close>

lemma scan_complete_start:
  "(a, p, l) \<in> set (scan_triples None None es) \<longleftrightarrow> complete_pass es (a, p, l)"
  using scan_triples_complete[of None None a p l es] by simp

text \<open>C16. The service reports exactly the complete passes of the window. A reported pass is a rise and the
  next set among skyfield's events, with at least one culmination between them (the last of these is
  the peak, and the elevation is the altitude there), every such pass is reported, a pass cut by the
  edge of the window is not, and each has the requested number of track points. The passes come in
  order and do not overlap, and each rises before its peak and sets after it.\<close>

theorem compute_passes_complete:
  assumes "compute_passes sky l1 l2 obs (Aware t0, Aware t1) min_el n = Inr ps"
    and "EarthSatellite sky l1 l2 = Inr s" and "skyfield_ok sky"
    and "topos = latlon sky (obs_latitude obs) (obs_longitude obs) (elevation_m obs)"
    and "find_events sky s topos (from_datetime sky t0) (from_datetime sky t1) min_el = (event_times, codes)"
  shows "(\<forall>pass \<in> set ps. length (ground_track pass) = nat n \<and> (\<exists>a p l.
        complete_pass (zip event_times codes) (a, p, l) \<and> aos_at pass = utc_datetime sky a \<and>
        peak_at pass = utc_datetime sky p \<and> los_at pass = utc_datetime sky l \<and>
        peak_elevation_deg pass = altitude_deg sky s topos p)) \<and>
    (\<forall>a p l. complete_pass (zip event_times codes) (a, p, l) \<longrightarrow>
      (\<exists>pass \<in> set ps. aos_at pass = utc_datetime sky a \<and> peak_at pass = utc_datetime sky p \<and>
         los_at pass = utc_datetime sky l)) \<and>
    sorted_wrt (\<lambda>x y. los_at x < aos_at y) ps \<and>
    (\<forall>pass \<in> set ps. aos_at pass < peak_at pass \<and> peak_at pass < los_at pass)"
proof -
  let ?ts = "scan_triples None None (zip event_times codes)"
  have ev: "length event_times = length codes"
    "sorted_wrt (\<lambda>t t'. utc_datetime sky t < utc_datetime sky t') event_times"
    using assms(3,5) unfolding skyfield_ok_def by blast+
  note built = compute_passes_Inr(1)[OF assms(1,2) assms(5)[unfolded assms(4)], folded assms(4)]
  note times = compute_passes_times[OF assms(1,2) assms(5)[unfolded assms(4)]]
  have "length (ground_track pass) = nat n \<and> (\<exists>a p l.
        complete_pass (zip event_times codes) (a, p, l) \<and> aos_at pass = utc_datetime sky a \<and>
        peak_at pass = utc_datetime sky p \<and> los_at pass = utc_datetime sky l \<and>
        peak_elevation_deg pass = altitude_deg sky s topos p)" if pass: "pass \<in> set ps" for pass
  proof -
    obtain i where i: "i < length ps" "ps ! i = pass" using pass by (auto simp: in_set_conv_nth)
    obtain a p l where t: "?ts ! i = (a, p, l)" by (metis prod_cases3)
    have b: "build_pass sky l1 l2 topos n (utc_datetime sky a) p (utc_datetime sky l) = Inr pass"
      using list_all2_nthD2[OF built i(1)] t i(2) by simp
    have "(a, p, l) \<in> set ?ts" using i(1) t list_all2_lengthD[OF built] by (metis nth_mem)
    then have "complete_pass (zip event_times codes) (a, p, l)" by (simp add: scan_complete_start)
    then show ?thesis using build_pass_Inr(1-4)[OF b] build_pass_Inr(5)[OF b assms(2)] by blast
  qed
  moreover have "\<exists>pass \<in> set ps. aos_at pass = utc_datetime sky a \<and> peak_at pass = utc_datetime sky p \<and>
         los_at pass = utc_datetime sky l" if c: "complete_pass (zip event_times codes) (a, p, l)" for a p l
  proof -
    have "(a, p, l) \<in> set ?ts" using c by (simp add: scan_complete_start)
    then have "(utc_datetime sky a, utc_datetime sky p, utc_datetime sky l) \<in>
        set (map (\<lambda>(a, p, l). (utc_datetime sky a, utc_datetime sky p, utc_datetime sky l)) ?ts)"
      by force
    then show ?thesis unfolding times[symmetric] by auto
  qed
  moreover have "\<forall>pass \<in> set ps. aos_at pass < peak_at pass \<and> peak_at pass < los_at pass"
    using compute_passes_order(2)[OF assms(1-3)] by blast
  ultimately show ?thesis using compute_passes_order(1)[OF assms(1-3)] by blast
qed

definition sample_site :: observer_site where
  "sample_site = \<lparr>obs_latitude = 40, obs_longitude = - 4, elevation_m = 0\<rparr>"

lemma compute_passes_complete_witness:
  "\<exists>ps. compute_passes sample_sky ''1'' ''2'' sample_site (Aware 0, Aware 100) 10 24 = Inr ps \<and>
     (\<exists>pass \<in> set ps. aos_at pass = seconds 1 \<and> peak_at pass = seconds 2 \<and> los_at pass = seconds 3)"
proof -
  have sat: "EarthSatellite sample_sky ''1'' ''2'' = Inr ''1''" by (simp add: sample_sky_def)
  obtain ps where run: "compute_passes sample_sky ''1'' ''2'' sample_site (Aware 0, Aware 100) 10 24 = Inr ps"
    using compute_passes_total[OF sample_sky_ok sat, of 0 100 10 24 sample_site] by auto
  have fe: "find_events sample_sky ''1'' () (from_datetime sample_sky 0) (from_datetime sample_sky 100) 10 =
      ([seconds 1, seconds 2, seconds 3], [RISE, CULMINATE, SET])"
    by (simp add: sample_sky_def)
  have "complete_pass (zip [seconds 1, seconds 2, seconds 3] [RISE, CULMINATE, SET]) (seconds 1, seconds 2, seconds 3)"
    unfolding scan_complete_start[symmetric] by (simp add: event_codes)
  moreover have "() = latlon sample_sky (obs_latitude sample_site) (obs_longitude sample_site) (elevation_m sample_site)"
    by simp
  moreover have "utc_datetime sample_sky t = t" for t by (simp add: sample_sky_def)
  ultimately show ?thesis
    using compute_passes_complete[OF run sat sample_sky_ok _ fe] run by force
qed

text \<open>C30. The instants a track is sampled at: as many as asked for, in order, the first at the rise and the
  last exactly at the set, all between them, and each within half a microsecond of its even share of
  the span.\<close>

theorem sample_instants_even:
  assumes "sample_instants start end count = Inr ts" and "start \<le> end"
  shows "length ts = nat count \<and> sorted ts \<and> hd ts = start \<and> last ts = end \<and>
    (\<forall>t \<in> set ts. start \<le> t \<and> t \<le> end) \<and>
    (\<forall>i < nat count. \<bar>2 * ((ts ! i - start) * (count - 1) - (end - start) * int i)\<bar> \<le> count - 1)"
proof -
  note c = sample_instants_Inr[OF assms(1)]
  have "\<bar>2 * ((ts ! i - start) * (count - 1) - (end - start) * int i)\<bar> \<le> count - 1" if "i < nat count" for i
    using div_half_even_bounds[of "count - 1" "(end - start) * int i"] c(1) c(3)[OF that]
    by (simp add: abs_le_iff mult.commute algebra_simps)
  then show ?thesis
    using c(2) sample_instants_sorted[OF assms] sample_instants_ends[OF assms(1)]
      sample_instants_within[OF assms] by blast
qed

lemma sample_instants_even_witness: "\<exists>ts. sample_instants 0 10 4 = Inr ts \<and> sorted ts \<and> last ts = 10"
proof -
  obtain ts where "sample_instants 0 10 4 = Inr ts" by (simp add: sample_instants_def Let_def)
  then show ?thesis using sample_instants_even[of 0 10 4 ts] by simp
qed


end
