(* ===== verification/Ingest.thy ===== *)
theory Ingest
  imports Db Celestrak Passes Jobs
begin

text \<open>
  The TLE ingest: \<open>app/tracking/use_cases/ingest_tles.py\<close>, the job that runs it
  (\<open>app/core/jobs/handlers/tle_refresh.py\<close>) and the client registry it takes its source from
  (\<open>app/core/celestrak/registry.py\<close>). The source of TLEs is the function \<open>fetch\<close> (the protocol
  \<open>CelestrakClient\<close>); \<open>now\<close> is the transaction's time.
  The lemmas follow one record through the upsert and the published event; the properties say what
  a whole ingest does to the tables, that repeating it changes nothing, and that the job's
  transaction keeps satellites and events together.
\<close>

definition refreshed_payload :: "satellite \<Rightarrow> int \<Rightarrow> payload" where
  "refreshed_payload s n = [(''satellite_id'', JStr (uuid_str (sat_id s))), (''norad_id'', JInt n)]"

definition publish_refreshed ::
  "settings \<Rightarrow> (uuid list \<Rightarrow> uuid) \<Rightarrow> datetime \<Rightarrow> satellite \<Rightarrow> int \<Rightarrow> 'w db \<Rightarrow> 'w db result" where
  "publish_refreshed cfg gen now s n d =
     rbind (publish cfg gen now ''tle.refreshed'' (refreshed_payload s n) (Some (sat_id s)) None (events d))
       (\<lambda>(ev, evs, chan, msg). Inr (d\<lparr>events := evs, notified := notified d @ [(chan, msg)]\<rparr>))"

text \<open>The body of the loop over the records; the state is the tables and \<open>changed\<close>.\<close>

definition ingest_record ::
  "settings \<Rightarrow> (uuid list \<Rightarrow> uuid) \<Rightarrow> datetime \<Rightarrow> ('s, 'o, 't) skyfield \<Rightarrow> tle_record \<Rightarrow>
   'w db \<times> nat \<Rightarrow> ('w db \<times> nat) result" where
  "ingest_record cfg gen now sky rec st =
     (let (d, changed) = st in
      rbind (tle_norad_id (line1 rec)) (\<lambda>n.
        case get_by_norad_id n (satellites d) of
          None \<Rightarrow>
            rbind (tle_epoch sky (line1 rec) (line2 rec)) (\<lambda>ep.
            rbind (repo_create satellite_violation
                     \<lparr>sat_id = gen (map sat_id (satellites d)), norad_id = n, sat_name = tle_name rec,
                      tle_line1 = line1 rec, tle_line2 = line2 rec, epoch = ep,
                      sat_created_at = now, sat_updated_at = None\<rparr> (satellites d)) (\<lambda>(s, sats).
            rbind (publish_refreshed cfg gen now s n (d\<lparr>satellites := sats\<rparr>)) (\<lambda>d'.
            Inr (d', changed + 1))))
        | Some existing \<Rightarrow>
            if tle_line1 existing \<noteq> line1 rec \<or> tle_line2 existing \<noteq> line2 rec then
              rbind (tle_epoch sky (line1 rec) (line2 rec)) (\<lambda>ep.
              rbind (update_satellite now existing
                       [Attr_name (tle_name rec), Attr_tle_line1 (line1 rec),
                        Attr_tle_line2 (line2 rec), Attr_epoch ep] (satellites d)) (\<lambda>(s, sats).
              rbind (publish_refreshed cfg gen now s n (d\<lparr>satellites := sats\<rparr>)) (\<lambda>d'.
              Inr (d', changed + 1))))
            else Inr (d, changed)))"

definition ingest_tles ::
  "settings \<Rightarrow> (uuid list \<Rightarrow> uuid) \<Rightarrow> datetime \<Rightarrow> ('s, 'o, 't) skyfield \<Rightarrow>
   (string \<Rightarrow> tle_record list result) \<Rightarrow> string \<Rightarrow> 'w db \<Rightarrow> ('w db \<times> nat) result" where
  "ingest_tles cfg gen now sky fetch grp d =
     rbind (fetch grp) (\<lambda>records. fold_r (ingest_record cfg gen now sky) records (d, 0))"

text \<open>The job handler: the exception it ends with, if any, and the committed tables.\<close>

definition tle_refresh ::
  "settings \<Rightarrow> (uuid list \<Rightarrow> uuid) \<Rightarrow> datetime \<Rightarrow> ('s, 'o, 't) skyfield \<Rightarrow>
   (string \<Rightarrow> tle_record list result) \<Rightarrow> 'w db job_handler" where
  "tle_refresh cfg gen now sky fetch d =
     (case ingest_tles cfg gen now sky fetch (CELESTRAK_GROUP cfg) d of
        Inl (RateLimitedError _) \<Rightarrow> (None, d)
      | Inl e \<Rightarrow> (Some e, d)
      | Inr (d', changed) \<Rightarrow> (None, d'))"

text \<open>What every record's step keeps, the job keeps: it commits the whole feed or nothing.\<close>

lemma tle_refresh_keeps:
  assumes "P d" and step: "\<And>rec d n d' n'. P d \<Longrightarrow> ingest_record cfg gen now sky rec (d, n) = Inr (d', n') \<Longrightarrow> P d'"
  shows "P (snd (tle_refresh cfg gen now sky fetch d))"
proof (cases "ingest_tles cfg gen now sky fetch (CELESTRAK_GROUP cfg) d")
  case (Inl e)
  then show ?thesis using assms(1) by (cases e) (simp_all add: tle_refresh_def)
next
  case (Inr r)
  then obtain recs where run: "fold_r (ingest_record cfg gen now sky) recs (d, 0) = Inr r"
    by (auto simp: ingest_tles_def rbind_eq_Inr)
  have "P (fst r)"
  proof (rule fold_r_invariant[OF run])
    show "P (fst (d, 0 :: nat))" using assms(1) by simp
    fix rec st st' assume "P (fst st)" and "ingest_record cfg gen now sky rec st = Inr st'"
    then show "P (fst st')" using step[of "fst st" rec "snd st" "fst st'" "snd st'"] by simp
  qed
  then show ?thesis using Inr by (cases r) (simp add: tle_refresh_def)
qed

subsection \<open>One record\<close>

text \<open>The catalog number of a record, and whether the tables hold its TLE already.\<close>

definition norad_of :: "tle_record \<Rightarrow> int" where
  "norad_of rec = (case tle_norad_id (line1 rec) of Inl _ \<Rightarrow> 0 | Inr n \<Rightarrow> n)"

definition sat_for :: "'w db \<Rightarrow> tle_record \<Rightarrow> satellite option" where
  "sat_for d rec = lookup norad_id (norad_of rec) (satellites d)"

definition up_to_date :: "'w db \<Rightarrow> tle_record \<Rightarrow> bool" where
  "up_to_date d rec \<longleftrightarrow> (\<exists>s. sat_for d rec = Some s \<and> tle_line1 s = line1 rec \<and> tle_line2 s = line2 rec)"

text \<open>The satellite a record that was not up to date leaves behind, and its event.\<close>

definition refreshed_sat :: "('s, 'o, 't) skyfield \<Rightarrow> tle_record \<Rightarrow> satellite \<Rightarrow> bool" where
  "refreshed_sat sky rec s \<longleftrightarrow> norad_id s = norad_of rec \<and> sat_name s = tle_name rec \<and>
     tle_line1 s = line1 rec \<and> tle_line2 s = line2 rec \<and> tle_epoch sky (line1 rec) (line2 rec) = Inr (epoch s)"

definition refreshed_event :: "satellite \<Rightarrow> event \<Rightarrow> bool" where
  "refreshed_event s ev \<longleftrightarrow> event_type ev = ''tle.refreshed'' \<and> aggregate_id ev = Some (sat_id s) \<and>
     ev_payload ev = refreshed_payload s (norad_id s) \<and> ev_status ev = PENDING \<and> retry_count ev = 0 \<and> handler_state ev = []"

text \<open>How the table of satellites changes when \<open>s\<close> is inserted or replaces the row with its number.\<close>

definition upserted :: "satellite \<Rightarrow> satellite list \<Rightarrow> satellite list \<Rightarrow> bool" where
  "upserted s sats sats' \<longleftrightarrow> satellites_ok sats' \<and> set (map sat_id sats) \<subseteq> set (map sat_id sats') \<and>
     (\<forall>m. lookup norad_id m sats' = (if m = norad_id s then Some s else lookup norad_id m sats)) \<and>
     (\<forall>s0. lookup norad_id (norad_id s) sats = Some s0 \<longrightarrow> sat_id s = sat_id s0)"

lemma create_upserted:
  assumes "satellites_ok sats" and "lookup norad_id (norad_id row) sats = None"
    and "repo_create satellite_violation row sats = Inr (s, sats')"
  shows "s = row" "upserted row sats sats'"
proof -
  note c = satellite_table.create_ok[OF assms(1,3)]
  show "s = row" using c by simp
  have "lookup norad_id m sats' = (if m = norad_id row then Some row else lookup norad_id m sats)" for m
    using c assms(2) by (auto simp: lookup_append split: option.split)
  then show "upserted row sats sats'"
    using c assms(2) unfolding upserted_def by (metis Un_upper1 option.distinct(1) set_append map_append)
qed

lemma update_upserted:
  assumes ok: "satellites_ok sats" and ex: "lookup norad_id n sats = Some ex"
    and diff: "tle_line1 ex \<noteq> l1 \<or> tle_line2 ex \<noteq> l2"
    and upd: "update_satellite now ex [Attr_name nm, Attr_tle_line1 l1, Attr_tle_line2 l2, Attr_epoch ep] sats =
      Inr (s, sats')"
  shows "s = ex\<lparr>sat_name := nm, tle_line1 := l1, tle_line2 := l2, epoch := ep, sat_updated_at := Some now\<rparr>"
    "upserted s sats sats'"
proof -
  let ?s = "ex\<lparr>sat_name := nm, tle_line1 := l1, tle_line2 := l2, epoch := ep, sat_updated_at := Some now\<rparr>"
  have mem: "ex \<in> set sats" "norad_id ex = n" using lookup_SomeD[OF ex] by simp_all
  have d: "distinct (map sat_id sats)" "distinct (map norad_id sats)" using ok by (simp_all add: satellites_ok_def)
  have "ex\<lparr>sat_name := nm, tle_line1 := l1, tle_line2 := l2, epoch := ep\<rparr> \<noteq> ex"
    using diff by (cases ex) auto
  then have s: "s = ?s" and v: "satellite_violation ?s (delete_where (\<lambda>r. sat_id r = sat_id ex) sats) = None"
    and "sats' = update_where (\<lambda>r. sat_id r = sat_id ex) (\<lambda>_. ?s) sats"
    using upd by (auto simp: update_satellite_def repo_update_def Let_def split: option.splits)
  then have sats': "sats' = map (\<lambda>r. if r = ex then ?s else r) sats"
    using replace_row[OF d(1) mem(1)] by simp
  show "s = ?s" by (rule s)
  have ids: "map sat_id sats' = map sat_id sats" "map norad_id sats' = map norad_id sats"
    by (auto simp: sats')
  have "length nm \<le> 255" using v by (simp add: satellite_violation_def split: if_splits)
  then have "\<forall>x \<in> set sats'. length (sat_name x) \<le> 255" using ok by (auto simp: satellites_ok_def sats')
  then have "satellites_ok sats'" using d unfolding satellites_ok_def ids by blast
  moreover have "lookup norad_id m sats' = (if m = n then Some ?s else lookup norad_id m sats)" for m
  proof -
    have "lookup norad_id m sats' = map_option (\<lambda>r. if r = ex then ?s else r) (lookup norad_id m sats)"
      unfolding sats' by (rule lookup_map) auto
    then show ?thesis using ex lookup_SomeD[of norad_id m sats] mem(2) by (cases "lookup norad_id m sats") auto
  qed
  ultimately show "upserted s sats sats'" using ids ex mem(2) by (simp add: upserted_def s)
qed

lemma publish_refreshed_Inr:
  assumes "publish_refreshed cfg gen now s n d = Inr d'" and "events_ok (events d)"
  shows "\<exists>ev. events d' = events d @ [ev] \<and> (norad_id s = n \<longrightarrow> refreshed_event s ev) \<and>
      notified d' = notified d @ [(CHANNEL, uuid_str (ev_id ev))] \<and> satellites d' = satellites d \<and>
      stations d' = stations d \<and> predictions d' = predictions d \<and> events_ok (events d')"
proof -
  obtain ev evs chan msg where
    p: "publish cfg gen now ''tle.refreshed'' (refreshed_payload s n) (Some (sat_id s)) None (events d) =
      Inr (ev, evs, chan, msg)"
    and d': "d' = d\<lparr>events := evs, notified := notified d @ [(chan, msg)]\<rparr>"
    using assms(1) by (auto simp: publish_refreshed_def rbind_eq_Inr)
  show ?thesis
    using publish_Inr[OF p] events_ok_publish[OF assms(2) p]
    by (intro exI[of _ ev]) (auto simp: d' refreshed_event_def)
qed

lemma db_ok_upserted:
  assumes "db_ok d" and "upserted s (satellites d) (satellites d')" and "stations d' = stations d"
    and "predictions d' = predictions d" and "events_ok (events d')"
  shows "db_ok d'"
  using assms predictions_ok_more[OF db_okD(3)[OF assms(1)], of "satellites d'" "stations d"]
  by (simp add: db_ok_def upserted_def)

text \<open>What the loop's body does: nothing when the record is up to date, else an upsert and one event.\<close>

definition ingested_one ::
  "('s, 'o, 't) skyfield \<Rightarrow> tle_record \<Rightarrow> 'w db \<Rightarrow> 'w db \<Rightarrow> bool" where
  "ingested_one sky rec d d' \<longleftrightarrow> (\<exists>s ev. refreshed_sat sky rec s \<and>
     upserted s (satellites d) (satellites d') \<and> refreshed_event s ev \<and> events d' = events d @ [ev] \<and>
     stations d' = stations d \<and> predictions d' = predictions d \<and> db_ok d')"

lemma ingest_record_step:
  assumes ok: "db_ok d" and run: "ingest_record cfg gen now sky rec (d, c) = Inr (d', c')"
  shows "tle_norad_id (line1 rec) = Inr (norad_of rec)"
    "if up_to_date d rec then d' = d \<and> c' = c else ingested_one sky rec d d' \<and> c' = c + 1"
proof -
  from run show n: "tle_norad_id (line1 rec) = Inr (norad_of rec)"
    by (auto simp: ingest_record_def norad_of_def rbind_eq_Inr)
  let ?n = "norad_of rec"
  have ingested: "ingested_one sky rec d d'"
    if up: "upserted s (satellites d) sats" and p: "publish_refreshed cfg gen now s ?n (d\<lparr>satellites := sats\<rparr>) = Inr d'"
      and s: "refreshed_sat sky rec s" for s sats
  proof -
    have "events_ok (events (d\<lparr>satellites := sats\<rparr>))" using db_okD(4)[OF ok] by simp
    from publish_refreshed_Inr[OF p this] obtain ev where ev: "events d' = events d @ [ev]"
      "refreshed_event s ev" "satellites d' = sats" "stations d' = stations d"
      "predictions d' = predictions d" "events_ok (events d')"
      using s by (auto simp: refreshed_sat_def)
    moreover from this have "db_ok d'" using db_ok_upserted[OF ok, of s d'] up by simp
    ultimately show ?thesis using up s unfolding ingested_one_def by blast
  qed
  show "if up_to_date d rec then d' = d \<and> c' = c else ingested_one sky rec d d' \<and> c' = c + 1"
  proof (cases "sat_for d rec")
    case None
    then have not: "\<not> up_to_date d rec" and none: "get_by_norad_id ?n (satellites d) = None"
      by (simp_all add: up_to_date_def sat_for_def get_by_norad_id_lookup)
    obtain ep where ep: "tle_epoch sky (line1 rec) (line2 rec) = Inr ep"
      using run n none by (auto simp: ingest_record_def rbind_eq_Inr)
    let ?row = "\<lparr>sat_id = gen (map sat_id (satellites d)), norad_id = ?n, sat_name = tle_name rec,
        tle_line1 = line1 rec, tle_line2 = line2 rec, epoch = ep, sat_created_at = now, sat_updated_at = None\<rparr>"
    obtain s sats where c: "repo_create satellite_violation ?row (satellites d) = Inr (s, sats)"
      and p: "publish_refreshed cfg gen now s ?n (d\<lparr>satellites := sats\<rparr>) = Inr d'" and c': "c' = c + 1"
      using run n none ep by (auto simp: ingest_record_def rbind_eq_Inr)
    have "lookup norad_id (norad_id ?row) (satellites d) = None" using None by (simp add: sat_for_def)
    note up = create_upserted[OF db_okD(1)[OF ok] this c]
    have "refreshed_sat sky rec s" using up(1) ep by (simp add: refreshed_sat_def)
    then show ?thesis using ingested[of s sats] up p c' not by simp
  next
    case (Some ex)
    then have get: "get_by_norad_id ?n (satellites d) = Some ex" and lk: "lookup norad_id ?n (satellites d) = Some ex"
      by (simp_all add: sat_for_def get_by_norad_id_lookup)
    show ?thesis
    proof (cases "tle_line1 ex \<noteq> line1 rec \<or> tle_line2 ex \<noteq> line2 rec")
      case False
      then show ?thesis using run n get Some by (auto simp: ingest_record_def up_to_date_def)
    next
      case True
      then have not: "\<not> up_to_date d rec" using Some by (auto simp: up_to_date_def)
      obtain ep where ep: "tle_epoch sky (line1 rec) (line2 rec) = Inr ep"
        using run n get True by (auto simp: ingest_record_def rbind_eq_Inr)
      obtain s sats where c: "update_satellite now ex [Attr_name (tle_name rec), Attr_tle_line1 (line1 rec),
                        Attr_tle_line2 (line2 rec), Attr_epoch ep] (satellites d) = Inr (s, sats)"
        and p: "publish_refreshed cfg gen now s ?n (d\<lparr>satellites := sats\<rparr>) = Inr d'" and c': "c' = c + 1"
        using run n get True ep by (auto simp: ingest_record_def rbind_eq_Inr)
      note up = update_upserted[OF db_okD(1)[OF ok] lk True c]
      have "norad_id ex = ?n" using lookup_SomeD[OF lk] by simp
      then have "refreshed_sat sky rec s" using up(1) ep by (simp add: refreshed_sat_def)
      then show ?thesis using ingested[of s sats] up p c' not by simp
    qed
  qed
qed

text \<open>Every id in the table was there before or is new from the generator.\<close>

lemma ingest_record_ids:
  assumes "ingest_record cfg gen now sky rec (d, c) = Inr (d', c')" and "s \<in> set (satellites d')"
  shows "sat_id s \<in> sat_id ` set (satellites d) \<union> range gen"
proof -
  have kept: "satellites d2 = satellites d1" if "publish_refreshed cfg gen now x n d1 = Inr d2" for x n d1 d2
    using that by (auto simp: publish_refreshed_def rbind_eq_Inr)
  have "sat_id ` set sats \<subseteq> sat_id ` set rows" if "update_satellite now ex [Attr_name a, Attr_tle_line1 b,
      Attr_tle_line2 e, Attr_epoch g] rows = Inr (x, sats)" for ex a b e g rows x sats
    using that by (auto simp: update_satellite_def repo_update_def Let_def set_update_where split: option.splits if_splits)
      (metis image_eqI)
  note updated = this
  obtain n where n: "tle_norad_id (line1 rec) = Inr n"
    using assms(1) by (auto simp: ingest_record_def rbind_eq_Inr)
  show ?thesis
  proof (cases "get_by_norad_id n (satellites d)")
    case None
    then obtain ep x sats where "repo_create satellite_violation
        \<lparr>sat_id = gen (map sat_id (satellites d)), norad_id = n, sat_name = tle_name rec, tle_line1 = line1 rec,
         tle_line2 = line2 rec, epoch = ep, sat_created_at = now, sat_updated_at = None\<rparr> (satellites d) = Inr (x, sats)"
      and p: "publish_refreshed cfg gen now x n (d\<lparr>satellites := sats\<rparr>) = Inr d'"
      using assms(1) n by (auto simp: ingest_record_def rbind_eq_Inr)
    then have "satellites d' = satellites d @ [x]" "sat_id x \<in> range gen"
      using kept[OF p] by (auto simp: repo_create_def split: option.splits)
    then show ?thesis using assms(2) by auto
  next
    case (Some ex)
    show ?thesis
    proof (cases "tle_line1 ex \<noteq> line1 rec \<or> tle_line2 ex \<noteq> line2 rec")
      case True
      then obtain ep x sats where u: "update_satellite now ex [Attr_name (tle_name rec), Attr_tle_line1 (line1 rec),
          Attr_tle_line2 (line2 rec), Attr_epoch ep] (satellites d) = Inr (x, sats)"
        and p: "publish_refreshed cfg gen now x n (d\<lparr>satellites := sats\<rparr>) = Inr d'"
        using assms(1) n Some by (auto simp: ingest_record_def rbind_eq_Inr)
      show ?thesis using updated[OF u] kept[OF p] assms(2) by auto
    qed (use assms n Some in \<open>auto simp: ingest_record_def\<close>)
  qed
qed

subsection \<open>A whole feed\<close>

lemma ingested_one_lookup:
  assumes "ingested_one sky rec d d'"
  shows "n \<noteq> norad_of rec \<Longrightarrow> lookup norad_id n (satellites d') = lookup norad_id n (satellites d)"
    "\<exists>s. sat_for d' rec = Some s \<and> refreshed_sat sky rec s"
    "norad_of r \<noteq> norad_of rec \<Longrightarrow> sat_for d' r = sat_for d r"
    "lookup norad_id n (satellites d) = Some s0 \<Longrightarrow>
       \<exists>s. lookup norad_id n (satellites d') = Some s \<and> sat_id s = sat_id s0"
  using assms by (auto simp: ingested_one_def upserted_def sat_for_def refreshed_sat_def)

lemma up_to_date_other:
  "ingested_one sky rec d d' \<Longrightarrow> norad_of r \<noteq> norad_of rec \<Longrightarrow> up_to_date d' r = up_to_date d r"
  by (simp add: up_to_date_def ingested_one_lookup(3))

text \<open>The tables after a feed: what is stored for each record, and one event per changed satellite.\<close>

definition feed_stored :: "('s, 'o, 't) skyfield \<Rightarrow> tle_record list \<Rightarrow> 'w db \<Rightarrow> 'w db \<Rightarrow> bool" where
  "feed_stored sky recs d d' \<longleftrightarrow>
     (\<forall>r \<in> set recs. \<exists>s. sat_for d' r = Some s \<and>
        (if up_to_date d r then sat_for d r = Some s else refreshed_sat sky r s)) \<and>
     (\<forall>n. n \<notin> norad_of ` set recs \<longrightarrow> lookup norad_id n (satellites d') = lookup norad_id n (satellites d)) \<and>
     (\<forall>n s0. lookup norad_id n (satellites d) = Some s0 \<longrightarrow>
        (\<exists>s. lookup norad_id n (satellites d') = Some s \<and> sat_id s = sat_id s0)) \<and>
     stations d' = stations d \<and> predictions d' = predictions d"

definition feed_events :: "tle_record list \<Rightarrow> 'w db \<Rightarrow> 'w db \<Rightarrow> event list \<Rightarrow> bool" where
  "feed_events recs d d' new \<longleftrightarrow> events d' = events d @ new \<and>
     list_all2 (\<lambda>r ev. \<exists>s. sat_for d' r = Some s \<and> refreshed_event s ev)
       (filter (\<lambda>r. \<not> up_to_date d r) recs) new"

lemma feed_step:
  assumes one: "ingested_one sky rec d d1" and not: "\<not> up_to_date d rec" and fresh: "norad_of rec \<notin> norad_of ` set recs"
    and rest: "feed_stored sky recs d1 d'" "feed_events recs d1 d' new"
  shows "feed_stored sky (rec # recs) d d' \<and> (\<exists>ev. feed_events (rec # recs) d d' (ev # new))"
proof -
  note lk = ingested_one_lookup[OF one]
  have other: "norad_of r \<noteq> norad_of rec" if "r \<in> set recs" for r
    using fresh that by (metis imageI)
  have utd: "up_to_date d1 r = up_to_date d r" "sat_for d1 r = sat_for d r" if "r \<in> set recs" for r
    using up_to_date_other[OF one other[OF that]] lk(3)[OF other[OF that]] by simp_all
  have keep: "sat_for d' rec = sat_for d1 rec"
    using rest(1) fresh by (simp add: feed_stored_def sat_for_def)
  obtain s where s: "sat_for d1 rec = Some s" "refreshed_sat sky rec s" using lk(2) by blast
  obtain s2 ev where ev: "refreshed_sat sky rec s2" "upserted s2 (satellites d) (satellites d1)"
      "refreshed_event s2 ev" "events d1 = events d @ [ev]" "stations d1 = stations d" "predictions d1 = predictions d"
    using one unfolding ingested_one_def by blast
  have "s2 = s" using s(1) ev(1,2) by (simp add: sat_for_def upserted_def refreshed_sat_def)
  have stored: "feed_stored sky (rec # recs) d d'"
    unfolding feed_stored_def
  proof (intro conjI ballI allI impI)
    fix r assume "r \<in> set (rec # recs)"
    then consider "r = rec" | "r \<in> set recs" by auto
    then show "\<exists>s. sat_for d' r = Some s \<and> (if up_to_date d r then sat_for d r = Some s else refreshed_sat sky r s)"
    proof cases
      case 1
      then show ?thesis using s keep not by simp
    next
      case 2
      then have "\<exists>s. sat_for d' r = Some s \<and>
          (if up_to_date d1 r then sat_for d1 r = Some s else refreshed_sat sky r s)"
        using rest(1) unfolding feed_stored_def by blast
      then show ?thesis unfolding utd[OF 2] .
    qed
  next
    fix n assume "n \<notin> norad_of ` set (rec # recs)"
    then show "lookup norad_id n (satellites d') = lookup norad_id n (satellites d)"
      using rest(1) lk(1)[of n] by (simp add: feed_stored_def)
  next
    fix n s0 assume "lookup norad_id n (satellites d) = Some s0"
    from lk(4)[OF this] show "\<exists>s. lookup norad_id n (satellites d') = Some s \<and> sat_id s = sat_id s0"
      using rest(1) unfolding feed_stored_def by metis
  qed (use rest(1) ev(5,6) in \<open>simp_all add: feed_stored_def\<close>)
  have "filter (\<lambda>r. \<not> up_to_date d r) recs = filter (\<lambda>r. \<not> up_to_date d1 r) recs"
    using utd(1) by (intro filter_cong) auto
  then have "feed_events (rec # recs) d d' (ev # new)"
    using rest(2) ev(3,4) s(1) keep not \<open>s2 = s\<close> by (simp add: feed_events_def)
  then show ?thesis using stored by blast
qed

lemma feed_skip:
  assumes "up_to_date d rec" and "norad_of rec \<notin> norad_of ` set recs"
    and "feed_stored sky recs d d'" "feed_events recs d d' new"
  shows "feed_stored sky (rec # recs) d d' \<and> feed_events (rec # recs) d d' new"
proof -
  have "sat_for d' rec = sat_for d rec" using assms(2,3) by (simp add: feed_stored_def sat_for_def)
  moreover obtain s where "sat_for d rec = Some s" using assms(1) by (auto simp: up_to_date_def)
  ultimately show ?thesis using assms by (simp add: feed_stored_def feed_events_def)
qed

lemma ingest_fold:
  assumes "db_ok d" and "distinct (map norad_of recs)"
    and "fold_r (ingest_record cfg gen now sky) recs (d, c) = Inr (d', c')"
  shows "db_ok d' \<and> feed_stored sky recs d d' \<and> (\<exists>new. feed_events recs d d' new \<and> c' = c + length new)"
  using assms
proof (induction recs arbitrary: d c)
  case Nil
  then show ?case by (simp add: feed_stored_def feed_events_def)
next
  case (Cons rec recs)
  obtain d1 c1 where one: "ingest_record cfg gen now sky rec (d, c) = Inr (d1, c1)"
    and rest: "fold_r (ingest_record cfg gen now sky) recs (d1, c1) = Inr (d', c')"
    using Cons.prems(3) by (auto simp: rbind_eq_Inr)
  note step = ingest_record_step(2)[OF Cons.prems(1) one]
  have fresh: "norad_of rec \<notin> norad_of ` set recs" "distinct (map norad_of recs)" using Cons.prems(2) by simp_all
  show ?case
  proof (cases "up_to_date d rec")
    case True
    then have "d1 = d" "c1 = c" using step by simp_all
    then show ?thesis
      using Cons.IH[OF Cons.prems(1) fresh(2)] rest feed_skip[OF True fresh(1)] by blast
  next
    case False
    then have i: "ingested_one sky rec d d1" "c1 = c + 1" using step by simp_all
    then have "db_ok d1" by (auto simp: ingested_one_def)
    from Cons.IH[OF this fresh(2) rest] obtain new where
      new: "db_ok d'" "feed_stored sky recs d1 d'" "feed_events recs d1 d' new" "c' = c1 + length new" by blast
    then obtain ev where "feed_stored sky (rec # recs) d d'" "feed_events (rec # recs) d d' (ev # new)"
      using feed_step[OF i(1) False fresh(1)] by blast
    then show ?thesis using new(1,4) i(2) by (intro conjI exI[of _ "ev # new"]) simp_all
  qed
qed

lemma up_to_date_stored: "feed_stored sky recs d d' \<Longrightarrow> r \<in> set recs \<Longrightarrow> up_to_date d' r"
  by (fastforce simp: feed_stored_def up_to_date_def refreshed_sat_def split: if_splits)

lemma ingest_up_to_date:
  assumes "\<forall>r \<in> set recs. up_to_date d r \<and> tle_norad_id (line1 r) = Inr (norad_of r)"
  shows "fold_r (ingest_record cfg gen now sky) recs (d, c) = Inr (d, c)"
  using assms
  by (induction recs)
    (auto simp: ingest_record_def up_to_date_def sat_for_def get_by_norad_id_lookup)

lemma ingest_norads:
  assumes "db_ok d" and "fold_r (ingest_record cfg gen now sky) recs (d, c) = Inr (d', c')"
  shows "\<forall>r \<in> set recs. tle_norad_id (line1 r) = Inr (norad_of r)"
  using assms
proof (induction recs arbitrary: d c)
  case (Cons rec recs)
  obtain d1 c1 where one: "ingest_record cfg gen now sky rec (d, c) = Inr (d1, c1)"
    and rest: "fold_r (ingest_record cfg gen now sky) recs (d1, c1) = Inr (d', c')"
    using Cons.prems(2) by (auto simp: rbind_eq_Inr)
  note step = ingest_record_step[OF Cons.prems(1) one]
  have "db_ok d1" using step(2) Cons.prems(1) by (auto simp: ingested_one_def split: if_splits)
  then show ?case using Cons.IH[OF _ rest] step(1) by simp
qed simp

subsection \<open>An ingest that cannot fail\<close>

definition fresh_ids :: "(uuid list \<Rightarrow> uuid) \<Rightarrow> bool" where
  "fresh_ids gen \<longleftrightarrow> (\<forall>ids. gen ids \<notin> set ids)"

text \<open>What a record must be for its upsert not to raise.\<close>

definition acceptable :: "('s, 'o, 't) skyfield \<Rightarrow> tle_record \<Rightarrow> bool" where
  "acceptable sky r \<longleftrightarrow> tle_norad_id (line1 r) = Inr (norad_of r) \<and>
     (\<exists>ep. tle_epoch sky (line1 r) (line2 r) = Inr ep) \<and> length (tle_name r) \<le> 255"

lemma publish_refreshed_total:
  assumes "fresh_ids gen"
  shows "\<exists>d'. publish_refreshed cfg gen now s n d = Inr d'"
proof -
  have "gen (map ev_id (events d)) \<notin> ev_id ` set (events d)"
    using assms unfolding fresh_ids_def by (metis set_map)
  then show ?thesis by (simp add: publish_refreshed_def publish_def Let_def)
qed

lemma ingest_record_total:
  assumes ok: "db_ok d" and gen: "fresh_ids gen" and r: "acceptable sky r"
  shows "\<exists>d' c'. ingest_record cfg gen now sky r (d, c) = Inr (d', c')"
proof -
  obtain ep where n: "tle_norad_id (line1 r) = Inr (norad_of r)"
    and ep: "tle_epoch sky (line1 r) (line2 r) = Inr ep" and nm: "length (tle_name r) \<le> 255"
    using r by (auto simp: acceptable_def)
  have sid: "gen (map sat_id (satellites d)) \<notin> sat_id ` set (satellites d)"
    using gen unfolding fresh_ids_def by (metis set_map)
  show ?thesis
  proof (cases "get_by_norad_id (norad_of r) (satellites d)")
    case None
    then have "norad_of r \<notin> norad_id ` set (satellites d)"
      by (simp add: get_by_norad_id_lookup lookup_None_iff)
    then obtain s sats where c: "repo_create satellite_violation
        \<lparr>sat_id = gen (map sat_id (satellites d)), norad_id = norad_of r, sat_name = tle_name r,
          tle_line1 = line1 r, tle_line2 = line2 r, epoch = ep,
          sat_created_at = now, sat_updated_at = None\<rparr> (satellites d) = Inr (s, sats)"
      using sid nm by (simp add: repo_create_def satellite_violation_def)
    obtain d' where "publish_refreshed cfg gen now s (norad_of r) (d\<lparr>satellites := sats\<rparr>) = Inr d'"
      using publish_refreshed_total[OF gen] by blast
    then show ?thesis using n ep None c by (simp add: ingest_record_def)
  next
    case (Some ex)
    then have ex: "ex \<in> set (satellites d)" by (auto simp: get_by_norad_id_lookup dest: lookup_SomeD)
    let ?others = "delete_where (\<lambda>x. sat_id x = sat_id ex) (satellites d)"
    have "norad_id x \<noteq> norad_id ex" if "x \<in> set ?others" for x
      using that unique_column[OF db_okD(6)[OF ok] _ ex, of x] by (auto simp: sql_simps)
    then have norads: "norad_id ex \<notin> norad_id ` set ?others" by (metis imageE)
    have ids: "sat_id ex \<notin> sat_id ` set ?others" by (auto simp: sql_simps)
    have "satellite_violation (ex\<lparr>sat_name := tle_name r, tle_line1 := line1 r, tle_line2 := line2 r,
        epoch := ep, sat_updated_at := Some now\<rparr>)
        ?others = None"
      using nm norads ids by (simp add: satellite_violation_def)
    then obtain s sats where c: "update_satellite now ex [Attr_name (tle_name r), Attr_tle_line1 (line1 r),
        Attr_tle_line2 (line2 r), Attr_epoch ep] (satellites d) = Inr (s, sats)"
      by (cases "ex\<lparr>sat_name := tle_name r, tle_line1 := line1 r, tle_line2 := line2 r, epoch := ep\<rparr> = ex")
        (simp_all add: update_satellite_def repo_update_def Let_def)
    obtain d' where "publish_refreshed cfg gen now s (norad_of r) (d\<lparr>satellites := sats\<rparr>) = Inr d'"
      using publish_refreshed_total[OF gen] by blast
    then show ?thesis
      using n ep Some c
      by (cases "tle_line1 ex \<noteq> line1 r \<or> tle_line2 ex \<noteq> line2 r") (simp_all add: ingest_record_def)
  qed
qed

lemma db_ok_ingest_record:
  "db_ok d \<Longrightarrow> ingest_record cfg gen now sky rec (d, c) = Inr (d', c') \<Longrightarrow> db_ok d'"
  using ingest_record_step(2)[of d cfg gen now sky rec c d' c'] by (auto simp: ingested_one_def split: if_splits)

lemma ingest_fold_total:
  assumes "db_ok d" and "fresh_ids gen" and "\<forall>r \<in> set recs. acceptable sky r"
  shows "\<exists>d' c'. fold_r (ingest_record cfg gen now sky) recs (d, c) = Inr (d', c')"
  using assms(1,3)
proof (induction recs arbitrary: d c)
  case (Cons r recs)
  then obtain d1 c1 where one: "ingest_record cfg gen now sky r (d, c) = Inr (d1, c1)"
    using ingest_record_total[OF Cons.prems(1) assms(2)] by fastforce
  then show ?case using Cons.IH[OF db_ok_ingest_record[OF Cons.prems(1) one]] Cons.prems(2) by simp
qed simp

subsection \<open>The stored lines\<close>

definition stored_tle :: "satellite \<Rightarrow> tle_record" where
  "stored_tle s = \<lparr>tle_name = sat_name s, line1 = tle_line1 s, line2 = tle_line2 s\<rparr>"

lemma upserted_set:
  assumes "upserted s sats sats'"
  shows "set sats' \<subseteq> insert s (set sats)"
proof
  fix x assume x: "x \<in> set sats'"
  have "distinct (map norad_id sats')" using assms by (simp add: upserted_def satellites_ok_def)
  then have "lookup norad_id (norad_id x) sats' = Some x" using x by (rule lookup_unique)
  moreover have "lookup norad_id (norad_id x) sats' =
      (if norad_id x = norad_id s then Some s else lookup norad_id (norad_id x) sats)"
    using assms unfolding upserted_def by blast
  ultimately show "x \<in> insert s (set sats)"
    using lookup_SomeD[of norad_id "norad_id x" sats x] by (cases "norad_id x = norad_id s") simp_all
qed

context tle_source
begin

lemma ingest_stores_ok:
  assumes "ingest_tles cfg gen now sky fetch grp d = Inr (d', c)" and "db_ok d"
    and "\<forall>s \<in> set (satellites d). tle_ok (stored_tle s)"
  shows "\<forall>s \<in> set (satellites d'). tle_ok (stored_tle s)"
proof -
  obtain recs where recs: "fetch grp = Inr recs"
    and run: "fold_r (ingest_record cfg gen now sky) recs (d, 0) = Inr (d', c)"
    using assms(1) by (auto simp: ingest_tles_def rbind_eq_Inr)
  let ?P = "\<lambda>st. db_ok (fst st) \<and> (\<forall>s \<in> set (satellites (fst st)). tle_ok (stored_tle s))"
  have "?P (d', c)"
  proof (rule fold_r_invariant[OF run])
    show "?P (d, 0)" using assms(2,3) by simp
    fix r st st' assume r: "r \<in> set recs" and st: "?P st" and step: "ingest_record cfg gen now sky r st = Inr st'"
    obtain d1 c1 d2 c2 where eq: "st = (d1, c1)" "st' = (d2, c2)" by (cases st, cases st')
    have ok: "db_ok d1" using st eq by simp
    note s = ingest_record_step(2)[OF ok step[unfolded eq]]
    show "?P st'"
    proof (cases "up_to_date d1 r")
      case True
      then show ?thesis using s st eq by simp
    next
      case False
      then obtain x where x: "refreshed_sat sky r x" "upserted x (satellites d1) (satellites d2)" "db_ok d2"
        using s by (auto simp: ingested_one_def)
      have "stored_tle x = r" using x(1) by (simp add: stored_tle_def refreshed_sat_def)
      then show ?thesis
        using upserted_set[OF x(2)] fetched_ok[OF recs r] st x(3) eq by auto
    qed
  qed
  then show ?thesis by simp
qed

end

subsection \<open>Properties\<close>

definition sample_tle :: tle_record where
  "sample_tle = \<lparr>tle_name = ''ISS'', line1 = ''1 25544U'', line2 = ''2 25544''\<rparr>"

definition sample_gen :: "uuid list \<Rightarrow> uuid" where
  "sample_gen ids = Suc (sum_list ids)"

definition empty_db :: "unit db" where
  "empty_db = \<lparr>satellites = [], stations = [], predictions = [], events = [], notified = []\<rparr>"

lemma sample_gen_fresh: "fresh_ids sample_gen"
proof -
  have "i \<in> set ids \<Longrightarrow> i \<le> sum_list ids" for i and ids :: "nat list"
    by (rule member_le_sum_list) auto
  then show ?thesis by (fastforce simp: fresh_ids_def sample_gen_def)
qed

lemma empty_db_ok: "db_ok empty_db"
  by (simp add: db_ok_def empty_db_def satellites_ok_def stations_ok_def predictions_ok_def events_ok_def)

lemma sample_tle_norad: "tle_norad_id (line1 sample_tle) = Inr 25544"
  by (simp add: sample_tle_def tle_norad_id_def slice_def py_int_def int_strip_def int_space_def
      split_sign_def digit_val_def char_code_def)

lemma sample_tle_acceptable: "acceptable sample_sky sample_tle" "norad_of sample_tle = 25544"
  by (simp_all add: acceptable_def norad_of_def sample_tle_norad)
    (simp add: sample_tle_def sample_sky_def tle_epoch_def build_satellite_def)

text \<open>C11. What an ingest does. From a feed with distinct catalog numbers, a successful ingest leaves, for
  every record, a satellite with the record's TLE: the stored row itself when it was up to date, else
  a row with the record's name, lines and epoch. Satellites outside the feed, stations and predictions
  are unchanged, no satellite changes its id, and exactly one pending \<open>tle.refreshed\<close> event, carrying
  the satellite's id, is added per record that was new or different, in feed order; the result is
  their number.\<close>

theorem ingest_applies_feed:
  assumes "db_ok d" and "fetch grp = Inr recs" and "distinct (map norad_of recs)"
    and "ingest_tles cfg gen now sky fetch grp d = Inr (d', changed)"
  shows "db_ok d' \<and>
    (\<forall>r \<in> set recs. \<exists>s. sat_for d' r = Some s \<and>
        (if up_to_date d r then sat_for d r = Some s else refreshed_sat sky r s)) \<and>
    (\<forall>n. n \<notin> norad_of ` set recs \<longrightarrow> lookup norad_id n (satellites d') = lookup norad_id n (satellites d)) \<and>
    (\<forall>n s0. lookup norad_id n (satellites d) = Some s0 \<longrightarrow>
        (\<exists>s. lookup norad_id n (satellites d') = Some s \<and> sat_id s = sat_id s0)) \<and>
    stations d' = stations d \<and> predictions d' = predictions d \<and>
    changed = length (filter (\<lambda>r. \<not> up_to_date d r) recs) \<and>
    (\<exists>new. events d' = events d @ new \<and>
      list_all2 (\<lambda>r ev. \<exists>s. sat_for d' r = Some s \<and> refreshed_event s ev)
        (filter (\<lambda>r. \<not> up_to_date d r) recs) new)"
proof -
  have run: "fold_r (ingest_record cfg gen now sky) recs (d, 0) = Inr (d', changed)"
    using assms(2,4) by (simp add: ingest_tles_def)
  from ingest_fold[OF assms(1,3) run] obtain new where
    new: "db_ok d'" "feed_stored sky recs d d'" "feed_events recs d d' new" "changed = 0 + length new" by blast
  then have "changed = length (filter (\<lambda>r. \<not> up_to_date d r) recs)"
    using list_all2_lengthD unfolding feed_events_def by fastforce
  then show ?thesis
    using new unfolding feed_stored_def feed_events_def by blast
qed

lemma sample_ingest: "\<exists>d' c. ingest_tles default_settings sample_gen 0 sample_sky (\<lambda>_. Inr [sample_tle]) ''active'' empty_db = Inr (d', c)"
proof -
  have "\<forall>r \<in> set [sample_tle]. acceptable sample_sky r" by (simp add: sample_tle_acceptable)
  from ingest_fold_total[OF empty_db_ok sample_gen_fresh this] show ?thesis
    by (simp add: ingest_tles_def)
qed

lemma ingest_applies_feed_witness:
  "\<exists>d' c s. ingest_tles default_settings sample_gen 0 sample_sky (\<lambda>_. Inr [sample_tle]) ''active'' empty_db = Inr (d', c) \<and>
     c = 1 \<and> sat_for d' sample_tle = Some s \<and> refreshed_sat sample_sky sample_tle s"
proof -
  obtain d' c where run: "ingest_tles default_settings sample_gen 0 sample_sky (\<lambda>_. Inr [sample_tle]) ''active'' empty_db = Inr (d', c)"
    using sample_ingest by blast
  have "\<not> up_to_date empty_db sample_tle" by (simp add: up_to_date_def sat_for_def empty_db_def)
  then show ?thesis
    using ingest_applies_feed[OF empty_db_ok _ _ run, of "[sample_tle]"] run by auto
qed

text \<open>An ingest cannot fail on a sound feed: when every record's number and epoch can be read and its
  name fits the column, the ingest ends normally, whatever the tables hold (new ids are unused).\<close>

theorem ingest_total:
  assumes "db_ok d" and "fresh_ids gen" and "fetch grp = Inr recs" and "\<forall>r \<in> set recs. acceptable sky r"
  shows "\<exists>d' changed. ingest_tles cfg gen now sky fetch grp d = Inr (d', changed)"
  using ingest_fold_total[OF assms(1,2,4)] assms(3) by (simp add: ingest_tles_def)



text \<open>A feed that lists one satellite twice with different lines defeats the idempotence: once such an
  ingest has been committed, every further ingest of the same feed counts both records as changed
  again, and so publishes two events each time.\<close>

theorem duplicate_feed_never_settles:
  assumes "db_ok d" and "fresh_ids gen" and "acceptable sky a" and "acceptable sky b"
    and "norad_of a = norad_of b" and "line1 a \<noteq> line1 b"
    and "ingest_tles cfg gen now sky fetch grp d = Inr (d', n)" and "fetch grp = Inr [a, b]"
  shows "\<exists>d2. ingest_tles cfg gen now' sky fetch grp d' = Inr (d2, 2) \<and>
    length (events d2) = length (events d') + 2"
proof -
  obtain d1 n1 where a: "ingest_record cfg gen now sky a (d, 0) = Inr (d1, n1)"
    and b: "ingest_record cfg gen now sky b (d1, n1) = Inr (d', n)"
    using assms(7,8) by (auto simp: ingest_tles_def rbind_eq_Inr)
  have ok: "db_ok d1" "db_ok d'"
    using db_ok_ingest_record[OF assms(1) a] db_ok_ingest_record[OF _ b] by simp_all
  have stored: "up_to_date e' r"
    if "db_ok e" "ingest_record cfg gen t sky r (e, k) = Inr (e', k')" for e e' r k k' t
    using ingest_record_step(2)[OF that] ingested_one_lookup(2)[of sky r e e']
    by (auto simp: up_to_date_def refreshed_sat_def split: if_splits)
  have excl: "\<not> (up_to_date e a \<and> up_to_date e b)" for e
    using assms(5,6) by (auto simp: up_to_date_def sat_for_def)
  obtain d3 where a2: "ingest_record cfg gen now' sky a (d', 0) = Inr (d3, 1)" "length (events d3) = length (events d') + 1"
  proof -
    obtain d3 c3 where r: "ingest_record cfg gen now' sky a (d', 0) = Inr (d3, c3)"
      using ingest_record_total[OF ok(2) assms(2,3)] by blast
    have "\<not> up_to_date d' a" using stored[OF ok(1) b] excl[of d'] by blast
    then show ?thesis using that ingest_record_step(2)[OF ok(2) r] r by (auto simp: ingested_one_def)
  qed
  have ok3: "db_ok d3" by (rule db_ok_ingest_record[OF ok(2) a2(1)])
  obtain d4 c4 where r: "ingest_record cfg gen now' sky b (d3, 1) = Inr (d4, c4)"
    using ingest_record_total[OF ok3 assms(2,4)] by blast
  have "\<not> up_to_date d3 b" using stored[OF ok(2) a2(1)] excl[of d3] by blast
  then have "c4 = 2" "length (events d4) = length (events d3) + 1"
    using ingest_record_step(2)[OF ok3 r] by (auto simp: ingested_one_def)
  then show ?thesis using a2 r assms(8) by (simp add: ingest_tles_def)
qed

text \<open>The refresh job is all or nothing. If it ends with an exception the tables are untouched. A rate
  limit is no failure and changes nothing. Else satellites and events are committed together: the
  committed tables are those of a complete run over the fetched records.\<close>

theorem tle_refresh_atomic:
  "case tle_refresh cfg gen now sky fetch d of (r, d') \<Rightarrow>
     (r \<noteq> None \<longrightarrow> d' = d) \<and>
     (case fetch (CELESTRAK_GROUP cfg) of
        Inl (RateLimitedError m) \<Rightarrow> r = None \<and> d' = d
      | Inl e \<Rightarrow> r = Some e \<and> d' = d
      | Inr recs \<Rightarrow>
          (case fold_r (ingest_record cfg gen now sky) recs (d, 0) of
             Inr (d2, n) \<Rightarrow> r = None \<and> d' = d2
           | Inl e \<Rightarrow> d' = d \<and> (r = Some e \<or> (\<exists>m. e = RateLimitedError m))))"
proof (cases "fetch (CELESTRAK_GROUP cfg)")
  case (Inl e)
  then show ?thesis by (cases e) (simp_all add: tle_refresh_def ingest_tles_def)
next
  case (Inr recs)
  show ?thesis
  proof (cases "fold_r (ingest_record cfg gen now sky) recs (d, 0)")
    case Lf: (Inl e)
    then show ?thesis using Inr by (cases e) (simp_all add: tle_refresh_def ingest_tles_def)
  next
    case Rt: (Inr p)
    then show ?thesis using Inr by (cases p) (simp add: tle_refresh_def ingest_tles_def)
  qed
qed

text \<open>C26. Only well-formed TLEs reach the table through the HTTP driver: if every stored satellite has two
  single trimmed lines numbered 1 and 2 and a trimmed, non-empty name, the same holds after a refresh
  with the client that the registry builds from the settings, whatever the server answers.\<close>

theorem refresh_stores_wellformed:
  assumes "tle_refresh cfg gen now sky (fst (get_client AsyncClient cfg None)) d = (r, d')" and "db_ok d"
    and "\<forall>s \<in> set (satellites d). tle_ok (stored_tle s)"
  shows "\<forall>s \<in> set (satellites d'). tle_ok (stored_tle s)"
proof (cases "ingest_tles cfg gen now sky (build_default_client AsyncClient cfg) (CELESTRAK_GROUP cfg) d")
  case (Inl e)
  then show ?thesis using assms by (cases e) (simp_all add: tle_refresh_def get_client_def)
next
  case (Inr p)
  then obtain n where "ingest_tles cfg gen now sky (build_default_client AsyncClient cfg) (CELESTRAK_GROUP cfg) d = Inr (d', n)"
    using assms(1) by (cases p) (simp add: tle_refresh_def get_client_def)
  then show ?thesis by (rule celestrak_default.ingest_stores_ok[OF _ assms(2,3)])
qed

lemma refresh_stores_wellformed_witness:
  "list_all (\<lambda>s. tle_ok (stored_tle s)) (satellites (snd (tle_refresh default_settings sample_gen 0 sample_sky
      (fst (get_client (\<lambda>options u ps. Response 200 (render_records [sample_tle])) default_settings None)) empty_db)))"
proof -
  let ?client = "fst (get_client (\<lambda>options u ps. Response 200 (render_records [sample_tle])) default_settings None)"
  obtain r d' where run: "tle_refresh default_settings sample_gen 0 sample_sky ?client empty_db = (r, d')"
    by fastforce
  have "\<forall>s \<in> set (satellites empty_db). tle_ok (stored_tle s)" by (simp add: empty_db_def)
  from refresh_stores_wellformed[OF run empty_db_ok this] show ?thesis by (simp add: run list_all_iff)
qed

end
