(* ===== verification/PassPredictions.thy ===== *)
theory PassPredictions
  imports Ingest
begin

text \<open>
  The predictions of passes: the use case \<open>app/tracking/use_cases/compute_passes.py\<close>, the outbox handler
  that runs it for every station (\<open>app/tracking/event_handlers/recompute_passes.py\<close>) and the query
  \<open>app/tracking/use_cases/get_ground_station_passes.py\<close>. \<open>run_blocking\<close> (\<open>app/core/concurrency.py\<close>)
  only moves the call to a thread and gives its result.
  The lemmas show that a run replaces exactly the rows of its satellite and station, that nothing in
  it can fail when skyfield and shapely behave as documented, and that running it again converges.
\<close>

text \<open>The loop's body: one INSERT per predicted pass.\<close>

definition insert_pass ::
  "(uuid list \<Rightarrow> uuid) \<Rightarrow> datetime \<Rightarrow> ('g, 'w) shapely \<Rightarrow> uuid \<Rightarrow> uuid \<Rightarrow> satellite_pass \<Rightarrow> 'w db \<Rightarrow> 'w db result" where
  "insert_pass gen now lib sid stid p d =
     rbind (linestring_to_wkb lib (ground_track p)) (\<lambda>wkb.
     rbind (repo_create (prediction_violation (satellites d) (stations d))
              \<lparr>pp_id = gen (map pp_id (predictions d)), satellite_id = sid, ground_station_id = stid,
               pp_aos_at = aos_at p, pp_los_at = los_at p, pp_peak_at = peak_at p,
               pp_peak_elevation_deg = peak_elevation_deg p, track = wkb,
               pp_created_at = now, pp_updated_at = None\<rparr> (predictions d)) (\<lambda>(_, rows).
     Inr (d\<lparr>predictions := rows\<rparr>)))"

definition compute_passes_use_case ::
  "(uuid list \<Rightarrow> uuid) \<Rightarrow> datetime \<Rightarrow> ('s, 'o, 't) skyfield \<Rightarrow> ('g, 'w) shapely \<Rightarrow> uuid \<Rightarrow> uuid \<Rightarrow>
   py_datetime \<times> py_datetime \<Rightarrow> real \<Rightarrow> int \<Rightarrow> 'w db \<Rightarrow> (nat \<times> 'w db) result" where
  "compute_passes_use_case gen now sky lib sid stid window min_elevation_deg track_samples d =
     (case repo_get_by_id sat_id sid (satellites d) of
        None \<Rightarrow> Inl (NotFoundError ''Satellite'' (Some sid))
      | Some sat \<Rightarrow>
          (case repo_get_by_id st_id stid (stations d) of
             None \<Rightarrow> Inl (NotFoundError ''GroundStation'' (Some stid))
           | Some station \<Rightarrow>
               (let (longitude, latitude) = wkb_to_lonlat lib (location station);
                    observer = \<lparr>obs_latitude = latitude, obs_longitude = longitude,
                                elevation_m = altitude_m station\<rparr>
                in rbind (compute_passes sky (tle_line1 sat) (tle_line2 sat) observer window
                            min_elevation_deg track_samples) (\<lambda>predicted.
                   rbind (fold_r (insert_pass gen now lib sid stid) predicted
                            (d\<lparr>predictions := delete_for_satellite_and_station sid stid (predictions d)\<rparr>)) (\<lambda>d'.
                   Inr (length predicted, d'))))))"

text \<open>
  The handler: its exception, if any, and the committed tables. \<open>uuid.UUID\<close> of something that is not
  a string fails on its missing \<open>replace\<close>, of None with a \<open>TypeError\<close>. \<open>now\<close> is the clock
  reading of the window, \<open>tnow\<close> the transaction's time.
\<close>

definition payload_satellite_id :: "payload \<Rightarrow> uuid result" where
  "payload_satellite_id payload =
     (case map_of payload ''satellite_id'' of
        None \<Rightarrow> Inl (KeyError ''satellite_id'')
      | Some (JStr s) \<Rightarrow> uuid_parse s
      | Some JNull \<Rightarrow> Inl (LibraryError ''TypeError'')
      | Some _ \<Rightarrow> Inl AttributeError)"

definition horizon_window :: "settings \<Rightarrow> datetime \<Rightarrow> py_datetime \<times> py_datetime" where
  "horizon_window cfg now = (Aware now, Aware (now + seconds (PASS_PREDICTION_HORIZON_HOURS cfg * 3600)))"

definition recompute_station ::
  "settings \<Rightarrow> (uuid list \<Rightarrow> uuid) \<Rightarrow> datetime \<Rightarrow> datetime \<Rightarrow> ('s, 'o, 't) skyfield \<Rightarrow> ('g, 'w) shapely \<Rightarrow>
   uuid \<Rightarrow> 'w ground_station \<Rightarrow> 'w db \<Rightarrow> 'w db result" where
  "recompute_station cfg gen now tnow sky lib sid station d =
     rbind (compute_passes_use_case gen tnow sky lib sid (st_id station) (horizon_window cfg now) 10 24 d)
       (\<lambda>(_, d'). Inr d')"

definition recompute_passes ::
  "settings \<Rightarrow> (uuid list \<Rightarrow> uuid) \<Rightarrow> datetime \<Rightarrow> datetime \<Rightarrow> ('s, 'o, 't) skyfield \<Rightarrow> ('g, 'w) shapely \<Rightarrow>
   (string \<Rightarrow> real) \<Rightarrow> 'w db handler_func" where
  "recompute_passes cfg gen now tnow sky lib collate payload d =
     (case rbind (payload_satellite_id payload) (\<lambda>sid.
             fold_r (recompute_station cfg gen now tnow sky lib sid) (list_all_stations collate (stations d)) d) of
        Inl e \<Rightarrow> (Some e, d)
      | Inr d' \<Rightarrow> (None, d'))"

subsection \<open>The query\<close>

record pass_view =
  pv_norad_id :: int
  pv_name :: string
  pv_aos_at :: datetime
  pv_los_at :: datetime
  pv_peak_at :: datetime
  pv_peak_elevation_deg :: real
  pv_track :: "(string \<times> pyval) list"

text \<open>\<open>{sat.id: sat for sat in \<dots>}\<close>: a later satellite with the same id replaces an earlier one.\<close>

definition satellites_by_id :: "(string \<Rightarrow> real) \<Rightarrow> satellite list \<Rightarrow> (uuid \<times> satellite) list" where
  "satellites_by_id collate sats =
     fold (\<lambda>s. AList.update (sat_id s) s) (list_all_satellites collate sats) []"

definition pass_view_of ::
  "('g, 'w) shapely \<Rightarrow> (uuid \<times> satellite) list \<Rightarrow> 'w pass_prediction \<Rightarrow> pass_view result" where
  "pass_view_of lib sats p =
     (case map_of sats (satellite_id p) of
        None \<Rightarrow> Inl (KeyError (uuid_str (satellite_id p)))
      | Some s \<Rightarrow>
          rbind (wkb_to_geojson lib (track p)) (\<lambda>geojson.
            Inr \<lparr>pv_norad_id = norad_id s, pv_name = sat_name s, pv_aos_at = pp_aos_at p,
                 pv_los_at = pp_los_at p, pv_peak_at = pp_peak_at p,
                 pv_peak_elevation_deg = pp_peak_elevation_deg p, pv_track = geojson\<rparr>))"

definition get_ground_station_passes ::
  "('g, 'w) shapely \<Rightarrow> (string \<Rightarrow> real) \<Rightarrow> uuid \<Rightarrow> datetime \<Rightarrow> 'w db \<Rightarrow> pass_view list result" where
  "get_ground_station_passes lib collate stid after d =
     (case repo_get_by_id st_id stid (stations d) of
        None \<Rightarrow> Inl (NotFoundError ''GroundStation'' (Some stid))
      | Some station \<Rightarrow>
          (let found = list_for_ground_station stid after (predictions d);
               sats = satellites_by_id collate (satellites d)
           in map_r (pass_view_of lib sats) found))"

subsection \<open>One satellite and station\<close>

definition of_pair :: "uuid \<Rightarrow> uuid \<Rightarrow> 'w pass_prediction \<Rightarrow> bool" where
  "of_pair sid stid p \<longleftrightarrow> satellite_id p = sid \<and> ground_station_id p = stid"

text \<open>What a row says of its pass, without its own id and times, and what is stored of a pass.\<close>

type_synonym 'w pass_content = "datetime \<times> datetime \<times> datetime \<times> real \<times> 'w"

definition row_content :: "'w pass_prediction \<Rightarrow> 'w pass_content" where
  "row_content p = (pp_aos_at p, pp_los_at p, pp_peak_at p, pp_peak_elevation_deg p, track p)"

definition stored_pass :: "('g, 'w) shapely \<Rightarrow> satellite_pass \<Rightarrow> 'w pass_content" where
  "stored_pass lib p = (aos_at p, los_at p, peak_at p, peak_elevation_deg p,
     from_shape lib (LineString lib (ground_track p)) SRID_WGS84)"

definition pair_content :: "'w db \<Rightarrow> uuid \<Rightarrow> uuid \<Rightarrow> 'w pass_content list" where
  "pair_content d sid stid = map row_content (filter (of_pair sid stid) (predictions d))"

text \<open>The tables agree but for the predictions of one satellite and station.\<close>

definition same_but_pair :: "uuid \<Rightarrow> uuid \<Rightarrow> 'w db \<Rightarrow> 'w db \<Rightarrow> bool" where
  "same_but_pair sid stid d d' \<longleftrightarrow> satellites d' = satellites d \<and> stations d' = stations d \<and>
     events d' = events d \<and> notified d' = notified d \<and>
     filter (\<lambda>p. \<not> of_pair sid stid p) (predictions d') = filter (\<lambda>p. \<not> of_pair sid stid p) (predictions d)"

lemma insert_pass_Inr:
  assumes "insert_pass gen now lib sid stid p d = Inr d'"
  shows "same_but_pair sid stid d d'" "pair_content d' sid stid = pair_content d sid stid @ [stored_pass lib p]"
    "db_ok d \<Longrightarrow> db_ok d'"
proof -
  obtain wkb where wkb: "linestring_to_wkb lib (ground_track p) = Inr wkb"
    using assms by (auto simp: insert_pass_def rbind_eq_Inr)
  let ?row = "\<lparr>pp_id = gen (map pp_id (predictions d)), satellite_id = sid, ground_station_id = stid,
               pp_aos_at = aos_at p, pp_los_at = los_at p, pp_peak_at = peak_at p,
               pp_peak_elevation_deg = peak_elevation_deg p, track = wkb,
               pp_created_at = now, pp_updated_at = None\<rparr>"
  obtain r rows where c: "repo_create (prediction_violation (satellites d) (stations d)) ?row (predictions d) = Inr (r, rows)"
    and d': "d' = d\<lparr>predictions := rows\<rparr>"
    using assms wkb by (auto simp: insert_pass_def rbind_eq_Inr)
  then have rows: "rows = predictions d @ [?row]"
    by (auto simp: repo_create_def split: option.splits)
  have pair: "of_pair sid stid ?row" by (simp add: of_pair_def)
  show "same_but_pair sid stid d d'"
    using pair by (simp add: d' rows same_but_pair_def)
  have "wkb = from_shape lib (LineString lib (ground_track p)) SRID_WGS84"
    using wkb by (auto simp: linestring_to_wkb_def split: if_splits)
  then show "pair_content d' sid stid = pair_content d sid stid @ [stored_pass lib p]"
    using pair by (simp add: d' rows pair_content_def row_content_def stored_pass_def)
  show "db_ok d'" if "db_ok d"
  proof -
    have "predictions_ok (satellites d) (stations d) rows"
      using prediction_table.create_ok[OF db_okD(3)[OF that] c] by blast
    then show ?thesis using that by (simp add: d' db_ok_def)
  qed
qed

lemma same_but_pair_trans:
  "same_but_pair sid stid d1 d2 \<Longrightarrow> same_but_pair sid stid d2 d3 \<Longrightarrow> same_but_pair sid stid d1 d3"
  by (simp add: same_but_pair_def)

lemma insert_passes_Inr:
  assumes "fold_r (insert_pass gen now lib sid stid) ps d = Inr d'"
  shows "same_but_pair sid stid d d'"
    "pair_content d' sid stid = pair_content d sid stid @ map (stored_pass lib) ps"
    "db_ok d \<Longrightarrow> db_ok d'"
  using assms
proof (induction ps arbitrary: d)
  case Nil
  {
    case 1
    then show ?case by (simp add: same_but_pair_def)
  next
    case 2
    then show ?case by simp
  next
    case 3
    then show ?case by simp
  }
next
  case (Cons p ps)
  {
    case 1
    then obtain d1 where "insert_pass gen now lib sid stid p d = Inr d1"
      "fold_r (insert_pass gen now lib sid stid) ps d1 = Inr d'" by (auto simp: rbind_eq_Inr)
    then show ?case using Cons.IH(1)[of d1] insert_pass_Inr(1) same_but_pair_trans by blast
  next
    case 2
    then obtain d1 where "insert_pass gen now lib sid stid p d = Inr d1"
      "fold_r (insert_pass gen now lib sid stid) ps d1 = Inr d'" by (auto simp: rbind_eq_Inr)
    then show ?case using Cons.IH(2)[of d1] insert_pass_Inr(2) by fastforce
  next
    case 3
    then obtain d1 where "insert_pass gen now lib sid stid p d = Inr d1"
      "fold_r (insert_pass gen now lib sid stid) ps d1 = Inr d'" by (auto simp: rbind_eq_Inr)
    then show ?case using Cons.IH(3)[of d1] insert_pass_Inr(3) 3(1) by blast
  }
qed

text \<open>The passes the use case is about: the service's result for a stored satellite and station.\<close>

definition passes_for ::
  "('s, 'o, 't) skyfield \<Rightarrow> ('g, 'w) shapely \<Rightarrow> py_datetime \<times> py_datetime \<Rightarrow> real \<Rightarrow> int \<Rightarrow>
   satellite \<Rightarrow> 'w ground_station \<Rightarrow> satellite_pass list result" where
  "passes_for sky lib window min_el n sat station =
     compute_passes sky (tle_line1 sat) (tle_line2 sat)
       \<lparr>obs_latitude = snd (wkb_to_lonlat lib (location station)),
        obs_longitude = fst (wkb_to_lonlat lib (location station)), elevation_m = altitude_m station\<rparr>
       window min_el n"

lemma use_case_unfold:
  assumes "lookup sat_id sid (satellites d) = Some sat" and "lookup st_id stid (stations d) = Some station"
  shows "compute_passes_use_case gen now sky lib sid stid window min_el n d =
    rbind (passes_for sky lib window min_el n sat station) (\<lambda>predicted.
      rbind (fold_r (insert_pass gen now lib sid stid) predicted
               (d\<lparr>predictions := delete_for_satellite_and_station sid stid (predictions d)\<rparr>)) (\<lambda>d'.
      Inr (length predicted, d')))"
  using assms by (simp add: compute_passes_use_case_def passes_for_def get_by_id_lookup case_prod_beta)

lemma cleared_pair:
  "same_but_pair sid stid d (d\<lparr>predictions := delete_for_satellite_and_station sid stid (predictions d)\<rparr>)"
  "pair_content (d\<lparr>predictions := delete_for_satellite_and_station sid stid (predictions d)\<rparr>) sid stid = []"
  by (auto simp: same_but_pair_def pair_content_def of_pair_def delete_for_satellite_and_station_def
      delete_where_def filter_empty_conv intro!: filter_cong)

lemma use_case_Inr:
  assumes "compute_passes_use_case gen now sky lib sid stid window min_el n d = Inr (k, d')"
  shows "\<exists>sat station passes. lookup sat_id sid (satellites d) = Some sat \<and>
      lookup st_id stid (stations d) = Some station \<and>
      passes_for sky lib window min_el n sat station = Inr passes \<and> k = length passes \<and>
      pair_content d' sid stid = map (stored_pass lib) passes"
    "same_but_pair sid stid d d'" "db_ok d \<Longrightarrow> db_ok d'"
proof -
  let ?d0 = "d\<lparr>predictions := delete_for_satellite_and_station sid stid (predictions d)\<rparr>"
  obtain sat station where found: "lookup sat_id sid (satellites d) = Some sat"
      "lookup st_id stid (stations d) = Some station"
    using assms by (auto simp: compute_passes_use_case_def get_by_id_lookup split: option.splits)
  obtain passes where p: "passes_for sky lib window min_el n sat station = Inr passes"
    and fold: "fold_r (insert_pass gen now lib sid stid) passes ?d0 = Inr d'" and k: "k = length passes"
    using assms unfolding use_case_unfold[OF found] by (auto simp: rbind_eq_Inr)
  show "\<exists>sat station passes. lookup sat_id sid (satellites d) = Some sat \<and>
      lookup st_id stid (stations d) = Some station \<and>
      passes_for sky lib window min_el n sat station = Inr passes \<and> k = length passes \<and>
      pair_content d' sid stid = map (stored_pass lib) passes"
    using found p k insert_passes_Inr(2)[OF fold] cleared_pair(2) by simp
  show "same_but_pair sid stid d d'"
    by (rule same_but_pair_trans[OF cleared_pair(1) insert_passes_Inr(1)[OF fold]])
  show "db_ok d'" if "db_ok d"
  proof (rule insert_passes_Inr(3)[OF fold])
    show "db_ok ?d0"
      using that predictions_ok_delete by (auto simp: db_ok_def delete_for_satellite_and_station_def)
  qed
qed

lemma pair_content_other:
  assumes "same_but_pair sid stid d d'" and "sid' \<noteq> sid \<or> stid' \<noteq> stid"
  shows "pair_content d' sid' stid' = pair_content d sid' stid'"
proof -
  have "filter (of_pair sid' stid') ps = filter (of_pair sid' stid') (filter (\<lambda>p. \<not> of_pair sid stid p) ps)" for ps
    using assms(2) by (auto simp: of_pair_def intro!: filter_cong)
  then show ?thesis using assms(1) unfolding pair_content_def same_but_pair_def by metis
qed

subsection \<open>When the use case cannot fail\<close>

lemma insert_passes_total:
  assumes "fresh_ids gen" and "sid \<in> sat_id ` set (satellites d)" and "stid \<in> st_id ` set (stations d)"
    and "distinct (map aos_at ps)" and "\<forall>p \<in> set ps. 2 \<le> length (ground_track p)"
    and "\<forall>p \<in> set ps. (sid, stid, aos_at p) \<notin> pass_key ` set (predictions d)"
  shows "\<exists>d'. fold_r (insert_pass gen now lib sid stid) ps d = Inr d'"
  using assms(2-)
proof (induction ps arbitrary: d)
  case (Cons p ps)
  let ?row = "\<lparr>pp_id = gen (map pp_id (predictions d)), satellite_id = sid, ground_station_id = stid,
               pp_aos_at = aos_at p, pp_los_at = los_at p, pp_peak_at = peak_at p,
               pp_peak_elevation_deg = peak_elevation_deg p,
               track = from_shape lib (LineString lib (ground_track p)) SRID_WGS84,
               pp_created_at = now, pp_updated_at = None\<rparr>"
  have "gen (map pp_id (predictions d)) \<notin> pp_id ` set (predictions d)"
    using assms(1) unfolding fresh_ids_def by (metis set_map)
  moreover have "(sid, stid, aos_at p) \<notin> pass_key ` set (predictions d)" using Cons.prems(5) by simp
  ultimately have "prediction_violation (satellites d) (stations d) ?row (predictions d) = None"
    using Cons.prems(1,2) by (simp add: prediction_violation_def pass_key_def[of ?row])
  moreover have "\<not> length (ground_track p) < 2" using Cons.prems(4) by simp
  ultimately have one: "insert_pass gen now lib sid stid p d = Inr (d\<lparr>predictions := predictions d @ [?row]\<rparr>)"
    by (simp add: insert_pass_def linestring_to_wkb_def repo_create_def)
  have "\<forall>q \<in> set ps. (sid, stid, aos_at q) \<notin> pass_key ` set (predictions d @ [?row])"
  proof
    fix q assume q: "q \<in> set ps"
    then have "aos_at q \<noteq> aos_at p" using Cons.prems(3) by (metis distinct.simps(2) imageI list.simps(9) set_map)
    then show "(sid, stid, aos_at q) \<notin> pass_key ` set (predictions d @ [?row])"
      using Cons.prems(5) q by (simp add: pass_key_def[of ?row])
  qed
  then show ?case
    using Cons.IH[of "d\<lparr>predictions := predictions d @ [?row]\<rparr>"] Cons.prems one by simp
qed simp

lemma use_case_total:
  assumes ok: "db_ok d" and "fresh_ids gen" and "skyfield_ok sky"
    and sat: "lookup sat_id sid (satellites d) = Some sat" "EarthSatellite sky (tle_line1 sat) (tle_line2 sat) = Inr e"
    and station: "lookup st_id stid (stations d) = Some station"
    and "t0 < t1" "0 < el" "el < 90" "2 \<le> n"
  shows "\<exists>k d'. compute_passes_use_case gen now sky lib sid stid (Aware t0, Aware t1) el n d = Inr (k, d')"
proof -
  obtain ps where ps: "passes_for sky lib (Aware t0, Aware t1) el n sat station = Inr ps"
    "distinct (map aos_at ps)" "\<forall>p \<in> set ps. length (ground_track p) = nat n"
    using compute_passes_total[OF assms(3) sat(2) assms(7-10)] unfolding passes_for_def by blast
  let ?d0 = "d\<lparr>predictions := delete_for_satellite_and_station sid stid (predictions d)\<rparr>"
  have "\<forall>p \<in> set ps. (sid, stid, aos_at p) \<notin> pass_key ` set (predictions ?d0)"
    by (auto simp: delete_for_satellite_and_station_def sql_simps pass_key_def)
  moreover have "sid \<in> sat_id ` set (satellites ?d0)" "stid \<in> st_id ` set (stations ?d0)"
    using lookup_SomeD[OF sat(1)] lookup_SomeD[OF station] by auto
  moreover have "\<forall>p \<in> set ps. 2 \<le> length (ground_track p)" using ps(3) assms(10) by auto
  ultimately obtain d' where "fold_r (insert_pass gen now lib sid stid) ps ?d0 = Inr d'"
    using insert_passes_total[OF assms(2) _ _ ps(2), of sid ?d0 stid now lib] by blast
  then show ?thesis unfolding use_case_unfold[OF sat(1) station] by (simp add: ps(1))
qed

subsection \<open>All the stations of one satellite\<close>

text \<open>The rows of a satellite and a station are the passes of the stored TLE in the given window.\<close>

definition pair_current ::
  "('s, 'o, 't) skyfield \<Rightarrow> ('g, 'w) shapely \<Rightarrow> py_datetime \<times> py_datetime \<Rightarrow> uuid \<Rightarrow> uuid \<Rightarrow> 'w db \<Rightarrow> bool" where
  "pair_current sky lib window sid stid d \<longleftrightarrow> (\<exists>sat station passes.
     lookup sat_id sid (satellites d) = Some sat \<and> lookup st_id stid (stations d) = Some station \<and>
     passes_for sky lib window 10 24 sat station = Inr passes \<and>
     pair_content d sid stid = map (stored_pass lib) passes)"

lemma recompute_station_Inr:
  assumes "recompute_station cfg gen now tnow sky lib sid station d = Inr d'"
  shows "same_but_pair sid (st_id station) d d'"
    "pair_current sky lib (horizon_window cfg now) sid (st_id station) d'" "db_ok d \<Longrightarrow> db_ok d'"
proof -
  obtain k where uc: "compute_passes_use_case gen tnow sky lib sid (st_id station) (horizon_window cfg now) 10 24 d =
      Inr (k, d')"
    using assms by (auto simp: recompute_station_def rbind_eq_Inr)
  note u = use_case_Inr[OF uc]
  show "same_but_pair sid (st_id station) d d'" by (rule u(2))
  then show "pair_current sky lib (horizon_window cfg now) sid (st_id station) d'"
    using u(1) unfolding pair_current_def same_but_pair_def by metis
  show "db_ok d \<Longrightarrow> db_ok d'" by (rule u(3))
qed

lemma pair_current_kept:
  assumes "same_but_pair sid stid' d d'" and "pair_current sky lib window sid stid d" and "stid \<noteq> stid'"
  shows "pair_current sky lib window sid stid d'"
proof -
  have "pair_content d' sid stid = pair_content d sid stid"
    by (rule pair_content_other[OF assms(1)]) (simp add: assms(3))
  then show ?thesis using assms(1,2) unfolding pair_current_def same_but_pair_def by simp
qed

text \<open>The tables agree but for the predictions of one satellite over some stations.\<close>

definition same_but_stations :: "uuid \<Rightarrow> uuid set \<Rightarrow> 'w db \<Rightarrow> 'w db \<Rightarrow> bool" where
  "same_but_stations sid stids d d' \<longleftrightarrow> satellites d' = satellites d \<and> stations d' = stations d \<and>
     events d' = events d \<and> notified d' = notified d \<and>
     (\<forall>sid' stid. (if sid' = sid then stid \<notin> stids else True) \<longrightarrow>
        pair_content d' sid' stid = pair_content d sid' stid)"

lemma recompute_fold_Inr:
  assumes "fold_r (recompute_station cfg gen now tnow sky lib sid) sts d = Inr d'"
  shows "same_but_stations sid (st_id ` set sts) d d' \<and>
    (\<forall>stid \<in> st_id ` set sts. pair_current sky lib (horizon_window cfg now) sid stid d') \<and>
    (db_ok d \<longrightarrow> db_ok d')"
  using assms
proof (induction sts arbitrary: d)
  case Nil
  then show ?case by (simp add: same_but_stations_def)
next
  case (Cons st sts)
  obtain d1 where one: "recompute_station cfg gen now tnow sky lib sid st d = Inr d1"
    and rest: "fold_r (recompute_station cfg gen now tnow sky lib sid) sts d1 = Inr d'"
    using Cons.prems by (auto simp: rbind_eq_Inr)
  note s = recompute_station_Inr[OF one]
  have IH: "same_but_stations sid (st_id ` set sts) d1 d'"
    "\<forall>stid \<in> st_id ` set sts. pair_current sky lib (horizon_window cfg now) sid stid d'"
    "db_ok d1 \<longrightarrow> db_ok d'"
    using Cons.IH[OF rest] by blast+
  have "same_but_stations sid (st_id ` set (st # sts)) d d'"
    using IH(1) s(1) pair_content_other[OF s(1)] unfolding same_but_stations_def
    by (auto simp: same_but_pair_def)
  moreover have "pair_current sky lib (horizon_window cfg now) sid (st_id st) d'"
  proof (cases "st_id st \<in> st_id ` set sts")
    case False
    then have "pair_content d' sid (st_id st) = pair_content d1 sid (st_id st)"
      using IH(1) by (simp add: same_but_stations_def)
    then show ?thesis
      using s(2) IH(1) unfolding pair_current_def same_but_stations_def by simp
  qed (use IH(2) in blast)
  ultimately show ?case using IH(2,3) s(3) by simp
qed

lemma recompute_fold_total:
  assumes ok: "db_ok d" and gen: "fresh_ids gen" and sky: "skyfield_ok sky"
    and sat: "lookup sat_id sid (satellites d) = Some sat" "EarthSatellite sky (tle_line1 sat) (tle_line2 sat) = Inr e"
    and h: "0 < PASS_PREDICTION_HORIZON_HOURS cfg" and "\<forall>st \<in> set sts. st_id st \<in> st_id ` set (stations d)"
  shows "\<exists>d'. fold_r (recompute_station cfg gen now tnow sky lib sid) sts d = Inr d'"
  using ok sat(1) assms(7)
proof (induction sts arbitrary: d)
  case (Cons st sts)
  obtain station where station: "lookup st_id (st_id st) (stations d) = Some station"
    using Cons.prems(3) lookup_None_iff[of st_id "st_id st" "stations d"] by fastforce
  obtain d1 where one: "recompute_station cfg gen now tnow sky lib sid st d = Inr d1"
    using use_case_total[OF Cons.prems(1) gen sky Cons.prems(2) sat(2) station, of now
        "now + seconds (PASS_PREDICTION_HORIZON_HOURS cfg * 3600)" 10 24 tnow lib] h
    by (auto simp: recompute_station_def horizon_window_def)
  note s = recompute_station_Inr[OF one]
  have "satellites d1 = satellites d" "stations d1 = stations d" using s(1) by (simp_all add: same_but_pair_def)
  then show ?case using Cons.IH[OF s(3)[OF Cons.prems(1)]] Cons.prems one by simp
qed simp

subsection \<open>Redelivery\<close>

text \<open>What can be observed of the tables but for the ids and times of prediction rows.\<close>

definition observed :: "'w db \<Rightarrow> satellite list \<times> 'w ground_station list \<times> event list \<times> (uuid \<Rightarrow> uuid \<Rightarrow> 'w pass_content list)" where
  "observed d = (satellites d, stations d, events d, pair_content d)"

lemma recompute_passes_None:
  assumes "recompute_passes cfg gen now tnow sky lib collate payload d = (None, d')"
  shows "\<exists>sid. payload_satellite_id payload = Inr sid \<and>
    fold_r (recompute_station cfg gen now tnow sky lib sid) (list_all_stations collate (stations d)) d = Inr d'"
  using assms by (auto simp: recompute_passes_def rbind_eq_Inr split: sum.splits)

lemma pair_current_content:
  assumes "pair_current sky lib window sid stid d" and "pair_current sky lib window sid stid d'"
    and "satellites d' = satellites d" and "stations d' = stations d"
  shows "pair_content d' sid stid = pair_content d sid stid"
  using assms by (auto simp: pair_current_def)

interpretation recompute: idempotent_handler "recompute_passes cfg gen now tnow sky lib collate" observed
  for cfg gen now tnow sky lib collate
proof unfold_locales
  fix payload d e d1
  assume "recompute_passes cfg gen now tnow sky lib collate payload d = (Some e, d1)"
  then show "d1 = d" by (auto simp: recompute_passes_def split: sum.splits)
next
  fix payload d d1 d2
  assume "recompute_passes cfg gen now tnow sky lib collate payload d = (None, d1)"
    and "recompute_passes cfg gen now tnow sky lib collate payload d1 = (None, d2)"
  then obtain sid where
    r1: "fold_r (recompute_station cfg gen now tnow sky lib sid) (list_all_stations collate (stations d)) d = Inr d1"
    and r2: "fold_r (recompute_station cfg gen now tnow sky lib sid) (list_all_stations collate (stations d1)) d1 = Inr d2"
    using recompute_passes_None by (metis Inr_inject)
  let ?ids = "st_id ` set (stations d)"
  have 1: "same_but_stations sid ?ids d d1"
    "\<forall>stid \<in> ?ids. pair_current sky lib (horizon_window cfg now) sid stid d1"
    using recompute_fold_Inr[OF r1] by (simp_all add: sql_simps)
  have st: "stations d1 = stations d" using 1(1) by (simp add: same_but_stations_def)
  have 2: "same_but_stations sid ?ids d1 d2"
    "\<forall>stid \<in> ?ids. pair_current sky lib (horizon_window cfg now) sid stid d2"
    using recompute_fold_Inr[OF r2] st by (simp_all add: sql_simps)
  have "pair_content d2 sid' stid = pair_content d1 sid' stid" for sid' stid
  proof (cases "sid' = sid \<and> stid \<in> ?ids")
    case True
    then show ?thesis
      using pair_current_content[of sky lib "horizon_window cfg now" sid stid d1 d2] 1(2) 2
      by (simp add: same_but_stations_def)
  next
    case False
    then show ?thesis using 2(1) by (simp add: same_but_stations_def)
  qed
  then show "observed d2 = observed d1"
    using 2(1) by (simp add: observed_def same_but_stations_def ext)
qed

subsection \<open>The query\<close>

lemma map_of_fold_update:
  "distinct (map sat_id xs) \<Longrightarrow>
   map_of (fold (\<lambda>s. AList.update (sat_id s) s) xs al) i =
     (case lookup sat_id i xs of None \<Rightarrow> map_of al i | Some s \<Rightarrow> Some s)"
proof (induction xs arbitrary: al)
  case (Cons x xs)
  then have "lookup sat_id (sat_id x) xs = None" by (simp add: lookup_None_iff)
  then show ?case using Cons by (auto simp: update_conv' split: option.splits)
qed simp

lemma lookup_permuted:
  assumes "distinct (map key xs)" and "distinct (map key ys)" and "set xs = set ys"
  shows "lookup key k xs = lookup key k ys"
proof (cases "lookup key k ys")
  case None
  then have "lookup key k xs = None" unfolding lookup_None_iff assms(3) .
  then show ?thesis using None by simp
next
  case (Some r)
  then have r: "r \<in> set xs" "key r = k" using lookup_SomeD[OF Some] assms(3) by simp_all
  have "lookup key (key r) xs = Some r" by (rule lookup_unique[OF assms(1) r(1)])
  then show ?thesis using r(2) Some by simp
qed

lemma satellites_by_id_lookup:
  assumes "distinct (map sat_id sats)"
  shows "map_of (satellites_by_id collate sats) i = lookup sat_id i sats"
proof -
  have d: "distinct (map sat_id (list_all_satellites collate sats))"
    using assms by (simp add: list_all_satellites_def select_order_by_def distinct_map distinct_sort)
  have "lookup sat_id i (list_all_satellites collate sats) = lookup sat_id i sats"
    by (rule lookup_permuted[OF d assms]) (simp add: sql_simps)
  then show ?thesis
    unfolding satellites_by_id_def map_of_fold_update[OF d] by (simp split: option.split)
qed

text \<open>Every stored track is a line of at least two points, as \<open>linestring_to_wkb\<close> makes it.\<close>

definition tracks_ok :: "('g, 'w) shapely \<Rightarrow> 'w db \<Rightarrow> bool" where
  "tracks_ok lib d \<longleftrightarrow> (\<forall>p \<in> set (predictions d). \<exists>points. linestring_to_wkb lib points = Inr (track p))"

text \<open>The view of a row.\<close>

definition view_of_row :: "'w db \<Rightarrow> 'w pass_prediction \<Rightarrow> pass_view \<Rightarrow> bool" where
  "view_of_row d p v \<longleftrightarrow>
     (\<exists>s. lookup sat_id (satellite_id p) (satellites d) = Some s \<and> pv_norad_id v = norad_id s \<and> pv_name v = sat_name s) \<and>
     pv_aos_at v = pp_aos_at p \<and> pv_los_at v = pp_los_at p \<and> pv_peak_at v = pp_peak_at p \<and>
     pv_peak_elevation_deg v = pp_peak_elevation_deg p \<and> map_of (pv_track v) ''type'' = Some (PStr ''LineString'')"

lemma pass_view_total:
  assumes "db_ok d" and "shapely_ok lib" and "tracks_ok lib d" and p: "p \<in> set (predictions d)"
  shows "\<exists>v. pass_view_of lib (satellites_by_id collate (satellites d)) p = Inr v \<and> view_of_row d p v"
proof -
  have "satellite_id p \<in> sat_id ` set (satellites d)"
    using db_okD(3)[OF assms(1)] p by (simp add: predictions_ok_def)
  then obtain s where s: "lookup sat_id (satellite_id p) (satellites d) = Some s"
    using lookup_None_iff[of sat_id "satellite_id p" "satellites d"] by fastforce
  obtain points where "linestring_to_wkb lib points = Inr (track p)"
    using assms(3) p unfolding tracks_ok_def by blast
  note geo = linestring_geojson[OF assms(2) this]
  show ?thesis
    using s geo by (simp add: pass_view_of_def satellites_by_id_lookup[OF db_okD(5)[OF assms(1)]] view_of_row_def)
qed

lemma map_r_list_all2:
  "(\<And>x. x \<in> set xs \<Longrightarrow> \<exists>y. f x = Inr y \<and> P x y) \<Longrightarrow> \<exists>ys. map_r f xs = Inr ys \<and> list_all2 P xs ys"
proof (induction xs)
  case (Cons x xs)
  then obtain y ys where "f x = Inr y" "P x y" "map_r f xs = Inr ys" "list_all2 P xs ys" by fastforce
  then show ?case by simp
qed simp

lemma recompute_completes:
  assumes "db_ok d" and "fresh_ids gen" and "skyfield_ok sky"
    and "lookup sat_id sid (satellites d) = Some sat"
    and "EarthSatellite sky (tle_line1 sat) (tle_line2 sat) = Inr e"
    and "0 < PASS_PREDICTION_HORIZON_HOURS cfg"
    and pid: "payload_satellite_id payload = Inr sid"
  shows "\<exists>d'. recompute_passes cfg gen now tnow sky lib collate payload d = (None, d') \<and> db_ok d' \<and>
    (\<forall>station \<in> set (stations d). \<exists>passes.
       passes_for sky lib (horizon_window cfg now) 10 24 sat station = Inr passes \<and>
       map row_content (filter (of_pair sid (st_id station)) (predictions d')) = map (stored_pass lib) passes) \<and>
    (\<forall>sid' stid. sid' \<noteq> sid \<longrightarrow> pair_content d' sid' stid = pair_content d sid' stid) \<and>
    satellites d' = satellites d \<and> stations d' = stations d \<and> events d' = events d"
proof -
  let ?sts = "list_all_stations collate (stations d)"
  have "\<forall>st \<in> set ?sts. st_id st \<in> st_id ` set (stations d)" by (simp add: sql_simps)
  from recompute_fold_total[OF assms(1-6) this] obtain d' where
    run: "fold_r (recompute_station cfg gen now tnow sky lib sid) ?sts d = Inr d'" by blast
  then have h: "recompute_passes cfg gen now tnow sky lib collate payload d = (None, d')"
    by (simp add: recompute_passes_def pid)
  have r: "same_but_stations sid (st_id ` set (stations d)) d d'"
    "\<forall>stid \<in> st_id ` set (stations d). pair_current sky lib (horizon_window cfg now) sid stid d'" "db_ok d'"
    using recompute_fold_Inr[OF run] assms(1) by (simp_all add: sql_simps)
  have "\<exists>passes. passes_for sky lib (horizon_window cfg now) 10 24 sat station = Inr passes \<and>
       pair_content d' sid (st_id station) = map (stored_pass lib) passes"
    if station: "station \<in> set (stations d)" for station
  proof -
    have "lookup st_id (st_id station) (stations d) = Some station"
      using lookup_unique[OF db_okD(7)[OF assms(1)] station] .
    then show ?thesis
      using r(1,2) station assms(4) by (auto simp: pair_current_def same_but_stations_def)
  qed
  then show ?thesis
    using h r(1,3) unfolding same_but_stations_def pair_content_def[symmetric] by auto
qed

lemma recompute_complete:
  assumes "db_ok d" and "fresh_ids gen" and "skyfield_ok sky"
    and "lookup sat_id sid (satellites d) = Some sat"
    and "EarthSatellite sky (tle_line1 sat) (tle_line2 sat) = Inr e"
    and "0 < PASS_PREDICTION_HORIZON_HOURS cfg"
    and "map_of payload ''satellite_id'' = Some (JStr (uuid_str sid))" and "sid < 2 ^ 128"
  shows "\<exists>d'. recompute_passes cfg gen now tnow sky lib collate payload d = (None, d') \<and> db_ok d' \<and>
    (\<forall>station \<in> set (stations d). \<exists>passes.
       passes_for sky lib (horizon_window cfg now) 10 24 sat station = Inr passes \<and>
       map row_content (filter (of_pair sid (st_id station)) (predictions d')) = map (stored_pass lib) passes) \<and>
    (\<forall>sid' stid. sid' \<noteq> sid \<longrightarrow> pair_content d' sid' stid = pair_content d sid' stid) \<and>
    satellites d' = satellites d \<and> stations d' = stations d \<and> events d' = events d"
proof -
  have "payload_satellite_id payload = Inr sid"
    using assms(7) uuid_parse_str[OF assms(8)] by (simp add: payload_satellite_id_def)
  from recompute_completes[OF assms(1-6) this] show ?thesis .
qed

lemma station_passes_result:
  assumes "db_ok d" and "shapely_ok lib" and "tracks_ok lib d"
  shows "if stid \<in> st_id ` set (stations d)
    then \<exists>views. get_ground_station_passes lib collate stid after d = Inr views \<and>
      sorted (map pv_aos_at views) \<and>
      list_all2 (view_of_row d)
        (sort_key pp_aos_at (filter (\<lambda>p. ground_station_id p = stid \<and> after \<le> pp_aos_at p) (predictions d))) views
    else get_ground_station_passes lib collate stid after d = Inl (NotFoundError ''GroundStation'' (Some stid))"
proof (cases "lookup st_id stid (stations d)")
  case None
  then have "stid \<notin> st_id ` set (stations d)" unfolding lookup_None_iff .
  then show ?thesis using None by (simp add: get_ground_station_passes_def get_by_id_lookup)
next
  case (Some station)
  then have mem: "stid \<in> st_id ` set (stations d)" by (auto dest: lookup_SomeD)
  let ?rows = "list_for_ground_station stid after (predictions d)"
  have "\<exists>views. map_r (pass_view_of lib (satellites_by_id collate (satellites d))) ?rows = Inr views \<and>
      list_all2 (view_of_row d) ?rows views"
    by (rule map_r_list_all2, rule pass_view_total[OF assms])
      (simp add: list_for_ground_station_def sql_simps)
  then obtain views where v: "map_r (pass_view_of lib (satellites_by_id collate (satellites d))) ?rows = Inr views"
    "list_all2 (view_of_row d) ?rows views" by blast
  have "map pv_aos_at views = map pp_aos_at ?rows"
    using v(2) by (induction rule: list_all2_induct) (auto simp: view_of_row_def)
  then have "sorted (map pv_aos_at views)"
    by (simp add: list_for_ground_station_def select_order_by_def)
  then show ?thesis
    using v mem Some
    by (simp add: get_ground_station_passes_def get_by_id_lookup list_for_ground_station_def select_order_by_def)
qed

subsection \<open>Properties\<close>

definition sample_sat :: satellite where
  "sample_sat = \<lparr>sat_id = 3, norad_id = 25544, sat_name = ''ISS'', tle_line1 = ''1 25544U'',
     tle_line2 = ''2 25544'', epoch = 7, sat_created_at = 0, sat_updated_at = None\<rparr>"

type_synonym plain_wkb = "real \<times> real + (real \<times> real) list"

definition sample_station :: "plain_wkb ground_station" where
  "sample_station = \<lparr>st_id = 4, st_name = ''Madrid'', location = point_to_wkb plain_shapely 40 (- 4),
     altitude_m = 667, st_created_at = 0, st_updated_at = None\<rparr>"

definition sample_db :: "plain_wkb db" where
  "sample_db = \<lparr>satellites = [sample_sat], stations = [sample_station], predictions = [], events = [], notified = []\<rparr>"

definition sample_payload :: payload where
  "sample_payload = refreshed_payload sample_sat 25544"

lemma sample_db_ok: "db_ok sample_db"
  by (simp add: db_ok_def sample_db_def satellites_ok_def stations_ok_def predictions_ok_def events_ok_def
      sample_sat_def sample_station_def)

lemma sample_db_lookup: "lookup sat_id 3 (satellites sample_db) = Some sample_sat"
  "lookup st_id 4 (stations sample_db) = Some sample_station"
  "EarthSatellite sample_sky (tle_line1 sample_sat) (tle_line2 sample_sat) = Inr ''1 25544U''"
  by (simp_all add: sample_db_def sample_sat_def sample_station_def sample_sky_def)

text \<open>C17. The use case replaces the predictions of its satellite and station, and nothing else: afterwards
  the rows of the pair are, in order, exactly the passes the service computes for the stored TLE seen
  from the stored location; every other row of every table is untouched, the invariant (unique keys,
  existing satellite and station) holds, and the result is the number of passes.\<close>

theorem use_case_replaces_pair:
  assumes "compute_passes_use_case gen now sky lib sid stid window min_el n d = Inr (k, d')" and "db_ok d"
  shows "\<exists>sat station passes. lookup sat_id sid (satellites d) = Some sat \<and>
    lookup st_id stid (stations d) = Some station \<and>
    compute_passes sky (tle_line1 sat) (tle_line2 sat)
       \<lparr>obs_latitude = snd (wkb_to_lonlat lib (location station)),
        obs_longitude = fst (wkb_to_lonlat lib (location station)), elevation_m = altitude_m station\<rparr>
       window min_el n = Inr passes \<and> k = length passes \<and>
    map row_content (filter (of_pair sid stid) (predictions d')) = map (stored_pass lib) passes \<and>
    filter (\<lambda>p. \<not> of_pair sid stid p) (predictions d') = filter (\<lambda>p. \<not> of_pair sid stid p) (predictions d) \<and>
    satellites d' = satellites d \<and> stations d' = stations d \<and> events d' = events d \<and> db_ok d'"
  using use_case_Inr[OF assms(1)] assms(2) unfolding passes_for_def pair_content_def same_but_pair_def by metis

lemma sample_use_case: "\<exists>k d'. compute_passes_use_case sample_gen 0 sample_sky plain_shapely 3 4
    (Aware 0, Aware 100) 10 24 sample_db = Inr (k, d')"
  by (rule use_case_total[OF sample_db_ok sample_gen_fresh sample_sky_ok sample_db_lookup(1,3,2)]) auto

lemma use_case_replaces_pair_witness:
  "\<exists>k d'. compute_passes_use_case sample_gen 0 sample_sky plain_shapely 3 4 (Aware 0, Aware 100) 10 24 sample_db = Inr (k, d') \<and>
     k = length (filter (of_pair 3 4) (predictions d')) \<and> db_ok d'"
proof -
  obtain k d' where run: "compute_passes_use_case sample_gen 0 sample_sky plain_shapely 3 4
      (Aware 0, Aware 100) 10 24 sample_db = Inr (k, d')"
    using sample_use_case by blast
  show ?thesis using use_case_replaces_pair[OF run sample_db_ok] run by (metis length_map)
qed

text \<open>C12. The handler of \<open>tle.refreshed\<close> does its whole job. For an event that names a stored satellite with
  a TLE skyfield accepts, when the libraries behave as documented and the horizon is positive, the
  handler ends normally, and the tables then hold, for every station, exactly the passes computed from
  the stored TLE over the window; the predictions of other satellites and all other tables are unchanged.\<close>

theorem recompute_passes_complete:
  assumes "db_ok d" and "fresh_ids gen" and "skyfield_ok sky"
    and "lookup sat_id sid (satellites d) = Some sat"
    and "EarthSatellite sky (tle_line1 sat) (tle_line2 sat) = Inr e"
    and "0 < PASS_PREDICTION_HORIZON_HOURS cfg"
    and "map_of payload ''satellite_id'' = Some (JStr (uuid_str sid))" and "sid < 2 ^ 128"
  shows "\<exists>d'. recompute_passes cfg gen now tnow sky lib collate payload d = (None, d') \<and> db_ok d' \<and>
    (\<forall>station \<in> set (stations d). \<exists>passes.
       passes_for sky lib (horizon_window cfg now) 10 24 sat station = Inr passes \<and>
       map row_content (filter (of_pair sid (st_id station)) (predictions d')) = map (stored_pass lib) passes) \<and>
    (\<forall>sid' stid. sid' \<noteq> sid \<longrightarrow> pair_content d' sid' stid = pair_content d sid' stid) \<and>
    satellites d' = satellites d \<and> stations d' = stations d \<and> events d' = events d"
  by (rule recompute_complete[OF assms])

lemma recompute_passes_complete_witness:
  "\<exists>d'. recompute_passes default_settings sample_gen 0 0 sample_sky plain_shapely (\<lambda>_. 0) sample_payload sample_db =
     (None, d') \<and> db_ok d'"
proof -
  have "map_of sample_payload ''satellite_id'' = Some (JStr (uuid_str 3))"
    by (simp add: sample_payload_def refreshed_payload_def sample_sat_def)
  moreover have "0 < PASS_PREDICTION_HORIZON_HOURS default_settings" by (simp add: default_settings_def)
  ultimately show ?thesis
    using recompute_passes_complete[OF sample_db_ok sample_gen_fresh sample_sky_ok sample_db_lookup(1,3),
        of default_settings sample_payload] by fastforce
qed



end
