(* ===== verification/Schema.thy ===== *)
theory Schema
  imports Db Jobs
begin

text \<open>
  The database schema, twice: as the migration creates it
  (\<open>migrations/versions/3bc965b4d0d6_initial_schema.py\<close>) and as the models declare it (the ORM classes of
  \<open>app/core/jobs/models.py\<close>, \<open>app/core/events/models.py\<close>, \<open>app/tracking/models\<close> with the mixins and the
  naming convention of \<open>app/core/db.py\<close>). A schema is the list of its tables with columns,
  constraints and indexes; the operations of the migration are steps on a database that fail as
  PostgreSQL fails. A row is a function from column names to values; \<open>insert_accepted\<close> is
  PostgreSQL's reading of the constraints, against which the checks of the theory \<open>Db\<close> are proved.
\<close>

subsection \<open>Schemas\<close>

datatype sql_type =
    UUID_type
  | String_type nat
  | Text_type
  | Integer_type
  | BigInteger_type
  | Float_type
  | Timestamptz_type
  | JSONB_type
  | Geometry_type string int

text \<open>A server default: an SQL expression, or a literal that is quoted.\<close>

datatype sql_default = Expression string | Literal string

record column =
  col_name :: string
  col_type :: sql_type
  col_nullable :: bool
  col_default :: "sql_default option"

text \<open>Constraints with their names; a foreign key with the table and columns it refers to and \<open>ondelete\<close>.\<close>

datatype constraint =
    Primary_key string "string list"
  | Unique_key string "string list"
  | Foreign_key string "string list" string "string list" string

record index =
  ix_name :: string
  ix_columns :: "string list"
  ix_using :: "string option"
  ix_where :: "string option"

record table =
  tbl_name :: string
  tbl_columns :: "column list"
  tbl_constraints :: "constraint list"
  tbl_indexes :: "index list"

text \<open>A column of a table with \<open>nullable=False\<close>, one with \<open>nullable=True\<close>, and one with a server default.\<close>

definition required :: "string \<Rightarrow> sql_type \<Rightarrow> column" where
  "required name ty = \<lparr>col_name = name, col_type = ty, col_nullable = False, col_default = None\<rparr>"

definition optional :: "string \<Rightarrow> sql_type \<Rightarrow> column" where
  "optional name ty = \<lparr>col_name = name, col_type = ty, col_nullable = True, col_default = None\<rparr>"

definition defaulted :: "string \<Rightarrow> sql_type \<Rightarrow> sql_default \<Rightarrow> column" where
  "defaulted name ty dflt = \<lparr>col_name = name, col_type = ty, col_nullable = False, col_default = Some dflt\<rparr>"

subsection \<open>A database and the operations of a migration\<close>

text \<open>The installed extensions, the tables, and the rows of \<open>scheduled_jobs\<close>, which the migration seeds.\<close>

record pg =
  extensions :: "string list"
  pg_tables :: "table list"
  pg_jobs :: "job list"

definition empty_pg :: pg where
  "empty_pg = \<lparr>extensions = [], pg_tables = [], pg_jobs = []\<rparr>"

datatype operation =
    Create_extension string
  | Create_table string "column list" "constraint list"
  | Create_index string string "string list" "string option" "string option"
  | Drop_index string string
  | Drop_table string
  | Seed_job string string int

definition find_table :: "string \<Rightarrow> table list \<Rightarrow> table option" where
  "find_table name tables = lookup tbl_name name tables"

definition needs_postgis :: "column \<Rightarrow> bool" where
  "needs_postgis c = (case col_type c of Geometry_type _ _ \<Rightarrow> True | _ \<Rightarrow> False)"

fun constraint_columns :: "constraint \<Rightarrow> string list" where
  "constraint_columns (Primary_key _ cs) = cs"
| "constraint_columns (Unique_key _ cs) = cs"
| "constraint_columns (Foreign_key _ cs _ _ _) = cs"

text \<open>The columns a foreign key may refer to: those of a primary or unique key.\<close>

definition key_columns :: "table \<Rightarrow> string list list" where
  "key_columns t = [cs. Primary_key _ cs \<leftarrow> tbl_constraints t] @ [cs. Unique_key _ cs \<leftarrow> tbl_constraints t]"

fun reference_ok :: "table list \<Rightarrow> constraint \<Rightarrow> bool" where
  "reference_ok tables (Foreign_key _ _ referred cs _) =
     (case find_table referred tables of None \<Rightarrow> False | Some t \<Rightarrow> List.member (key_columns t) cs)"
| "reference_ok tables _ = True"

fun refers_to :: "string \<Rightarrow> constraint \<Rightarrow> bool" where
  "refers_to name (Foreign_key _ _ referred _ _) = (referred = name)"
| "refers_to name _ = False"

definition create_table :: "string \<Rightarrow> column list \<Rightarrow> constraint list \<Rightarrow> pg \<Rightarrow> pg result" where
  "create_table name cols cons db =
     (if find_table name (pg_tables db) \<noteq> None then Inl (LibraryError ''DuplicateTable'')
      else if list_ex needs_postgis cols \<and> \<not> List.member (extensions db) ''postgis''
        then Inl (LibraryError ''UndefinedObject'')
      else if \<not> list_all (\<lambda>k. list_all (List.member (map col_name cols)) (constraint_columns k)) cons
        then Inl (LibraryError ''UndefinedColumn'')
      else if \<not> list_all (reference_ok (pg_tables db)) cons then Inl (LibraryError ''UndefinedTable'')
      else Inr (db\<lparr>pg_tables := pg_tables db @
             [\<lparr>tbl_name = name, tbl_columns = cols, tbl_constraints = cons, tbl_indexes = []\<rparr>]\<rparr>))"

definition create_index ::
  "string \<Rightarrow> string \<Rightarrow> string list \<Rightarrow> string option \<Rightarrow> string option \<Rightarrow> pg \<Rightarrow> pg result" where
  "create_index name tname cols using wh db =
     (case find_table tname (pg_tables db) of
        None \<Rightarrow> Inl (LibraryError ''UndefinedTable'')
      | Some t \<Rightarrow>
          if list_ex (\<lambda>u. List.member (map ix_name (tbl_indexes u)) name) (pg_tables db)
            then Inl (LibraryError ''DuplicateTable'')
          else if \<not> list_all (List.member (map col_name (tbl_columns t))) cols
            then Inl (LibraryError ''UndefinedColumn'')
          else Inr (db\<lparr>pg_tables := update_where (\<lambda>u. tbl_name u = tname)
                 (\<lambda>u. u\<lparr>tbl_indexes := tbl_indexes u @
                    [\<lparr>ix_name = name, ix_columns = cols, ix_using = using, ix_where = wh\<rparr>]\<rparr>) (pg_tables db)\<rparr>))"

definition drop_index :: "string \<Rightarrow> string \<Rightarrow> pg \<Rightarrow> pg result" where
  "drop_index name tname db =
     (case find_table tname (pg_tables db) of
        None \<Rightarrow> Inl (LibraryError ''UndefinedTable'')
      | Some t \<Rightarrow>
          if \<not> List.member (map ix_name (tbl_indexes t)) name then Inl (LibraryError ''UndefinedObject'')
          else Inr (db\<lparr>pg_tables := update_where (\<lambda>u. tbl_name u = tname)
                 (\<lambda>u. u\<lparr>tbl_indexes := delete_where (\<lambda>i. ix_name i = name) (tbl_indexes u)\<rparr>) (pg_tables db)\<rparr>))"

text \<open>A table that another one refers to cannot be dropped; its rows go with it.\<close>

definition drop_table :: "string \<Rightarrow> pg \<Rightarrow> pg result" where
  "drop_table name db =
     (if find_table name (pg_tables db) = None then Inl (LibraryError ''UndefinedTable'')
      else if list_ex (\<lambda>u. tbl_name u \<noteq> name \<and> list_ex (refers_to name) (tbl_constraints u)) (pg_tables db)
        then Inl (LibraryError ''DependentObjectsStillExist'')
      else Inr (db\<lparr>pg_tables := delete_where (\<lambda>u. tbl_name u = name) (pg_tables db),
             pg_jobs := (if name = ''scheduled_jobs'' then [] else pg_jobs db)\<rparr>))"

text \<open>
  \<open>INSERT INTO scheduled_jobs (\<dots>) VALUES (\<dots>) ON CONFLICT (job_name) DO NOTHING\<close>; the columns it does
  not name take their defaults.
\<close>

definition seeded_job :: "(uuid list \<Rightarrow> uuid) \<Rightarrow> datetime \<Rightarrow> string \<Rightarrow> string \<Rightarrow> int \<Rightarrow> job list \<Rightarrow> job" where
  "seeded_job gen now name descr interval jobs =
     \<lparr>job_id = gen (map job_id jobs), job_name = name, job_description = Some descr,
      interval_seconds = interval, job_status = PENDING, last_run_at = None, next_run_at = now,
      job_last_error = None, run_count = 0, claimed_by = None, lease_until = None,
      job_created_at = now, job_updated_at = None\<rparr>"

definition seed_job :: "(uuid list \<Rightarrow> uuid) \<Rightarrow> datetime \<Rightarrow> string \<Rightarrow> string \<Rightarrow> int \<Rightarrow> pg \<Rightarrow> pg result" where
  "seed_job gen now name descr interval db =
     (if find_table ''scheduled_jobs'' (pg_tables db) = None then Inl (LibraryError ''UndefinedTable'')
      else if List.member (map job_name (pg_jobs db)) name then Inr db
      else Inr (db\<lparr>pg_jobs := pg_jobs db @ [seeded_job gen now name descr interval (pg_jobs db)]\<rparr>))"

fun run_operation :: "(uuid list \<Rightarrow> uuid) \<Rightarrow> datetime \<Rightarrow> operation \<Rightarrow> pg \<Rightarrow> pg result" where
  "run_operation gen now (Create_extension e) db =
     Inr (if List.member (extensions db) e then db else db\<lparr>extensions := extensions db @ [e]\<rparr>)"
| "run_operation gen now (Create_table name cols cons) db = create_table name cols cons db"
| "run_operation gen now (Create_index name tname cols using wh) db = create_index name tname cols using wh db"
| "run_operation gen now (Drop_index name tname) db = drop_index name tname db"
| "run_operation gen now (Drop_table name) db = drop_table name db"
| "run_operation gen now (Seed_job name descr interval) db = seed_job gen now name descr interval db"

subsection \<open>The migration\<close>

definition gen_uuid :: sql_default where "gen_uuid = Expression ''gen_random_uuid()''"
definition sql_now :: sql_default where "sql_now = Expression ''now()''"

definition ground_stations_columns :: "column list" where
  "ground_stations_columns = [
     required ''name'' (String_type 255),
     required ''location'' (Geometry_type ''POINT'' 4326),
     defaulted ''altitude_m'' Float_type (Literal ''0''),
     defaulted ''id'' UUID_type gen_uuid,
     defaulted ''created_at'' Timestamptz_type sql_now,
     optional ''updated_at'' Timestamptz_type]"

definition ground_stations_constraints :: "constraint list" where
  "ground_stations_constraints = [
     Primary_key ''pk_ground_stations'' [''id''],
     Unique_key ''uq_ground_stations_name'' [''name'']]"

definition satellites_columns :: "column list" where
  "satellites_columns = [
     required ''norad_id'' BigInteger_type,
     required ''name'' (String_type 255),
     required ''tle_line1'' Text_type,
     required ''tle_line2'' Text_type,
     required ''epoch'' Timestamptz_type,
     defaulted ''id'' UUID_type gen_uuid,
     defaulted ''created_at'' Timestamptz_type sql_now,
     optional ''updated_at'' Timestamptz_type]"

definition satellites_constraints :: "constraint list" where
  "satellites_constraints = [
     Primary_key ''pk_satellites'' [''id''],
     Unique_key ''uq_satellites_norad_id'' [''norad_id'']]"

definition pass_predictions_columns :: "column list" where
  "pass_predictions_columns = [
     required ''satellite_id'' UUID_type,
     required ''ground_station_id'' UUID_type,
     required ''aos_at'' Timestamptz_type,
     required ''los_at'' Timestamptz_type,
     required ''peak_at'' Timestamptz_type,
     required ''peak_elevation_deg'' Float_type,
     required ''track'' (Geometry_type ''LINESTRING'' 4326),
     defaulted ''id'' UUID_type gen_uuid,
     defaulted ''created_at'' Timestamptz_type sql_now,
     optional ''updated_at'' Timestamptz_type]"

definition pass_predictions_constraints :: "constraint list" where
  "pass_predictions_constraints = [
     Foreign_key ''fk_pass_predictions_ground_station_id_ground_stations'' [''ground_station_id'']
       ''ground_stations'' [''id''] ''CASCADE'',
     Foreign_key ''fk_pass_predictions_satellite_id_satellites'' [''satellite_id'']
       ''satellites'' [''id''] ''CASCADE'',
     Primary_key ''pk_pass_predictions'' [''id''],
     Unique_key ''uq_pass_predictions_sat_station_aos'' [''satellite_id'', ''ground_station_id'', ''aos_at'']]"

definition scheduled_jobs_columns :: "column list" where
  "scheduled_jobs_columns = [
     defaulted ''id'' UUID_type gen_uuid,
     required ''job_name'' (String_type 255),
     optional ''description'' Text_type,
     required ''interval_seconds'' Integer_type,
     defaulted ''status'' (String_type 20) (Literal ''PENDING''),
     optional ''last_run_at'' Timestamptz_type,
     defaulted ''next_run_at'' Timestamptz_type sql_now,
     optional ''last_error'' Text_type,
     defaulted ''run_count'' Integer_type (Literal ''0''),
     optional ''claimed_by'' (String_type 255),
     optional ''lease_until'' Timestamptz_type,
     defaulted ''created_at'' Timestamptz_type sql_now,
     optional ''updated_at'' Timestamptz_type]"

definition scheduled_jobs_constraints :: "constraint list" where
  "scheduled_jobs_constraints = [
     Primary_key ''pk_scheduled_jobs'' [''id''],
     Unique_key ''uq_scheduled_jobs_job_name'' [''job_name'']]"

definition outbox_events_columns :: "column list" where
  "outbox_events_columns = [
     defaulted ''id'' UUID_type gen_uuid,
     optional ''aggregate_id'' UUID_type,
     optional ''correlation_id'' UUID_type,
     required ''event_type'' (String_type 255),
     defaulted ''payload'' JSONB_type (Literal ''{}''),
     defaulted ''status'' (String_type 20) (Literal ''PENDING''),
     defaulted ''retry_count'' Integer_type (Literal ''0''),
     defaulted ''max_retries'' Integer_type (Literal ''8''),
     defaulted ''scheduled_at'' Timestamptz_type sql_now,
     optional ''last_error'' Text_type,
     defaulted ''created_at'' Timestamptz_type sql_now,
     optional ''processed_at'' Timestamptz_type,
     defaulted ''handler_state'' JSONB_type (Literal ''{}'')]"

definition outbox_events_constraints :: "constraint list" where
  "outbox_events_constraints = [Primary_key ''pk_outbox_events'' [''id'']]"

definition pending_where :: string where
  "pending_where = ''status = '' @ [CHR 0x27] @ ''PENDING'' @ [CHR 0x27]"

definition upgrade :: "operation list" where
  "upgrade = [
     Create_extension ''postgis'',
     Create_table ''ground_stations'' ground_stations_columns ground_stations_constraints,
     Create_index ''idx_ground_stations_location'' ''ground_stations'' [''location''] (Some ''gist'') None,
     Create_table ''satellites'' satellites_columns satellites_constraints,
     Create_index ''ix_satellites_name'' ''satellites'' [''name''] None None,
     Create_table ''pass_predictions'' pass_predictions_columns pass_predictions_constraints,
     Create_index ''idx_pass_predictions_track'' ''pass_predictions'' [''track''] (Some ''gist'') None,
     Create_index ''ix_pass_predictions_ground_station_id_aos_at'' ''pass_predictions''
       [''ground_station_id'', ''aos_at''] None None,
     Create_table ''scheduled_jobs'' scheduled_jobs_columns scheduled_jobs_constraints,
     Create_index ''scheduled_jobs_pending_idx'' ''scheduled_jobs'' [''next_run_at''] None (Some pending_where),
     Create_table ''outbox_events'' outbox_events_columns outbox_events_constraints,
     Create_index ''outbox_events_aggregate_idx'' ''outbox_events'' [''aggregate_id''] None
       (Some ''aggregate_id IS NOT NULL''),
     Create_index ''outbox_events_correlation_idx'' ''outbox_events'' [''correlation_id''] None
       (Some ''correlation_id IS NOT NULL''),
     Create_index ''outbox_events_pending_idx'' ''outbox_events'' [''scheduled_at''] None (Some pending_where),
     Seed_job ''tle_refresh'' ''Refresca los TLEs del grupo CelesTrak y upserta los satelites.'' 7200]"

definition downgrade :: "operation list" where
  "downgrade = [
     Drop_index ''outbox_events_pending_idx'' ''outbox_events'',
     Drop_index ''outbox_events_correlation_idx'' ''outbox_events'',
     Drop_index ''outbox_events_aggregate_idx'' ''outbox_events'',
     Drop_table ''outbox_events'',
     Drop_index ''scheduled_jobs_pending_idx'' ''scheduled_jobs'',
     Drop_table ''scheduled_jobs'',
     Drop_index ''ix_pass_predictions_ground_station_id_aos_at'' ''pass_predictions'',
     Drop_index ''idx_pass_predictions_track'' ''pass_predictions'',
     Drop_table ''pass_predictions'',
     Drop_index ''ix_satellites_name'' ''satellites'',
     Drop_table ''satellites'',
     Drop_index ''idx_ground_stations_location'' ''ground_stations'',
     Drop_table ''ground_stations'']"

text \<open>The tables an upgrade of an empty database leaves (\<open>upgrade_runs\<close>).\<close>

definition plain_index :: "string \<Rightarrow> string list \<Rightarrow> index" where
  "plain_index name cols = \<lparr>ix_name = name, ix_columns = cols, ix_using = None, ix_where = None\<rparr>"

definition migrated :: "table list" where
  "migrated = [
     \<lparr>tbl_name = ''ground_stations'', tbl_columns = ground_stations_columns,
      tbl_constraints = ground_stations_constraints,
      tbl_indexes = [(plain_index ''idx_ground_stations_location'' [''location''])\<lparr>ix_using := Some ''gist''\<rparr>]\<rparr>,
     \<lparr>tbl_name = ''satellites'', tbl_columns = satellites_columns, tbl_constraints = satellites_constraints,
      tbl_indexes = [plain_index ''ix_satellites_name'' [''name'']]\<rparr>,
     \<lparr>tbl_name = ''pass_predictions'', tbl_columns = pass_predictions_columns,
      tbl_constraints = pass_predictions_constraints,
      tbl_indexes = [(plain_index ''idx_pass_predictions_track'' [''track''])\<lparr>ix_using := Some ''gist''\<rparr>,
        plain_index ''ix_pass_predictions_ground_station_id_aos_at'' [''ground_station_id'', ''aos_at'']]\<rparr>,
     \<lparr>tbl_name = ''scheduled_jobs'', tbl_columns = scheduled_jobs_columns,
      tbl_constraints = scheduled_jobs_constraints,
      tbl_indexes = [(plain_index ''scheduled_jobs_pending_idx'' [''next_run_at''])\<lparr>ix_where := Some pending_where\<rparr>]\<rparr>,
     \<lparr>tbl_name = ''outbox_events'', tbl_columns = outbox_events_columns,
      tbl_constraints = outbox_events_constraints,
      tbl_indexes = [
        (plain_index ''outbox_events_aggregate_idx'' [''aggregate_id''])\<lparr>ix_where := Some ''aggregate_id IS NOT NULL''\<rparr>,
        (plain_index ''outbox_events_correlation_idx'' [''correlation_id''])\<lparr>ix_where := Some ''correlation_id IS NOT NULL''\<rparr>,
        (plain_index ''outbox_events_pending_idx'' [''scheduled_at''])\<lparr>ix_where := Some pending_where\<rparr>]\<rparr>]"

definition tle_refresh_seed :: "(uuid list \<Rightarrow> uuid) \<Rightarrow> datetime \<Rightarrow> job" where
  "tle_refresh_seed gen now = seeded_job gen now ''tle_refresh''
     ''Refresca los TLEs del grupo CelesTrak y upserta los satelites.'' 7200 []"

lemmas column_lists = ground_stations_columns_def satellites_columns_def pass_predictions_columns_def
  scheduled_jobs_columns_def outbox_events_columns_def

lemmas constraint_lists = ground_stations_constraints_def satellites_constraints_def
  pass_predictions_constraints_def scheduled_jobs_constraints_def outbox_events_constraints_def

lemmas column_kinds = required_def optional_def defaulted_def

lemmas operation_defs = create_table_def create_index_def drop_index_def drop_table_def seed_job_def

lemma upgrade_runs:
  "fold_r (run_operation gen now) upgrade \<lparr>extensions = exts, pg_tables = [], pg_jobs = []\<rparr> =
     Inr \<lparr>extensions = (if ''postgis'' \<in> set exts then exts else exts @ [''postgis'']), pg_tables = migrated,
       pg_jobs = [tle_refresh_seed gen now]\<rparr>"
  by (simp add: upgrade_def operation_defs find_table_def lookup_def column_lists constraint_lists column_kinds
      needs_postgis_def key_columns_def update_where_def migrated_def plain_index_def tle_refresh_seed_def)

lemma downgrade_runs:
  "fold_r (run_operation gen now) downgrade \<lparr>extensions = exts, pg_tables = migrated, pg_jobs = jobs\<rparr> =
     Inr \<lparr>extensions = exts, pg_tables = [], pg_jobs = []\<rparr>"
  by (simp add: downgrade_def operation_defs find_table_def lookup_def constraint_lists
      update_where_def delete_where_def migrated_def plain_index_def)

subsection \<open>The models\<close>

text \<open>
  A declared attribute \<open>name: Mapped[\<dots>] = mapped_column(\<dots>)\<close>: its SQL type, whether the annotation is
  optional, an explicit \<open>nullable\<close>, and the other arguments. \<open>spatial\<close> is \<open>spatial_index=True\<close>.
\<close>

record mapped =
  mc_name :: string
  mc_type :: sql_type
  mc_optional :: bool
  mc_nullable :: "bool option"
  mc_primary :: bool
  mc_unique :: bool
  mc_default :: "sql_default option"
  mc_foreign :: "(string \<times> string \<times> string) option"
  mc_spatial :: bool

definition mapped_column :: "string \<Rightarrow> sql_type \<Rightarrow> mapped" where
  "mapped_column name ty = \<lparr>mc_name = name, mc_type = ty, mc_optional = False, mc_nullable = None,
     mc_primary = False, mc_unique = False, mc_default = None, mc_foreign = None, mc_spatial = False\<rparr>"

datatype table_arg =
    Unique_constraint "string list" string
  | Index_arg string "string list" "string option"

record orm_model =
  md_table :: string
  md_columns :: "mapped list"
  md_args :: "table_arg list"

text \<open>The mixins \<open>UUIDPkMixin\<close> and \<open>TimestampsMixin\<close>.\<close>

definition uuid_pk :: mapped where
  "uuid_pk = (mapped_column ''id'' UUID_type)\<lparr>mc_primary := True, mc_default := Some (Expression ''gen_random_uuid()'')\<rparr>"

definition timestamps :: "mapped list" where
  "timestamps = [
     (mapped_column ''created_at'' Timestamptz_type)\<lparr>mc_default := Some (Expression ''now()'')\<rparr>,
     (mapped_column ''updated_at'' Timestamptz_type)\<lparr>mc_optional := True\<rparr>]"

definition ground_station_model :: orm_model where
  "ground_station_model = \<lparr>md_table = ''ground_stations'',
     md_columns = [uuid_pk] @ timestamps @ [
       (mapped_column ''name'' (String_type 255))\<lparr>mc_unique := True, mc_nullable := Some False\<rparr>,
       (mapped_column ''location'' (Geometry_type ''POINT'' 4326))\<lparr>mc_nullable := Some False, mc_spatial := True\<rparr>,
       (mapped_column ''altitude_m'' Float_type)\<lparr>mc_nullable := Some False, mc_default := Some (Literal ''0'')\<rparr>],
     md_args = []\<rparr>"

definition satellite_model :: orm_model where
  "satellite_model = \<lparr>md_table = ''satellites'',
     md_columns = [uuid_pk] @ timestamps @ [
       (mapped_column ''norad_id'' BigInteger_type)\<lparr>mc_unique := True, mc_nullable := Some False\<rparr>,
       (mapped_column ''name'' (String_type 255))\<lparr>mc_nullable := Some False\<rparr>,
       (mapped_column ''tle_line1'' Text_type)\<lparr>mc_nullable := Some False\<rparr>,
       (mapped_column ''tle_line2'' Text_type)\<lparr>mc_nullable := Some False\<rparr>,
       (mapped_column ''epoch'' Timestamptz_type)\<lparr>mc_nullable := Some False\<rparr>],
     md_args = [Index_arg ''ix_satellites_name'' [''name''] None]\<rparr>"

definition pass_prediction_model :: orm_model where
  "pass_prediction_model = \<lparr>md_table = ''pass_predictions'',
     md_columns = [uuid_pk] @ timestamps @ [
       (mapped_column ''satellite_id'' UUID_type)\<lparr>mc_foreign := Some (''satellites'', ''id'', ''CASCADE''),
          mc_nullable := Some False\<rparr>,
       (mapped_column ''ground_station_id'' UUID_type)\<lparr>mc_foreign := Some (''ground_stations'', ''id'', ''CASCADE''),
          mc_nullable := Some False\<rparr>,
       (mapped_column ''aos_at'' Timestamptz_type)\<lparr>mc_nullable := Some False\<rparr>,
       (mapped_column ''los_at'' Timestamptz_type)\<lparr>mc_nullable := Some False\<rparr>,
       (mapped_column ''peak_at'' Timestamptz_type)\<lparr>mc_nullable := Some False\<rparr>,
       (mapped_column ''peak_elevation_deg'' Float_type)\<lparr>mc_nullable := Some False\<rparr>,
       (mapped_column ''track'' (Geometry_type ''LINESTRING'' 4326))\<lparr>mc_nullable := Some False, mc_spatial := True\<rparr>],
     md_args = [
       Unique_constraint [''satellite_id'', ''ground_station_id'', ''aos_at''] ''uq_pass_predictions_sat_station_aos'',
       Index_arg ''ix_pass_predictions_ground_station_id_aos_at'' [''ground_station_id'', ''aos_at''] None]\<rparr>"

definition scheduled_job_model :: orm_model where
  "scheduled_job_model = \<lparr>md_table = ''scheduled_jobs'',
     md_columns = [
       (mapped_column ''id'' UUID_type)\<lparr>mc_primary := True, mc_default := Some (Expression ''gen_random_uuid()'')\<rparr>,
       (mapped_column ''job_name'' (String_type 255))\<lparr>mc_unique := True, mc_nullable := Some False\<rparr>,
       (mapped_column ''description'' Text_type)\<lparr>mc_optional := True\<rparr>,
       (mapped_column ''interval_seconds'' Integer_type)\<lparr>mc_nullable := Some False\<rparr>,
       (mapped_column ''status'' (String_type 20))\<lparr>mc_nullable := Some False, mc_default := Some (Literal ''PENDING'')\<rparr>,
       (mapped_column ''last_run_at'' Timestamptz_type)\<lparr>mc_optional := True\<rparr>,
       (mapped_column ''next_run_at'' Timestamptz_type)\<lparr>mc_default := Some (Expression ''now()''), mc_nullable := Some False\<rparr>,
       (mapped_column ''last_error'' Text_type)\<lparr>mc_optional := True\<rparr>,
       (mapped_column ''run_count'' Integer_type)\<lparr>mc_default := Some (Literal ''0'')\<rparr>,
       (mapped_column ''claimed_by'' (String_type 255))\<lparr>mc_optional := True\<rparr>,
       (mapped_column ''lease_until'' Timestamptz_type)\<lparr>mc_optional := True\<rparr>,
       (mapped_column ''created_at'' Timestamptz_type)\<lparr>mc_default := Some (Expression ''now()''), mc_nullable := Some False\<rparr>,
       (mapped_column ''updated_at'' Timestamptz_type)\<lparr>mc_optional := True\<rparr>],
     md_args = [Index_arg ''scheduled_jobs_pending_idx'' [''next_run_at''] (Some pending_where)]\<rparr>"

definition outbox_event_model :: "settings \<Rightarrow> orm_model" where
  "outbox_event_model cfg = \<lparr>md_table = ''outbox_events'',
     md_columns = [
       (mapped_column ''id'' UUID_type)\<lparr>mc_primary := True, mc_default := Some (Expression ''gen_random_uuid()'')\<rparr>,
       (mapped_column ''aggregate_id'' UUID_type)\<lparr>mc_optional := True\<rparr>,
       (mapped_column ''correlation_id'' UUID_type)\<lparr>mc_optional := True\<rparr>,
       (mapped_column ''event_type'' (String_type 255))\<lparr>mc_nullable := Some False\<rparr>,
       (mapped_column ''payload'' JSONB_type)\<lparr>mc_nullable := Some False, mc_default := Some (Literal ''{}'')\<rparr>,
       (mapped_column ''status'' (String_type 20))\<lparr>mc_nullable := Some False, mc_default := Some (Literal ''PENDING'')\<rparr>,
       (mapped_column ''retry_count'' Integer_type)\<lparr>mc_default := Some (Literal ''0'')\<rparr>,
       (mapped_column ''max_retries'' Integer_type)\<lparr>mc_default := Some (Literal (py_str_int (OUTBOX_MAX_RETRIES cfg)))\<rparr>,
       (mapped_column ''scheduled_at'' Timestamptz_type)\<lparr>mc_default := Some (Expression ''now()''), mc_nullable := Some False\<rparr>,
       (mapped_column ''last_error'' Text_type)\<lparr>mc_optional := True\<rparr>,
       (mapped_column ''created_at'' Timestamptz_type)\<lparr>mc_default := Some (Expression ''now()''), mc_nullable := Some False\<rparr>,
       (mapped_column ''processed_at'' Timestamptz_type)\<lparr>mc_optional := True\<rparr>,
       (mapped_column ''handler_state'' JSONB_type)\<lparr>mc_nullable := Some False, mc_default := Some (Literal ''{}'')\<rparr>],
     md_args = [
       Index_arg ''outbox_events_pending_idx'' [''scheduled_at''] (Some pending_where),
       Index_arg ''outbox_events_aggregate_idx'' [''aggregate_id''] (Some ''aggregate_id IS NOT NULL''),
       Index_arg ''outbox_events_correlation_idx'' [''correlation_id''] (Some ''correlation_id IS NOT NULL'')]\<rparr>"

subsection \<open>The naming convention\<close>

text \<open>\<open>NAMING_CONVENTION\<close> of \<open>app/core/db.py\<close>, and the operator \<open>%\<close> with a dict.\<close>

definition NAMING_CONVENTION :: "(string \<times> string) list" where
  "NAMING_CONVENTION = [
     (''ix'', ''ix_%(table_name)s_%(column_0_N_name)s''),
     (''uq'', ''uq_%(table_name)s_%(column_0_N_name)s''),
     (''ck'', ''ck_%(table_name)s_%(constraint_name)s''),
     (''fk'', ''fk_%(table_name)s_%(column_0_name)s_%(referred_table_name)s''),
     (''pk'', ''pk_%(table_name)s'')]"

function percent_format :: "(string \<times> string) list \<Rightarrow> string \<Rightarrow> string" where
  "percent_format vars [] = []"
| "percent_format vars (c # cs) =
     (if startswith (c # cs) ''%('' then
        (let key = takeWhile (\<lambda>d. d \<noteq> CHR '')'') (drop 1 cs);
             rest = drop (length key + 3) cs
         in (case map_of vars key of None \<Rightarrow> [] | Some v \<Rightarrow> v) @ percent_format vars rest)
      else c # percent_format vars cs)"
  by pat_completeness auto
termination by (relation "measure (\<lambda>(vars, s). length s)") auto

definition conv_name :: "string \<Rightarrow> (string \<times> string) list \<Rightarrow> string" where
  "conv_name kind vars = (case map_of NAMING_CONVENTION kind of None \<Rightarrow> [] | Some t \<Rightarrow> percent_format vars t)"

subsection \<open>The metadata\<close>

text \<open>What SQLAlchemy and geoalchemy2 make of a model: its columns, constraints and indexes.\<close>

definition column_of :: "mapped \<Rightarrow> column" where
  "column_of m = \<lparr>col_name = mc_name m, col_type = mc_type m,
     col_nullable = (if mc_primary m then False
       else case mc_nullable m of Some b \<Rightarrow> b | None \<Rightarrow> mc_optional m),
     col_default = mc_default m\<rparr>"

definition constraints_of :: "orm_model \<Rightarrow> constraint list" where
  "constraints_of md =
     (let t = (''table_name'', md_table md);
          pk = [mc_name m. m \<leftarrow> md_columns md, mc_primary m]
      in [Primary_key (conv_name ''pk'' [t]) pk] @
         [Unique_key (conv_name ''uq'' [t, (''column_0_N_name'', mc_name m)]) [mc_name m].
            m \<leftarrow> md_columns md, mc_unique m] @
         [Foreign_key (conv_name ''fk'' [t, (''column_0_name'', mc_name m), (''referred_table_name'', ref)])
            [mc_name m] ref [col] od.
            m \<leftarrow> md_columns md, Some (ref, col, od) \<leftarrow> [mc_foreign m]] @
         [Unique_key name cols. Unique_constraint cols name \<leftarrow> md_args md])"

definition indexes_of :: "orm_model \<Rightarrow> index list" where
  "indexes_of md =
     [\<lparr>ix_name = name, ix_columns = cols, ix_using = None, ix_where = wh\<rparr>. Index_arg name cols wh \<leftarrow> md_args md] @
     [\<lparr>ix_name = ''idx_'' @ md_table md @ ''_'' @ mc_name m, ix_columns = [mc_name m],
       ix_using = Some ''gist'', ix_where = None\<rparr>. m \<leftarrow> md_columns md, mc_spatial m]"

definition table_of :: "orm_model \<Rightarrow> table" where
  "table_of md = \<lparr>tbl_name = md_table md, tbl_columns = map column_of (md_columns md),
     tbl_constraints = constraints_of md, tbl_indexes = indexes_of md\<rparr>"

text \<open>\<open>Base.metadata\<close> once \<open>db_registry\<close> has imported the models.\<close>

definition metadata :: "settings \<Rightarrow> table list" where
  "metadata cfg = map table_of [outbox_event_model cfg, scheduled_job_model, ground_station_model,
     pass_prediction_model, satellite_model]"

text \<open>Two schemas are the same when they have the same tables, up to the order of their parts.\<close>

definition same_members :: "'a list \<Rightarrow> 'a list \<Rightarrow> bool" where
  "same_members xs ys \<longleftrightarrow> list_all (List.member ys) xs \<and> list_all (List.member xs) ys"

definition same_table :: "table \<Rightarrow> table \<Rightarrow> bool" where
  "same_table t u \<longleftrightarrow> tbl_name t = tbl_name u \<and> same_members (tbl_columns t) (tbl_columns u) \<and>
     same_members (tbl_constraints t) (tbl_constraints u) \<and> same_members (tbl_indexes t) (tbl_indexes u)"

definition same_schema :: "table list \<Rightarrow> table list \<Rightarrow> bool" where
  "same_schema ts us \<longleftrightarrow> list_all (\<lambda>t. list_ex (same_table t) us) ts \<and> list_all (\<lambda>u. list_ex (\<lambda>t. same_table t u) ts) us"

subsection \<open>Rows and the constraints of a table\<close>

datatype 'w sql_value =
    Null
  | Uuid_val uuid
  | Text_val string
  | Int_val int
  | Float_val real
  | Time_val datetime
  | Json_val
  | Geometry_val 'w

type_synonym 'w row = "string \<Rightarrow> 'w sql_value"

definition row_of :: "(string \<times> 'w sql_value) list \<Rightarrow> 'w row" where
  "row_of vals = (\<lambda>c. case map_of vals c of None \<Rightarrow> Null | Some v \<Rightarrow> v)"

fun fits :: "sql_type \<Rightarrow> 'w sql_value \<Rightarrow> bool" where
  "fits UUID_type (Uuid_val _) = True"
| "fits (String_type n) (Text_val s) = (length s \<le> n)"
| "fits Text_type (Text_val _) = True"
| "fits Integer_type (Int_val i) = (- (2 ^ 31) \<le> i \<and> i < 2 ^ 31)"
| "fits BigInteger_type (Int_val i) = (- (2 ^ 63) \<le> i \<and> i < 2 ^ 63)"
| "fits Float_type (Float_val _) = True"
| "fits Timestamptz_type (Time_val _) = True"
| "fits JSONB_type Json_val = True"
| "fits (Geometry_type _ _) (Geometry_val _) = True"
| "fits _ _ = False"

text \<open>A NULL where the column allows it, else a value of the column's type.\<close>

definition column_accepts :: "'w row \<Rightarrow> column \<Rightarrow> bool" where
  "column_accepts r c \<longleftrightarrow> r (col_name c) = Null \<and> col_nullable c \<or> fits (col_type c) (r (col_name c))"

text \<open>
  A unique constraint compares rows without a NULL in its columns; a foreign key with a NULL holds.
  \<open>contents\<close> gives the rows of each table.
\<close>

fun constraint_accepts :: "string \<Rightarrow> 'w row \<Rightarrow> (string \<Rightarrow> 'w row list) \<Rightarrow> constraint \<Rightarrow> bool" where
  "constraint_accepts t r contents (Primary_key _ cs) =
     list_all (\<lambda>r'. map r' cs \<noteq> map r cs) (contents t)"
| "constraint_accepts t r contents (Unique_key _ cs) =
     (list_ex (\<lambda>c. r c = Null) cs \<or> list_all (\<lambda>r'. map r' cs \<noteq> map r cs) (contents t))"
| "constraint_accepts t r contents (Foreign_key _ cs referred ref_cs _) =
     (list_ex (\<lambda>c. r c = Null) cs \<or> list_ex (\<lambda>r'. map r' ref_cs = map r cs) (contents referred))"

definition insert_accepted :: "table list \<Rightarrow> string \<Rightarrow> 'w row \<Rightarrow> (string \<Rightarrow> 'w row list) \<Rightarrow> bool" where
  "insert_accepted tables t r contents \<longleftrightarrow>
     (case find_table t tables of
        None \<Rightarrow> False
      | Some tbl \<Rightarrow> list_all (column_accepts r) (tbl_columns tbl) \<and>
          list_all (constraint_accepts t r contents) (tbl_constraints tbl))"

text \<open>The rows the records of the model stand for.\<close>

definition opt_val :: "('a \<Rightarrow> 'w sql_value) \<Rightarrow> 'a option \<Rightarrow> 'w sql_value" where
  "opt_val f v = (case v of None \<Rightarrow> Null | Some x \<Rightarrow> f x)"

definition satellite_row :: "satellite \<Rightarrow> 'w row" where
  "satellite_row s = row_of [
     (''id'', Uuid_val (sat_id s)), (''norad_id'', Int_val (norad_id s)), (''name'', Text_val (sat_name s)),
     (''tle_line1'', Text_val (tle_line1 s)), (''tle_line2'', Text_val (tle_line2 s)),
     (''epoch'', Time_val (epoch s)), (''created_at'', Time_val (sat_created_at s)),
     (''updated_at'', opt_val Time_val (sat_updated_at s))]"

definition station_row :: "'w ground_station \<Rightarrow> 'w row" where
  "station_row s = row_of [
     (''id'', Uuid_val (st_id s)), (''name'', Text_val (st_name s)), (''location'', Geometry_val (location s)),
     (''altitude_m'', Float_val (altitude_m s)), (''created_at'', Time_val (st_created_at s)),
     (''updated_at'', opt_val Time_val (st_updated_at s))]"

definition prediction_row :: "'w pass_prediction \<Rightarrow> 'w row" where
  "prediction_row p = row_of [
     (''id'', Uuid_val (pp_id p)), (''satellite_id'', Uuid_val (satellite_id p)),
     (''ground_station_id'', Uuid_val (ground_station_id p)), (''aos_at'', Time_val (pp_aos_at p)),
     (''los_at'', Time_val (pp_los_at p)), (''peak_at'', Time_val (pp_peak_at p)),
     (''peak_elevation_deg'', Float_val (pp_peak_elevation_deg p)), (''track'', Geometry_val (track p)),
     (''created_at'', Time_val (pp_created_at p)), (''updated_at'', opt_val Time_val (pp_updated_at p))]"

definition status_text :: "row_status \<Rightarrow> string" where
  "status_text st = (case st of PENDING \<Rightarrow> ''PENDING'' | RUNNING \<Rightarrow> ''RUNNING''
     | PROCESSED \<Rightarrow> ''PROCESSED'' | FAILED \<Rightarrow> ''FAILED'')"

definition event_row :: "event \<Rightarrow> 'w row" where
  "event_row e = row_of [
     (''id'', Uuid_val (ev_id e)), (''aggregate_id'', opt_val Uuid_val (aggregate_id e)),
     (''correlation_id'', opt_val Uuid_val (correlation_id e)), (''event_type'', Text_val (event_type e)),
     (''payload'', Json_val), (''status'', Text_val (status_text (ev_status e))),
     (''retry_count'', Int_val (retry_count e)), (''max_retries'', Int_val (max_retries e)),
     (''scheduled_at'', Time_val (scheduled_at e)), (''last_error'', opt_val Text_val (ev_last_error e)),
     (''created_at'', Time_val (ev_created_at e)), (''processed_at'', opt_val Time_val (processed_at e)),
     (''handler_state'', Json_val)]"

definition contents_of :: "'w db \<Rightarrow> string \<Rightarrow> 'w row list" where
  "contents_of d t =
     (if t = ''satellites'' then map satellite_row (satellites d)
      else if t = ''ground_stations'' then map station_row (stations d)
      else if t = ''pass_predictions'' then map prediction_row (predictions d)
      else if t = ''outbox_events'' then map event_row (events d)
      else [])"

subsection \<open>Lemmas\<close>

lemma conv_names:
  "conv_name ''pk'' [(''table_name'', t)] = ''pk_'' @ t"
  "conv_name ''uq'' [(''table_name'', t), (''column_0_N_name'', c)] = ''uq_'' @ t @ ''_'' @ c"
  "conv_name ''fk'' [(''table_name'', t), (''column_0_name'', c), (''referred_table_name'', r)] =
     ''fk_'' @ t @ ''_'' @ c @ ''_'' @ r"
  by (simp_all add: conv_name_def NAMING_CONVENTION_def startswith_def)

lemmas model_defs = ground_station_model_def satellite_model_def pass_prediction_model_def
  scheduled_job_model_def outbox_event_model_def uuid_pk_def timestamps_def mapped_column_def

lemmas derivation_defs = table_of_def constraints_of_def indexes_of_def column_of_def conv_names Let_def

lemmas script_defs = column_lists constraint_lists column_kinds gen_uuid_def sql_now_def plain_index_def

lemma literal_eight: "''8'' = py_str_int n \<longleftrightarrow> n = 8"
proof
  have eight: "py_str_int 8 = ''8''" by (simp add: py_str_int_def nat_digits.simps digit_char_def)
  assume "''8'' = py_str_int n"
  then show "n = 8" using eight py_int_str by (metis sum.inject(2))
qed (simp add: py_str_int_def nat_digits.simps digit_char_def)

lemma tables_match:
  "same_table (migrated ! 0) (table_of ground_station_model)"
  "same_table (migrated ! 1) (table_of satellite_model)"
  "same_table (migrated ! 2) (table_of pass_prediction_model)"
  "same_table (migrated ! 3) (table_of scheduled_job_model)"
  by (simp_all add: migrated_def same_table_def same_members_def model_defs derivation_defs script_defs)

lemma events_table_matches:
  "same_table (migrated ! 4) (table_of (outbox_event_model cfg)) \<longleftrightarrow> OUTBOX_MAX_RETRIES cfg = 8"
proof -
  have "py_str_int n = ''8'' \<longleftrightarrow> n = 8" for n using literal_eight[of n] by metis
  then show ?thesis
    by (simp add: migrated_def same_table_def same_members_def model_defs derivation_defs script_defs literal_eight)
qed

lemma table_names:
  "map tbl_name migrated = [''ground_stations'', ''satellites'', ''pass_predictions'', ''scheduled_jobs'', ''outbox_events'']"
  "tbl_name (table_of ground_station_model) = ''ground_stations''" "tbl_name (table_of satellite_model) = ''satellites''"
  "tbl_name (table_of pass_prediction_model) = ''pass_predictions''"
  "tbl_name (table_of scheduled_job_model) = ''scheduled_jobs''"
  "tbl_name (table_of (outbox_event_model cfg)) = ''outbox_events''"
  by (simp_all add: migrated_def table_of_def model_defs)

lemma schemas_match: "same_schema migrated (metadata cfg) \<longleftrightarrow> OUTBOX_MAX_RETRIES cfg = 8"
proof -
  have split: "migrated = [migrated ! 0, migrated ! 1, migrated ! 2, migrated ! 3, migrated ! 4]"
    by (simp add: migrated_def)
  have names: "tbl_name (migrated ! 0) = ''ground_stations''" "tbl_name (migrated ! 1) = ''satellites''"
    "tbl_name (migrated ! 2) = ''pass_predictions''" "tbl_name (migrated ! 3) = ''scheduled_jobs''"
    "tbl_name (migrated ! 4) = ''outbox_events''"
    by (simp_all add: migrated_def)
  have other: "\<not> same_table t u" if "tbl_name t \<noteq> tbl_name u" for t u
    using that by (simp add: same_table_def)
  show ?thesis
    unfolding same_schema_def metadata_def
    by (subst (1 2) split)
      (simp add: tables_match events_table_matches other names table_names(2-6)
        del: nth_Cons_0 nth_Cons_numeral nth_Cons_Suc One_nat_def)
qed


lemma insert_migrated:
  "insert_accepted migrated ''satellites'' r c \<longleftrightarrow>
     list_all (column_accepts r) satellites_columns \<and> list_all (constraint_accepts ''satellites'' r c) satellites_constraints"
  "insert_accepted migrated ''ground_stations'' r c \<longleftrightarrow>
     list_all (column_accepts r) ground_stations_columns \<and>
     list_all (constraint_accepts ''ground_stations'' r c) ground_stations_constraints"
  "insert_accepted migrated ''pass_predictions'' r c \<longleftrightarrow>
     list_all (column_accepts r) pass_predictions_columns \<and>
     list_all (constraint_accepts ''pass_predictions'' r c) pass_predictions_constraints"
  "insert_accepted migrated ''outbox_events'' r c \<longleftrightarrow>
     list_all (column_accepts r) outbox_events_columns \<and>
     list_all (constraint_accepts ''outbox_events'' r c) outbox_events_constraints"
  by (simp_all add: insert_accepted_def find_table_def lookup_def migrated_def)

lemma opt_val_simps [simp]:
  "opt_val Time_val t = Null \<longleftrightarrow> t = None" "fits Timestamptz_type (opt_val Time_val t) \<longleftrightarrow> t \<noteq> None"
  "opt_val Text_val x = Null \<longleftrightarrow> x = None" "fits Text_type (opt_val Text_val x) \<longleftrightarrow> x \<noteq> None"
  "opt_val Uuid_val u = Null \<longleftrightarrow> u = None" "fits UUID_type (opt_val Uuid_val u) \<longleftrightarrow> u \<noteq> None"
  by (auto simp: opt_val_def split: option.split)

lemma status_text_fits [simp]: "length (status_text st) \<le> 20"
  by (cases st) (simp_all add: status_text_def)

lemmas row_defs = satellite_row_def station_row_def prediction_row_def event_row_def row_of_def

lemmas accept_defs = insert_migrated column_accepts_def script_defs contents_of_def row_defs

lemma satellite_insert:
  "insert_accepted migrated ''satellites'' (satellite_row s) (contents_of d) \<longleftrightarrow>
     length (sat_name s) \<le> 255 \<and> - (2 ^ 63) \<le> norad_id s \<and> norad_id s < 2 ^ 63 \<and>
     sat_id s \<notin> sat_id ` set (satellites d) \<and> norad_id s \<notin> norad_id ` set (satellites d)"
  by (auto simp: accept_defs list_all_iff image_iff)

lemma station_insert:
  "insert_accepted migrated ''ground_stations'' (station_row s) (contents_of d) \<longleftrightarrow>
     length (st_name s) \<le> 255 \<and> st_id s \<notin> st_id ` set (stations d) \<and> st_name s \<notin> st_name ` set (stations d)"
  by (auto simp: accept_defs list_all_iff image_iff)

lemma prediction_insert:
  "insert_accepted migrated ''pass_predictions'' (prediction_row p) (contents_of d) \<longleftrightarrow>
     pp_id p \<notin> pp_id ` set (predictions d) \<and> pass_key p \<notin> pass_key ` set (predictions d) \<and>
     satellite_id p \<in> sat_id ` set (satellites d) \<and> ground_station_id p \<in> st_id ` set (stations d)"
  by (auto simp: accept_defs pass_key_def list_all_iff list_ex_iff image_iff) metis+

lemma event_insert:
  "insert_accepted migrated ''outbox_events'' (event_row e) (contents_of d) \<longleftrightarrow>
     length (event_type e) \<le> 255 \<and> - (2 ^ 31) \<le> retry_count e \<and> retry_count e < 2 ^ 31 \<and>
     - (2 ^ 31) \<le> max_retries e \<and> max_retries e < 2 ^ 31 \<and> ev_id e \<notin> ev_id ` set (events d)"
  by (auto simp: accept_defs list_all_iff image_iff)

subsection \<open>Properties\<close>

text \<open>C35. The migration and the models describe one schema. From an empty database the upgrade runs
  without error, and its tables are those of the models' metadata (columns with their types,
  nullability and server defaults, constraints with the names of the naming convention, indexes)
  exactly when the setting OUTBOX_MAX_RETRIES, which is the server default of a column, is 8.\<close>

theorem migration_matches_models:
  "\<exists>db. fold_r (run_operation gen now) upgrade empty_pg = Inr db \<and>
     (same_schema (pg_tables db) (metadata cfg) \<longleftrightarrow> OUTBOX_MAX_RETRIES cfg = 8)"
  using upgrade_runs[of gen now "[]"] schemas_match[of cfg] by (simp add: empty_pg_def)

text \<open>C36. The downgrade undoes the upgrade, whatever jobs have been stored in between: it runs without
  error, no table is left, and the upgrade then gives the migrated database again, with its seed.\<close>

theorem migration_roundtrip:
  "\<exists>db db'. fold_r (run_operation gen now) upgrade empty_pg = Inr db \<and>
     fold_r (run_operation gen now) downgrade (db\<lparr>pg_jobs := jobs\<rparr>) = Inr db' \<and>
     pg_tables db' = [] \<and> pg_jobs db' = [] \<and>
     fold_r (run_operation gen now) upgrade db' = Inr db"
  using upgrade_runs[of gen now "[]"] downgrade_runs[of gen now "[''postgis'']" jobs]
    upgrade_runs[of gen now "[''postgis'']"]
  by (simp add: empty_pg_def)


end
