(* ===== verification/Registry.thy ===== *)
theory Registry
  imports PassPredictions Schema
begin

text \<open>
  The application put together: the registries as \<open>app/core/db_registry.py\<close> fills them, the job worker
  on the table the migration has seeded, and the outbox worker on the events an ingest publishes.
  The lemmas follow one poll of the job worker (\<open>refresh_poll\<close>) and one batch of the outbox
  (\<open>batch_predicts\<close>); the theory \<open>Spec2Isabelle\<close> states the properties.
\<close>

subsection \<open>The application's registries\<close>

text \<open>
  \<open>app/core/db_registry.py\<close> imports the modules whose decorators register the handlers: one job
  (\<open>@job_registry.register("tle_refresh")\<close>) and one event handler
  (\<open>@dispatcher.register("tle.refreshed")\<close>).
\<close>

definition app_jobs ::
  "settings \<Rightarrow> (uuid list \<Rightarrow> uuid) \<Rightarrow> datetime \<Rightarrow> ('s, 'o, 't) skyfield \<Rightarrow>
   (string \<Rightarrow> tle_record list result) \<Rightarrow> 'w db job_registry" where
  "app_jobs cfg gen tnow sky fetch = register_job ''tle_refresh'' (tle_refresh cfg gen tnow sky fetch) []"

definition app_dispatcher ::
  "settings \<Rightarrow> (uuid list \<Rightarrow> uuid) \<Rightarrow> datetime \<Rightarrow> datetime \<Rightarrow> ('s, 'o, 't) skyfield \<Rightarrow> ('g, 'w) shapely \<Rightarrow>
   (string \<Rightarrow> real) \<Rightarrow> 'w db event_dispatcher" where
  "app_dispatcher cfg gen now tnow sky lib collate =
     register_handler ''tle.refreshed''
       (''recompute_passes'', recompute_passes cfg gen now tnow sky lib collate) []"

lemma app_dispatcher_handlers:
  "handlers_for (app_dispatcher cfg gen now tnow sky lib collate) et =
     (if et = ''tle.refreshed'' then [(''recompute_passes'', recompute_passes cfg gen now tnow sky lib collate)] else [])"
  by (simp add: app_dispatcher_def handlers_for_register) (simp add: handlers_for_def)

text \<open>An event whose one handler succeeds is processed in that attempt.\<close>

lemma handle_event_fresh:
  assumes "handlers_for D (event_type ev) = [(name, h)]" and "name \<notin> completed_of (handler_state ev)"
    and "h (ev_payload ev) w = (None, w')"
  shows "\<exists>ev'. handle_event tb D rd ev w = (Inr ev', w') \<and> ev_status ev' = PROCESSED"
  using assms by (simp add: handle_event_def dispatch_run settle_event_def all_succeeded_def)

lemma handle_event_single:
  assumes "handlers_for D (event_type ev) = [(name, h)]" and "handler_state ev = []"
    and "h (ev_payload ev) w = (None, w')"
  shows "\<exists>ev'. handle_event tb D rd ev w = (Inr ev', w') \<and> ev_status ev' = PROCESSED"
  using handle_event_fresh[OF assms(1) _ assms(3)] assms(2) by (simp add: completed_of_def)

text \<open>The satellite behind an event that an ingest has published.\<close>

lemma published_event_satellite:
  assumes ok: "db_ok d" and recs: "fetch grp = Inr recs" "distinct (map norad_of recs)"
    and run: "ingest_tles cfg gen tnow sky fetch grp d = Inr (d', n)"
    and ev: "ev \<in> set (drop (length (events d)) (events d'))"
  shows "\<exists>s e. refreshed_event s ev \<and> lookup sat_id (sat_id s) (satellites d') = Some s \<and>
    EarthSatellite sky (tle_line1 s) (tle_line2 s) = Inr e"
proof -
  have "fold_r (ingest_record cfg gen tnow sky) recs (d, 0) = Inr (d', n)"
    using recs(1) run by (simp add: ingest_tles_def)
  from ingest_fold[OF ok recs(2) this] obtain new where
    f: "db_ok d'" "feed_stored sky recs d d'" "feed_events recs d d' new" by blast
  then have "ev \<in> set new" using ev by (simp add: feed_events_def)
  moreover have "list_all2 (\<lambda>r ev. \<exists>s. sat_for d' r = Some s \<and> refreshed_event s ev)
      (filter (\<lambda>r. \<not> up_to_date d r) recs) new"
    using f(3) by (simp add: feed_events_def)
  ultimately obtain r where "r \<in> set (filter (\<lambda>r. \<not> up_to_date d r) recs)"
    "\<exists>s. sat_for d' r = Some s \<and> refreshed_event s ev" by (blast dest: list_all2_right)
  then obtain s where r: "r \<in> set recs" "\<not> up_to_date d r" "sat_for d' r = Some s" "refreshed_event s ev"
    by auto
  then have "refreshed_sat sky r s" using f(2) by (fastforce simp: feed_stored_def)
  then have "\<exists>e. EarthSatellite sky (tle_line1 s) (tle_line2 s) = Inr e"
    by (auto simp: refreshed_sat_def tle_epoch_def build_satellite_def rbind_eq_Inr)
  moreover have "s \<in> set (satellites d')" using r(3) by (auto simp: sat_for_def dest: lookup_SomeD)
  then have "lookup sat_id (sat_id s) (satellites d') = Some s" by (rule lookup_unique[OF db_okD(5)[OF f(1)]])
  ultimately show ?thesis using r(4) by blast
qed

subsection \<open>A poll of the job worker\<close>

text \<open>The one job of the table is due, and its handler succeeds.\<close>

lemma refresh_poll:
  assumes j: "job_status j = PENDING" "job_name j = ''tle_refresh''"
    and due: "next_run_at j \<le> poll_now p" "next_run_at j \<le> ck_due (poll_clk p 0)"
    and run: "tle_refresh cfg gen tnow sky fetch w = (None, w')"
  shows "worker_cycle cfg tb (app_jobs cfg gen tnow sky fetch) wid p ([j], w) =
    (Inr (), [reschedule_values (ck_end (poll_clk p 0)) (interval_seconds j) None j], w')"
proof -
  let ?reg = "app_jobs cfg gen tnow sky fetch"
  have "run_handler tb ?reg (job_name j) w = (Inr None, w')"
    by (simp add: run_handler_def get_job_def app_jobs_def register_job_def j run)
  from execute_job_due[OF _ _ _ this, of "[j]" "poll_clk p 0" cfg wid]
  have "execute_job cfg tb ?reg wid (poll_clk p 0) (job_id j) ([j], w) =
      (Inr (), reschedule_job (ck_end (poll_clk p 0)) (job_id j) (interval_seconds j) None [j], w')"
    using j due(2) by (simp add: due_def)
  moreover have "recover_stale_jobs t [j] = [j]" for t
    by (simp add: recover_stale_jobs_def update_where_def stale_def j)
  moreover have "candidate_ids (poll_now p) [j] = [job_id j]"
    using j due(1) by (simp add: candidate_ids_def select_order_by_def due_def JOB_BATCH_SIZE_def)
  ultimately show ?thesis
    by (simp add: worker_cycle_def process_due_jobs_def reschedule_job_def update_where_def)
qed

lemma seeded_poll:
  assumes "now \<le> poll_now p" and "now \<le> ck_due (poll_clk p 0)"
    and "tle_refresh cfg gen tnow sky fetch w = (None, w')"
  shows "worker_cycle cfg tb (app_jobs cfg gen tnow sky fetch) wid p ([tle_refresh_seed g now], w) =
    (Inr (), [reschedule_values (ck_end (poll_clk p 0)) 7200 None (tle_refresh_seed g now)], w')"
  using refresh_poll[OF _ _ _ _ assms(3), of "tle_refresh_seed g now" p] assms(1,2)
  by (simp add: tle_refresh_seed_def seeded_job_def)

subsection \<open>A batch of the outbox\<close>

text \<open>The satellite's predictions are, for every station, the passes computed from its stored TLE.\<close>

definition predicted ::
  "settings \<Rightarrow> datetime \<Rightarrow> ('s, 'o, 't) skyfield \<Rightarrow> ('g, 'w) shapely \<Rightarrow> satellite \<Rightarrow> 'w db \<Rightarrow> bool" where
  "predicted cfg now sky lib s d \<longleftrightarrow> (\<forall>station \<in> set (stations d). \<exists>passes.
     passes_for sky lib (horizon_window cfg now) 10 24 s station = Inr passes \<and>
     pair_content d (sat_id s) (st_id station) = map (stored_pass lib) passes)"

text \<open>
  An event of the table is about the satellite \<open>about (ev_id ev)\<close>, and it is still to be handled, due by
  \<open>t\<close>, or it is processed and the satellite's predictions are there.
\<close>

definition event_served ::
  "settings \<Rightarrow> datetime \<Rightarrow> ('s, 'o, 't) skyfield \<Rightarrow> ('g, 'w) shapely \<Rightarrow> (uuid \<Rightarrow> satellite) \<Rightarrow> datetime \<Rightarrow>
   'w db \<Rightarrow> event \<Rightarrow> bool" where
  "event_served cfg now sky lib about t d ev \<longleftrightarrow> (let s = about (ev_id ev) in
     s \<in> set (satellites d) \<and> event_type ev = ''tle.refreshed'' \<and>
     map_of (ev_payload ev) ''satellite_id'' = Some (JStr (uuid_str (sat_id s))) \<and>
     (ev_status ev = PENDING \<and> handler_state ev = [] \<and> scheduled_at ev \<le> t \<or>
      ev_status ev = PROCESSED \<and> predicted cfg now sky lib s d))"

text \<open>One round: the event is processed, and what was predicted for other satellites stays.\<close>

lemma round_predicts:
  assumes ok: "db_ok w" and lib: "fresh_ids gen" "skyfield_ok sky" "0 < PASS_PREDICTION_HORIZON_HOURS cfg"
    and small: "sat_id (about (ev_id ev)) < 2 ^ 128"
    and tle: "EarthSatellite sky (tle_line1 (about (ev_id ev))) (tle_line2 (about (ev_id ev))) = Inr e"
    and served: "event_served cfg now sky lib about t w ev" and pend: "ev_status ev = PENDING"
  obtains ev' w' where
    "handle_event tb (app_dispatcher cfg gen now tnow sky lib collate) rd ev w = (Inr ev', w')"
    "ev_status ev' = PROCESSED" "db_ok w'" "satellites w' = satellites w" "stations w' = stations w"
    "\<And>x. event_served cfg now sky lib about t w x \<Longrightarrow> event_served cfg now sky lib about t w' x"
    "event_served cfg now sky lib about t w' ev'"
proof -
  let ?s = "about (ev_id ev)" and ?D = "app_dispatcher cfg gen now tnow sky lib collate"
  note ev = served[unfolded event_served_def Let_def]
  have lk: "lookup sat_id (sat_id ?s) (satellites w) = Some ?s"
    using ev lookup_unique[OF db_okD(5)[OF ok]] by blast
  from recompute_complete[OF ok lib(1,2) lk tle lib(3) _ small, of "ev_payload ev" now tnow lib collate] ev
  obtain w' where w': "recompute_passes cfg gen now tnow sky lib collate (ev_payload ev) w = (None, w')" "db_ok w'"
    "\<forall>station \<in> set (stations w). \<exists>passes. passes_for sky lib (horizon_window cfg now) 10 24 ?s station = Inr passes \<and>
       map row_content (filter (of_pair (sat_id ?s) (st_id station)) (predictions w')) = map (stored_pass lib) passes"
    "\<forall>sid stid. sid \<noteq> sat_id ?s \<longrightarrow> pair_content w' sid stid = pair_content w sid stid"
    "satellites w' = satellites w" "stations w' = stations w" by blast
  have "handlers_for ?D (event_type ev) = [(''recompute_passes'', recompute_passes cfg gen now tnow sky lib collate)]"
    "handler_state ev = []"
    using ev pend by (auto simp: app_dispatcher_handlers)
  from handle_event_single[OF this w'(1)] obtain ev' where
    h: "handle_event tb ?D rd ev w = (Inr ev', w')" "ev_status ev' = PROCESSED" by blast
  have new: "predicted cfg now sky lib ?s w'"
    using w'(3) unfolding predicted_def w'(6) pair_content_def by blast
  have kept: "event_served cfg now sky lib about t w' x" if x: "event_served cfg now sky lib about t w x" for x
  proof -
    have "predicted cfg now sky lib (about (ev_id x)) w'" if "predicted cfg now sky lib (about (ev_id x)) w"
    proof (cases "sat_id (about (ev_id x)) = sat_id ?s")
      case True
      have "about (ev_id x) \<in> set (satellites w)" using x by (simp add: event_served_def Let_def)
      moreover have "?s \<in> set (satellites w)" using ev by blast
      ultimately have "about (ev_id x) = ?s" using unique_column[OF db_okD(5)[OF ok]] True by blast
      then show ?thesis using new by simp
    next
      case False
      then show ?thesis using that w'(4,6) by (simp add: predicted_def)
    qed
    then show ?thesis using x w'(5) unfolding event_served_def Let_def by auto
  qed
  note st = handle_event_static[OF h(1)]
  have "event_served cfg now sky lib about t w' ev'"
    using ev new h(2) w'(5) unfolding event_served_def Let_def st by simp
  then show ?thesis using that[OF h w'(2,5,6) kept] by blast
qed

lemma batch_predicts:
  assumes lib: "fresh_ids gen" "skyfield_ok sky" "0 < PASS_PREDICTION_HORIZON_HOURS cfg"
    and env: "\<forall>k. rd_locked (env k) = [] \<and> t \<le> rd_now (env k)"
    and sats: "\<forall>s \<in> set (satellites w). sat_id s < 2 ^ 128 \<and> (\<exists>e. EarthSatellite sky (tle_line1 s) (tle_line2 s) = Inr e)"
    and "db_ok w" and "events_ok evs" and "pending_count evs \<le> n"
    and "\<forall>ev \<in> set evs. event_served cfg now sky lib about t w ev"
  shows "\<exists>evs' w'. process_events tb (app_dispatcher cfg gen now tnow sky lib collate) env k n (evs, w) =
      (Inr (), evs', w') \<and> db_ok w' \<and> satellites w' = satellites w \<and> stations w' = stations w \<and>
    map ev_id evs' = map ev_id evs \<and>
    (\<forall>ev \<in> set evs'. ev_status ev = PROCESSED \<and> event_served cfg now sky lib about t w' ev)"
  using assms(5-9)
proof (induction n arbitrary: k evs w)
  case 0
  then have "filter (\<lambda>ev. ev_status ev = PENDING) evs = []" by (simp add: pending_count_def)
  then show ?case using 0 by (auto simp: event_served_def Let_def filter_empty_conv)
next
  case (Suc n)
  show ?case
  proof (cases "next_event (env k) evs")
    case None
    then have "filter (ready (env k)) evs = []" by (simp add: next_event_None)
    then have "\<forall>ev \<in> set evs. ev_status ev = PROCESSED"
      using Suc.prems(5) env[rule_format, of k] by (fastforce simp: filter_empty_conv ready_def event_served_def Let_def)
    then show ?thesis using None Suc.prems by auto
  next
    case (Some ev)
    note ev = next_event_Some(1,2)[OF Some]
    have pend: "ev_status ev = PENDING" using ev(2) by (simp add: ready_def)
    have served: "event_served cfg now sky lib about t w ev" using Suc.prems(5) ev(1) by blast
    have evok: "event_ok ev" and d: "distinct (map ev_id evs)"
      using Suc.prems(3) ev(1) by (simp_all add: events_ok_def)
    from served Suc.prems(1) obtain e where "sat_id (about (ev_id ev)) < 2 ^ 128"
      "EarthSatellite sky (tle_line1 (about (ev_id ev))) (tle_line2 (about (ev_id ev))) = Inr e"
      unfolding event_served_def Let_def by blast
    from round_predicts[OF Suc.prems(2) lib this served pend]
    obtain ev1 w1 where h: "handle_event tb (app_dispatcher cfg gen now tnow sky lib collate) (env k) ev w = (Inr ev1, w1)"
      "ev_status ev1 = PROCESSED" "db_ok w1" "satellites w1 = satellites w" "stations w1 = stations w"
      "\<And>x. event_served cfg now sky lib about t w x \<Longrightarrow> event_served cfg now sky lib about t w1 x"
      "event_served cfg now sky lib about t w1 ev1" by blast
    note h1 = handle_event_ok[OF evok pend h(1)]
    have "pending_count (store_event ev1 evs) \<le> n"
      using pending_count_store[OF d ev(1) pend h1(2)] h(2) Suc.prems(4) by simp
    moreover have "\<forall>x \<in> set (store_event ev1 evs). event_served cfg now sky lib about t w1 x"
      using Suc.prems(5) h(6,7) by (auto simp: store_event_def set_update_where)
    ultimately obtain evs' w' where "process_events tb (app_dispatcher cfg gen now tnow sky lib collate) env (Suc k) n
        (store_event ev1 evs, w1) = (Inr (), evs', w')" "db_ok w'" "satellites w' = satellites w1" "stations w' = stations w1"
      "map ev_id evs' = map ev_id (store_event ev1 evs)"
      "\<forall>ev \<in> set evs'. ev_status ev = PROCESSED \<and> event_served cfg now sky lib about t w' ev"
      using Suc.IH[of w1 "store_event ev1 evs" "Suc k"] Suc.prems(1) h(3,4) events_ok_store[OF Suc.prems(3) h1(1)]
      by auto
    then show ?thesis using Some h(1,4,5) by (simp add: ids_store)
  qed
qed

text \<open>One batch over the events of a feed that has just been stored in tables without other satellites.\<close>

lemma deployed_batch:
  assumes lib: "fresh_ids gen" "skyfield_ok sky" "0 < PASS_PREDICTION_HORIZON_HOURS cfg"
    and env: "\<forall>k. rd_locked (env k) = [] \<and> t \<le> rd_now (env k)"
    and ok: "db_ok w" and only: "\<forall>s \<in> set (satellites w). \<exists>rec \<in> set recs. sat_for w rec = Some s \<and> refreshed_sat sky rec s"
    and small: "\<forall>s \<in> set (satellites w). sat_id s < 2 ^ 128"
    and pairs: "list_all2 (\<lambda>rec ev. \<exists>s. sat_for w rec = Some s \<and> refreshed_event s ev) recs (events w)"
    and due: "\<forall>ev \<in> set (events w). scheduled_at ev \<le> t" and few: "length recs \<le> 50"
  shows "\<exists>evs w'. process_batch tb (app_dispatcher cfg gen now tnow sky lib collate) env (events w, w) = (Inr (), evs, w') \<and>
    length evs = length recs \<and> list_all (\<lambda>ev. ev_status ev = PROCESSED) evs \<and> db_ok w' \<and>
    stations w' = stations w \<and> satellites w' = satellites w \<and>
    (\<forall>rec \<in> set recs. \<exists>s. sat_for w rec = Some s \<and> predicted cfg now sky lib s w')"
proof -
  have evok: "events_ok (events w)" and len: "length (events w) = length recs"
    using db_okD(4)[OF ok] list_all2_lengthD[OF pairs] by simp_all
  have "\<forall>ev \<in> set (events w). \<exists>s. s \<in> set (satellites w) \<and> refreshed_event s ev"
    using list_all2_right[OF pairs] by (auto simp: sat_for_def dest!: lookup_SomeD)
  then obtain f where f: "\<forall>ev \<in> set (events w). f ev \<in> set (satellites w) \<and> refreshed_event (f ev) ev"
    by (rule bchoice[THEN exE])
  define about where "about i = f (the (lookup ev_id i (events w)))" for i
  have about: "about (ev_id ev) = f ev" if "ev \<in> set (events w)" for ev
    using that evok lookup_unique[of ev_id "events w" ev] by (simp add: about_def events_ok_def)
  have sats: "\<forall>s \<in> set (satellites w). sat_id s < 2 ^ 128 \<and> (\<exists>e. EarthSatellite sky (tle_line1 s) (tle_line2 s) = Inr e)"
    using small only by (fastforce simp: refreshed_sat_def tle_epoch_def build_satellite_def rbind_eq_Inr)
  have served: "\<forall>ev \<in> set (events w). event_served cfg now sky lib about t w ev"
    using f due by (simp add: event_served_def about refreshed_event_def refreshed_payload_def)
  have "pending_count (events w) \<le> 50"
    using few length_filter_le[of _ "events w"] unfolding pending_count_def len[symmetric] by (rule order_trans[rotated])
  from batch_predicts[OF lib env sats ok evok this served, where tb = tb and tnow = tnow and collate = collate and k = 0]
  obtain evs w' where b: "process_events tb (app_dispatcher cfg gen now tnow sky lib collate) env 0 50 (events w, w) = (Inr (), evs, w')"
    "db_ok w'" "satellites w' = satellites w" "stations w' = stations w" "map ev_id evs = map ev_id (events w)"
    "\<forall>ev \<in> set evs. ev_status ev = PROCESSED \<and> event_served cfg now sky lib about t w' ev" by blast
  have "\<exists>s. sat_for w rec = Some s \<and> predicted cfg now sky lib s w'" if rec: "rec \<in> set recs" for rec
  proof -
    obtain ev s where ev: "ev \<in> set (events w)" "sat_for w rec = Some s" "refreshed_event s ev"
      using list_all2_left[OF pairs rec] by blast
    have "aggregate_id ev = Some (sat_id (f ev))" "aggregate_id ev = Some (sat_id s)"
      using f ev(1,3) by (simp_all add: refreshed_event_def)
    then have "f ev = s"
      using unique_column[OF db_okD(5)[OF ok]] f ev(1,2) by (auto simp: sat_for_def dest!: lookup_SomeD)
    moreover have "ev_id ev \<in> set (map ev_id evs)" using b(5) ev(1) by simp
    then obtain ev' where "ev' \<in> set evs" "ev_id ev' = ev_id ev" by auto
    then have "predicted cfg now sky lib (about (ev_id ev)) w'"
      using b(6) unfolding event_served_def Let_def by (metis row_status.distinct)
    ultimately show ?thesis using ev(1,2) about by auto
  qed
  moreover have "length evs = length recs" using arg_cong[OF b(5), of length] len by simp
  ultimately show ?thesis
    using b by (auto simp: process_batch_def EVENT_BATCH_SIZE_def list_all_iff)
qed

subsection \<open>A feed of one record\<close>

lemma sample_feed_ingest:
  assumes "satellites d = []" and "events d = []"
  shows "\<exists>d' ev. ingest_tles default_settings gen 0 sample_sky (\<lambda>_. Inr [sample_tle]) ''active'' d = Inr (d', 1) \<and>
     events d' = [ev] \<and> map sat_id (satellites d') = [gen []] \<and> stations d' = stations d"
proof -
  have "tle_epoch sample_sky l1 l2 = Inr 7" for l1 l2
    by (simp add: tle_epoch_def build_satellite_def sample_sky_def)
  then show ?thesis
    using assms
    by (simp add: ingest_tles_def ingest_record_def sample_tle_norad
        get_by_norad_id_def repo_create_def satellite_violation_def publish_refreshed_def publish_def Let_def)
      (simp add: sample_tle_def Let_def)
qed

end
