(* ===== verification/Flights.thy ===== *)
theory Flights
  imports Registry
begin

text \<open>
  The handler \<open>recompute_passes\<close> as it runs beside the other tasks and processes: its session reads the
  stations, then for each of them reads the satellite's row, computes the passes, deletes the
  pair's rows and inserts the new ones, and commits at the end. Between two stations others may commit,
  and each statement sees what is committed by then (PostgreSQL's default isolation, read committed),
  with the session's own changes. A \<open>flight\<close> is such a session under way. The theory shows that a
  flight nobody interferes with is \<open>recompute_passes\<close>, and what a station's step and the commit do.
\<close>

text \<open>
  The event the worker holds, the clock reading of the window, the stations done and those to do, and
  the session's uncommitted changes: the ids of the deleted rows and the inserted rows.
\<close>

record 'w flight =
  fl_event :: event
  fl_now :: datetime
  fl_done :: "'w ground_station list"
  fl_todo :: "'w ground_station list"
  fl_deleted :: "uuid list"
  fl_inserted :: "'w pass_prediction list"

definition fl_payload :: "'w flight \<Rightarrow> payload" where
  "fl_payload f = ev_payload (fl_event f)"

definition begin_flight :: "(string \<Rightarrow> real) \<Rightarrow> event \<Rightarrow> datetime \<Rightarrow> 'w db \<Rightarrow> 'w flight" where
  "begin_flight collate ev now d = \<lparr>fl_event = ev, fl_now = now, fl_done = [],
     fl_todo = list_all_stations collate (stations d), fl_deleted = [], fl_inserted = []\<rparr>"

text \<open>What the session sees: the committed tables with its own changes.\<close>

definition rows_left :: "'w flight \<Rightarrow> 'w db \<Rightarrow> 'w pass_prediction list" where
  "rows_left f d = filter (\<lambda>p. pp_id p \<notin> set (fl_deleted f)) (predictions d)"

definition seen :: "'w flight \<Rightarrow> 'w db \<Rightarrow> 'w db" where
  "seen f d = d\<lparr>predictions := rows_left f d @ fl_inserted f\<rparr>"

text \<open>
  One turn of the loop over the stations. What the use case leaves in front are the rows it has not
  deleted, and the rows behind them are its inserts.
\<close>

definition flight_station ::
  "settings \<Rightarrow> (uuid list \<Rightarrow> uuid) \<Rightarrow> datetime \<Rightarrow> ('s, 'o, 't) skyfield \<Rightarrow> ('g, 'w) shapely \<Rightarrow>
   'w ground_station \<Rightarrow> 'w db \<Rightarrow> 'w flight \<Rightarrow> 'w flight result" where
  "flight_station cfg gen tnow sky lib station d f =
     rbind (payload_satellite_id (fl_payload f)) (\<lambda>sid.
     rbind (recompute_station cfg gen (fl_now f) tnow sky lib sid station (seen f d)) (\<lambda>d'.
       let rows = predictions (seen f d);
           pair = (\<lambda>p. satellite_id p = sid \<and> ground_station_id p = st_id station);
           kept = filter (\<lambda>p. \<not> pair p) rows
       in Inr (f\<lparr>fl_done := fl_done f @ [station], fl_todo := tl (fl_todo f),
            fl_deleted := fl_deleted f @ map pp_id (filter pair rows),
            fl_inserted := filter (\<lambda>p. \<not> pair p) (fl_inserted f) @ drop (length kept) (predictions d')\<rparr>)))"

text \<open>
  The commit. The inserted rows meet the constraints on what others have committed in the meantime:
  PostgreSQL lets an INSERT wait for another transaction that has inserted the same key.
\<close>

definition insert_row :: "'w db \<Rightarrow> 'w pass_prediction \<Rightarrow> 'w pass_prediction list \<Rightarrow> 'w pass_prediction list result" where
  "insert_row d row rows = rbind (repo_create (prediction_violation (satellites d) (stations d)) row rows) (\<lambda>(_, rows'). Inr rows')"

definition commit_flight :: "'w flight \<Rightarrow> 'w db \<Rightarrow> exc option \<times> 'w db" where
  "commit_flight f d =
     (case rbind (payload_satellite_id (fl_payload f)) (\<lambda>_. fold_r (insert_row d) (fl_inserted f) (rows_left f d)) of
        Inl e \<Rightarrow> (Some e, d)
      | Inr rows \<Rightarrow> (None, d\<lparr>predictions := rows\<rparr>))"

text \<open>A flight from its start to its commit, nobody interfering.\<close>

definition lone_flight ::
  "settings \<Rightarrow> (uuid list \<Rightarrow> uuid) \<Rightarrow> datetime \<Rightarrow> datetime \<Rightarrow> ('s, 'o, 't) skyfield \<Rightarrow> ('g, 'w) shapely \<Rightarrow>
   (string \<Rightarrow> real) \<Rightarrow> event \<Rightarrow> 'w db \<Rightarrow> exc option \<times> 'w db" where
  "lone_flight cfg gen now tnow sky lib collate ev d =
     (let f = begin_flight collate ev now d
      in case fold_r (\<lambda>station. flight_station cfg gen tnow sky lib station d) (fl_todo f) f of
           Inl e \<Rightarrow> (Some e, d)
         | Inr f' \<Rightarrow> commit_flight f' d)"

subsection \<open>One station\<close>

lemma seen_simps [simp]:
  "satellites (seen f d) = satellites d" "stations (seen f d) = stations d"
  "events (seen f d) = events d" "notified (seen f d) = notified d"
  "predictions (seen f d) = rows_left f d @ fl_inserted f"
  by (simp_all add: seen_def)

lemma seen_begin [simp]: "seen (begin_flight collate ev now d) d = d"
  by (simp add: seen_def begin_flight_def rows_left_def)

text \<open>The use case removes the pair's rows and appends the new ones.\<close>

lemma insert_passes_append:
  "fold_r (insert_pass gen now lib sid stid) ps d = Inr d' \<Longrightarrow>
   \<exists>new. d' = d\<lparr>predictions := predictions d @ new\<rparr> \<and> (\<forall>p \<in> set new. of_pair sid stid p)"
proof (induction ps arbitrary: d)
  case (Cons p ps)
  obtain d1 where one: "insert_pass gen now lib sid stid p d = Inr d1" and rest: "fold_r (insert_pass gen now lib sid stid) ps d1 = Inr d'"
    using Cons.prems by (auto simp: rbind_eq_Inr)
  from one obtain row where d1: "d1 = d\<lparr>predictions := predictions d @ [row]\<rparr>" "of_pair sid stid row"
    by (auto simp: insert_pass_def rbind_eq_Inr repo_create_def of_pair_def split: option.splits)
  obtain new where "d' = d1\<lparr>predictions := predictions d1 @ new\<rparr>" "\<forall>p \<in> set new. of_pair sid stid p"
    using Cons.IH[OF rest] by blast
  then show ?case using d1 by (intro exI[of _ "row # new"]) simp
qed (auto intro: exI[of _ "[]"])

lemma recompute_station_rows:
  assumes "recompute_station cfg gen now tnow sky lib sid station d = Inr d'"
  obtains new where "d' = d\<lparr>predictions := filter (\<lambda>p. \<not> of_pair sid (st_id station) p) (predictions d) @ new\<rparr>"
    "\<forall>p \<in> set new. of_pair sid (st_id station) p"
proof -
  have del: "delete_for_satellite_and_station sid (st_id station) (predictions d) =
      filter (\<lambda>p. \<not> of_pair sid (st_id station) p) (predictions d)"
    by (simp add: delete_for_satellite_and_station_def delete_where_def of_pair_def)
  obtain predicted where run: "fold_r (insert_pass gen tnow lib sid (st_id station)) predicted
      (d\<lparr>predictions := delete_for_satellite_and_station sid (st_id station) (predictions d)\<rparr>) = Inr d'"
    using assms
    by (auto simp: recompute_station_def compute_passes_use_case_def rbind_eq_Inr split: option.splits prod.splits)
  from insert_passes_append[OF run] show ?thesis using that unfolding del by auto
qed

text \<open>In sound tables the session then sees exactly what the use case has left.\<close>

lemma flight_station_seen:
  assumes "flight_station cfg gen tnow sky lib station d f = Inr f'" and ok: "db_ok (seen f d)"
    and sid: "payload_satellite_id (fl_payload f) = Inr sid"
  shows "recompute_station cfg gen (fl_now f) tnow sky lib sid station (seen f d) = Inr (seen f' d)"
    "fl_event f' = fl_event f" "fl_now f' = fl_now f" "fl_done f' = fl_done f @ [station]" "fl_todo f' = tl (fl_todo f)"
proof -
  let ?pair = "of_pair sid (st_id station)" and ?rows = "predictions (seen f d)"
  obtain d' where run: "recompute_station cfg gen (fl_now f) tnow sky lib sid station (seen f d) = Inr d'"
    and f': "f' = f\<lparr>fl_done := fl_done f @ [station], fl_todo := tl (fl_todo f),
            fl_deleted := fl_deleted f @ map pp_id (filter ?pair ?rows),
            fl_inserted := filter (\<lambda>p. \<not> ?pair p) (fl_inserted f) @
              drop (length (filter (\<lambda>p. \<not> ?pair p) ?rows)) (predictions d')\<rparr>"
    using assms(1) by (auto simp: flight_station_def sid rbind_eq_Inr Let_def of_pair_def[abs_def])
  obtain new where d': "d' = (seen f d)\<lparr>predictions := filter (\<lambda>p. \<not> ?pair p) ?rows @ new\<rparr>"
    by (rule recompute_station_rows[OF run])
  have ins: "fl_inserted f' = filter (\<lambda>p. \<not> ?pair p) (fl_inserted f) @ new"
    by (simp add: f' d')
  have dist: "distinct (map pp_id ?rows)" using db_okD(3)[OF ok] by (simp add: predictions_ok_def)
  have "rows_left f' d = filter (\<lambda>p. pp_id p \<notin> pp_id ` set (filter ?pair ?rows)) (rows_left f d)"
    by (auto simp: rows_left_def f' intro!: filter_cong)
  also have "\<dots> = filter (\<lambda>p. \<not> ?pair p) (rows_left f d)"
  proof (rule filter_cong[OF refl])
    fix p assume p: "p \<in> set (rows_left f d)"
    have "?pair p" if "q \<in> set ?rows" "?pair q" "pp_id p = pp_id q" for q
      using unique_column[OF dist that(1), of p] p that(2,3) by simp
    then show "(pp_id p \<notin> pp_id ` set (filter ?pair ?rows)) = (\<not> ?pair p)"
      using p by auto
  qed
  finally have "seen f' d = d'" using ins by (simp add: d' seen_def)
  then show "recompute_station cfg gen (fl_now f) tnow sky lib sid station (seen f d) = Inr (seen f' d)"
    using run by simp
  show "fl_event f' = fl_event f" "fl_now f' = fl_now f" "fl_done f' = fl_done f @ [station]" "fl_todo f' = tl (fl_todo f)"
    by (simp_all add: f')
qed

subsection \<open>The commit\<close>

lemma insert_rows:
  "predictions_ok (satellites d) (stations d) (rows @ new) \<Longrightarrow> fold_r (insert_row d) new rows = Inr (rows @ new)"
proof (induction new arbitrary: rows)
  case (Cons row new)
  have "prediction_violation (satellites d) (stations d) row rows = None"
    using Cons.prems by (auto simp: predictions_ok_def prediction_violation_def)
  then have "insert_row d row rows = Inr (rows @ [row])" by (simp add: insert_row_def repo_create_def)
  then show ?case using Cons by simp
qed simp

lemma commit_sound:
  assumes "db_ok (seen f d)" and "payload_satellite_id (fl_payload f) = Inr sid"
  shows "commit_flight f d = (None, seen f d)"
  using insert_rows[of d "rows_left f d" "fl_inserted f"] db_okD(3)[OF assms(1)] assms(2)
  by (simp add: commit_flight_def seen_def)

subsection \<open>Properties\<close>

text \<open>The stations' steps against the fold of \<open>recompute_passes\<close>.\<close>

lemma flight_stations_fold:
  assumes "db_ok (seen f d)" and "payload_satellite_id (fl_payload f) = Inr sid"
  shows "(case fold_r (\<lambda>station. flight_station cfg gen tnow sky lib station d) sts f of
       Inl e \<Rightarrow> (Some e, d) | Inr f' \<Rightarrow> commit_flight f' d) =
     (case fold_r (recompute_station cfg gen (fl_now f) tnow sky lib sid) sts (seen f d) of
       Inl e \<Rightarrow> (Some e, d) | Inr d' \<Rightarrow> (None, d'))"
  using assms
proof (induction sts arbitrary: f)
  case Nil
  then show ?case by (simp add: commit_sound)
next
  case (Cons st sts)
  show ?case
  proof (cases "flight_station cfg gen tnow sky lib st d f")
    case (Inl e)
    then have "recompute_station cfg gen (fl_now f) tnow sky lib sid st (seen f d) = Inl e"
      using Cons.prems(2)
      by (cases "recompute_station cfg gen (fl_now f) tnow sky lib sid st (seen f d)") (auto simp: flight_station_def Let_def)
    then show ?thesis using Inl by simp
  next
    case (Inr f')
    note s = flight_station_seen[OF Inr Cons.prems]
    have "db_ok (seen f' d)" using recompute_station_Inr(3)[OF s(1) Cons.prems(1)] .
    then show ?thesis using Cons.IH[of f'] Inr s Cons.prems(2) by (simp add: fl_payload_def)
  qed
qed


definition sample_refresh :: event where
  "sample_refresh = (sample_event 1 5)\<lparr>event_type := ''tle.refreshed'', ev_payload := [(''satellite_id'', JStr (uuid_str 3))]\<rparr>"


end
