(* ===== verification/AppErrors.thy ===== *)
theory AppErrors
  imports PyNum
begin

text \<open>
  \<open>app/core/exceptions\<close>: the domain exceptions with their status codes and stable error codes
  (\<open>exceptions.py\<close>), and the FastAPI handlers that turn an exception that leaves an endpoint into a
  response (\<open>handlers.py\<close>).
\<close>

text \<open>The text of a \<open>NotFoundError\<close>: \<open>f"{entity} not found{suffix}"\<close>.\<close>

definition not_found_message :: "string \<Rightarrow> uuid option \<Rightarrow> string" where
  "not_found_message entity eid =
     entity @ '' not found'' @
     (case eid of None \<Rightarrow> [] | Some u \<Rightarrow> '' (id: '' @ uuid_str u @ '')'')"

text \<open>
  \<open>isinstance(exc, DomainException)\<close> with the class attributes \<open>status_code\<close> and \<open>code\<close> and the
  \<open>message\<close> the constructor stores (\<open>message or self.code\<close>).
\<close>

definition message_or :: "string \<Rightarrow> string \<Rightarrow> string" where
  "message_or m code = (if m = [] then code else m)"

fun domain_exception :: "exc \<Rightarrow> (int \<times> string \<times> string) option" where
  "domain_exception (DomainException m) =
     Some (500, ''internal_error'', message_or m ''internal_error'')"
| "domain_exception (NotFoundError entity eid) =
     Some (404, ''not_found'', message_or (not_found_message entity eid) ''not_found'')"
| "domain_exception (ConflictError m) = Some (409, ''conflict'', message_or m ''conflict'')"
| "domain_exception (BusinessValidationError m) =
     Some (400, ''business_validation'', message_or m ''business_validation'')"
| "domain_exception (ExternalServiceError m) =
     Some (502, ''external_service_error'', message_or m ''external_service_error'')"
| "domain_exception _ = None"

text \<open>The response: its status, and \<open>detail\<close> and \<open>code\<close> of its JSON body.\<close>

record error_body =
  detail :: string
  err_code :: string

text \<open>
  \<open>register_exception_handlers\<close>: the response for an exception, or None when no handler is
  registered for its class (the server then answers 500 without a body of the program's).
\<close>

definition exception_response :: "exc \<Rightarrow> (int \<times> error_body) option" where
  "exception_response e =
     (case domain_exception e of
        Some (status, code, message) \<Rightarrow> Some (status, \<lparr>detail = message, err_code = code\<rparr>)
      | None \<Rightarrow>
          (case e of
             RequestValidationError \<Rightarrow>
               Some (422, \<lparr>detail = ''Validation error'', err_code = ''validation_error''\<rparr>)
           | IntegrityError _ \<Rightarrow>
               Some (409, \<lparr>detail = ''Integrity conflict'', err_code = ''integrity_conflict''\<rparr>)
           | _ \<Rightarrow> None))"

text \<open>Every error response has an error status and a non-empty code and detail.\<close>

lemma exception_response_error:
  "exception_response e = Some (status, body) \<Longrightarrow>
   400 \<le> status \<and> status < 600 \<and> err_code body \<noteq> [] \<and> detail body \<noteq> []"
  by (cases e) (auto simp: exception_response_def message_or_def split: if_splits)

text \<open>The code tells the error classes apart: two exceptions with one code have one status.\<close>

lemma error_code_determines_status:
  "exception_response e = Some (s, b) \<Longrightarrow> exception_response e' = Some (s', b') \<Longrightarrow>
   err_code b = err_code b' \<Longrightarrow> s = s'"
  by (cases e; cases e') (auto simp: exception_response_def)

end
