(* ===== verification/Api.thy ===== *)
theory Api
  imports PassPredictions AppErrors
begin

text \<open>
  The HTTP side: the ground-station use cases (\<open>app/tracking/use_cases/register_ground_station.py\<close>,
  \<open>list_ground_stations.py\<close>, \<open>list_satellites.py\<close>), the request schemas (\<open>app/tracking/schemas\<close>), the
  endpoints (\<open>app/tracking/api\<close>). JSON is not modelled: a request arrives as the values of its
  fields, a response is its status and body (the routes are in the theory \<open>Http\<close>). Each endpoint's session is
  \<open>with_session\<close> (\<open>app/deps/repository.py\<close> only passes it on).
\<close>

subsection \<open>Use cases\<close>

definition register_ground_station ::
  "(uuid list \<Rightarrow> uuid) \<Rightarrow> datetime \<Rightarrow> ('g, 'w) shapely \<Rightarrow> string \<Rightarrow> real \<Rightarrow> real \<Rightarrow> real \<Rightarrow> 'w db \<Rightarrow>
   ('w ground_station \<times> 'w db) result" where
  "register_ground_station gen now lib name latitude longitude altitude d =
     (if get_by_name name (stations d) \<noteq> None
      then Inl (ConflictError (''ground station already exists: '' @ name))
      else rbind (repo_create station_violation
                   \<lparr>st_id = gen (map st_id (stations d)), st_name = name,
                    location = point_to_wkb lib latitude longitude, altitude_m = altitude,
                    st_created_at = now, st_updated_at = None\<rparr> (stations d)) (\<lambda>(station, rows).
             Inr (station, d\<lparr>stations := rows\<rparr>)))"

definition list_ground_stations :: "(string \<Rightarrow> real) \<Rightarrow> 'w db \<Rightarrow> 'w ground_station list" where
  "list_ground_stations collate d = list_all_stations collate (stations d)"

definition list_satellites :: "nat \<Rightarrow> nat \<Rightarrow> 'w db \<Rightarrow> satellite list \<times> nat" where
  "list_satellites limit offset d = repo_list_paginated sat_id limit offset (satellites d)"

subsection \<open>Schemas\<close>

text \<open>\<open>GroundStationCreate\<close>; an absent altitude takes the default.\<close>

record ground_station_create =
  gc_name :: string
  gc_latitude :: real
  gc_longitude :: real
  gc_altitude_m :: "real option"

definition create_altitude :: "ground_station_create \<Rightarrow> real" where
  "create_altitude b = (case gc_altitude_m b of None \<Rightarrow> 0 | Some a \<Rightarrow> a)"

definition valid_create :: "ground_station_create \<Rightarrow> bool" where
  "valid_create b \<longleftrightarrow>
     1 \<le> length (gc_name b) \<and> length (gc_name b) \<le> 255 \<and>
     - 90 \<le> gc_latitude b \<and> gc_latitude b \<le> 90 \<and>
     - 180 \<le> gc_longitude b \<and> gc_longitude b \<le> 180 \<and>
     - 500 \<le> create_altitude b \<and> create_altitude b \<le> 100000"

record ground_station_read =
  gr_id :: uuid
  gr_name :: string
  gr_latitude :: real
  gr_longitude :: real
  gr_altitude_m :: real
  gr_created_at :: datetime
  gr_updated_at :: "datetime option"

definition to_read :: "('g, 'w) shapely \<Rightarrow> 'w ground_station \<Rightarrow> ground_station_read" where
  "to_read lib station =
     (let (longitude, latitude) = wkb_to_lonlat lib (location station)
      in \<lparr>gr_id = st_id station, gr_name = st_name station, gr_latitude = latitude,
          gr_longitude = longitude, gr_altitude_m = altitude_m station,
          gr_created_at = st_created_at station, gr_updated_at = st_updated_at station\<rparr>)"

record satellite_read =
  sr_id :: uuid
  sr_norad_id :: int
  sr_name :: string
  sr_epoch :: datetime
  sr_created_at :: datetime
  sr_updated_at :: "datetime option"

text \<open>\<open>SatelliteRead.model_validate(item)\<close> reads the attributes of the row.\<close>

definition satellite_read_of :: "satellite \<Rightarrow> satellite_read" where
  "satellite_read_of s = \<lparr>sr_id = sat_id s, sr_norad_id = norad_id s, sr_name = sat_name s,
     sr_epoch = epoch s, sr_created_at = sat_created_at s, sr_updated_at = sat_updated_at s\<rparr>"

record ground_station_list =
  gl_items :: "ground_station_read list"
  gl_total :: nat

record pass_read =
  pr_norad_id :: int
  pr_name :: string
  pr_aos_at :: datetime
  pr_los_at :: datetime
  pr_peak_at :: datetime
  pr_peak_elevation_deg :: real
  pr_track :: "(string \<times> pyval) list"

definition pass_read_of :: "pass_view \<Rightarrow> pass_read" where
  "pass_read_of v = \<lparr>pr_norad_id = pv_norad_id v, pr_name = pv_name v, pr_aos_at = pv_aos_at v,
     pr_los_at = pv_los_at v, pr_peak_at = pv_peak_at v,
     pr_peak_elevation_deg = pv_peak_elevation_deg v, pr_track = pv_track v\<rparr>"

record pass_list =
  pl_items :: "pass_read list"
  pl_total :: nat

record satellite_list =
  sl_items :: "satellite_read list"
  sl_total :: nat
  sl_limit :: int
  sl_offset :: int

subsection \<open>Endpoints\<close>

datatype 'a response = Success int 'a | Failure int error_body | Internal_error

definition respond :: "int \<Rightarrow> 'a result \<Rightarrow> 'a response" where
  "respond status r =
     (case r of
        Inr x \<Rightarrow> Success status x
      | Inl e \<Rightarrow> (case exception_response e of Some (s, b) \<Rightarrow> Failure s b | None \<Rightarrow> Internal_error))"

definition post_ground_station ::
  "(uuid list \<Rightarrow> uuid) \<Rightarrow> datetime \<Rightarrow> ('g, 'w) shapely \<Rightarrow> ground_station_create \<Rightarrow> 'w db \<Rightarrow>
   ground_station_read response \<times> 'w db" where
  "post_ground_station gen now lib body d =
     (if \<not> valid_create body then (respond 201 (Inl RequestValidationError), d)
      else let (r, d') = with_session (\<lambda>d.
             rbind (register_ground_station gen now lib (gc_name body) (gc_latitude body)
                      (gc_longitude body) (create_altitude body) d) (\<lambda>(station, d').
             Inr (to_read lib station, d'))) d
           in (respond 201 r, d'))"

definition get_ground_stations ::
  "('g, 'w) shapely \<Rightarrow> (string \<Rightarrow> real) \<Rightarrow> 'w db \<Rightarrow> ground_station_list response" where
  "get_ground_stations lib collate d =
     (let sts = list_ground_stations collate d
      in respond 200 (Inr \<lparr>gl_items = map (to_read lib) sts, gl_total = length sts\<rparr>))"

text \<open>\<open>after or datetime.now(UTC)\<close>; a naive \<open>after\<close> is read in the process's timezone, which is UTC.\<close>

definition get_station_passes ::
  "('g, 'w) shapely \<Rightarrow> (string \<Rightarrow> real) \<Rightarrow> datetime \<Rightarrow> uuid \<Rightarrow> py_datetime option \<Rightarrow> 'w db \<Rightarrow>
   pass_list response" where
  "get_station_passes lib collate now stid after d =
     (let start = (case after of None \<Rightarrow> now | Some t \<Rightarrow> instant_us t)
      in respond 200 (rbind (get_ground_station_passes lib collate stid start d) (\<lambda>views.
           Inr \<lparr>pl_items = map pass_read_of views, pl_total = length views\<rparr>)))"

text \<open>The query parameters \<open>limit\<close> (1 to 100, default 50) and \<open>offset\<close> (not negative, default 0).\<close>

definition get_satellites :: "int option \<Rightarrow> int option \<Rightarrow> 'w db \<Rightarrow> satellite_list response" where
  "get_satellites limit_q offset_q d =
     (let limit = (case limit_q of None \<Rightarrow> 50 | Some l \<Rightarrow> l);
          offset = (case offset_q of None \<Rightarrow> 0 | Some n \<Rightarrow> n)
      in if \<not> (1 \<le> limit \<and> limit \<le> 100 \<and> 0 \<le> offset) then respond 200 (Inl RequestValidationError)
         else let (items, total) = list_satellites (nat limit) (nat offset) d
           in respond 200 (Inr \<lparr>sl_items = map satellite_read_of items, sl_total = total,
                sl_limit = limit, sl_offset = offset\<rparr>))"

subsection \<open>Lemmas\<close>

lemma register_conflict:
  "name \<in> st_name ` set (stations d) \<Longrightarrow>
   register_ground_station gen now lib name lat lon alt d =
     Inl (ConflictError (''ground station already exists: '' @ name))"
  using lookup_None_iff[of st_name name "stations d"]
  by (simp add: register_ground_station_def get_by_name_lookup)

lemma register_new:
  assumes "fresh_ids gen" and "name \<notin> st_name ` set (stations d)" and "length name \<le> 255" and "db_ok d"
  shows "\<exists>station. register_ground_station gen now lib name lat lon alt d =
      Inr (station, d\<lparr>stations := stations d @ [station]\<rparr>) \<and>
    st_name station = name \<and> location station = point_to_wkb lib lat lon \<and> altitude_m station = alt \<and>
    st_id station \<notin> st_id ` set (stations d) \<and> st_created_at station = now \<and> st_updated_at station = None \<and>
    db_ok (d\<lparr>stations := stations d @ [station]\<rparr>)"
proof -
  let ?s = "\<lparr>st_id = gen (map st_id (stations d)), st_name = name,
                    location = point_to_wkb lib lat lon, altitude_m = alt,
                    st_created_at = now, st_updated_at = None\<rparr>"
  have fresh: "gen (map st_id (stations d)) \<notin> st_id ` set (stations d)"
    using assms(1) unfolding fresh_ids_def by (metis set_map)
  have c: "repo_create station_violation ?s (stations d) = Inr (?s, stations d @ [?s])"
    using assms(2,3) fresh by (simp add: repo_create_def station_violation_def)
  have "stations_ok (stations d @ [?s])"
    using station_table.create_ok[OF db_okD(2)[OF assms(4)] c] by blast
  moreover have "predictions_ok (satellites d) (stations d @ [?s]) (predictions d)"
    by (rule predictions_ok_more[OF db_okD(3)[OF assms(4)]]) auto
  ultimately have "db_ok (d\<lparr>stations := stations d @ [?s]\<rparr>)"
    using assms(4) by (simp add: db_ok_def)
  moreover have "get_by_name name (stations d) = None"
    using assms(2) by (simp add: get_by_name_lookup lookup_None_iff)
  ultimately show ?thesis
    using c fresh by (intro exI[of _ ?s]) (simp add: register_ground_station_def)
qed

lemma pages_concat:
  "concat (map (\<lambda>k. take limit (drop (k * limit) xs)) [0..<m]) = take (m * limit) xs"
proof (induction m)
  case (Suc m)
  then show ?case using take_add[of "m * limit" limit xs] by (simp add: add.commute)
qed simp

lemma post_result:
  assumes "db_ok d" and "fresh_ids gen" and "shapely_ok lib"
    and "post_ground_station gen now lib body d = (resp, d')"
  shows "if \<not> valid_create body then d' = d \<and>
        resp = Failure 422 \<lparr>detail = ''Validation error'', err_code = ''validation_error''\<rparr>
    else if gc_name body \<in> st_name ` set (stations d) then d' = d \<and>
        resp = Failure 409 \<lparr>detail = ''ground station already exists: '' @ gc_name body, err_code = ''conflict''\<rparr>
    else db_ok d' \<and> (\<exists>station. d' = d\<lparr>stations := stations d @ [station]\<rparr> \<and>
        st_name station = gc_name body \<and> st_id station \<notin> st_id ` set (stations d) \<and>
        resp = Success 201 \<lparr>gr_id = st_id station, gr_name = gc_name body, gr_latitude = gc_latitude body,
          gr_longitude = gc_longitude body, gr_altitude_m = create_altitude body,
          gr_created_at = now, gr_updated_at = None\<rparr>)"
proof (cases "valid_create body")
  case False
  then show ?thesis
    using assms(4) by (auto simp: post_ground_station_def respond_def exception_response_def)
next
  case valid: True
  show ?thesis
  proof (cases "gc_name body \<in> st_name ` set (stations d)")
    case True
    have "post_ground_station gen now lib body d =
        (Failure 409 \<lparr>detail = ''ground station already exists: '' @ gc_name body, err_code = ''conflict''\<rparr>, d)"
      using valid register_conflict[OF True, of gen now lib "gc_latitude body" "gc_longitude body" "create_altitude body"]
      by (simp add: post_ground_station_def with_session_def respond_def exception_response_def message_or_def)
    then show ?thesis using valid True assms(4) by simp
  next
    case False
    have "length (gc_name body) \<le> 255" using valid by (simp add: valid_create_def)
    from register_new[OF assms(2) False this assms(1), of now lib "gc_latitude body" "gc_longitude body"
        "create_altitude body"]
    obtain station where s: "register_ground_station gen now lib (gc_name body) (gc_latitude body)
        (gc_longitude body) (create_altitude body) d = Inr (station, d\<lparr>stations := stations d @ [station]\<rparr>)"
      "st_name station = gc_name body" "location station = point_to_wkb lib (gc_latitude body) (gc_longitude body)"
      "altitude_m station = create_altitude body" "st_id station \<notin> st_id ` set (stations d)"
      "st_created_at station = now" "st_updated_at station = None"
      "db_ok (d\<lparr>stations := stations d @ [station]\<rparr>)" by blast
    have "to_read lib station = \<lparr>gr_id = st_id station, gr_name = gc_name body, gr_latitude = gc_latitude body,
          gr_longitude = gc_longitude body, gr_altitude_m = create_altitude body,
          gr_created_at = now, gr_updated_at = None\<rparr>"
      using s point_roundtrip[OF assms(3)] by (simp add: to_read_def)
    then have "resp = Success 201 \<lparr>gr_id = st_id station, gr_name = gc_name body, gr_latitude = gc_latitude body,
          gr_longitude = gc_longitude body, gr_altitude_m = create_altitude body,
          gr_created_at = now, gr_updated_at = None\<rparr>" "d' = d\<lparr>stations := stations d @ [station]\<rparr>"
      using valid assms(4) s(1) by (auto simp: post_ground_station_def with_session_def respond_def)
    then show ?thesis using valid False s(2,5,8) by auto
  qed
qed

subsection \<open>Properties\<close>


definition sample_body :: ground_station_create where
  "sample_body = \<lparr>gc_name = ''Madrid'', gc_latitude = 40, gc_longitude = - 4, gc_altitude_m = None\<rparr>"


text \<open>C32. Pagination loses and repeats nothing. Reading the satellites page by page with any allowed limit
  until the total is covered gives every satellite exactly once, in order of id, every page reports
  the same total, and a limit outside 1 to 100 or a negative offset is answered 422.\<close>

theorem satellite_pages_cover:
  assumes "1 \<le> limit" and "limit \<le> 100" and "length (satellites d) \<le> m * nat limit"
  shows "\<exists>pages. (\<forall>k < m. get_satellites (Some limit) (Some (int k * limit)) d =
        Success 200 \<lparr>sl_items = pages k, sl_total = length (satellites d), sl_limit = limit, sl_offset = int k * limit\<rparr>) \<and>
      concat (map pages [0..<m]) = map satellite_read_of (sort_key sat_id (satellites d)) \<and>
      (\<forall>l n. l < 1 \<or> 100 < l \<or> n < 0 \<longrightarrow> get_satellites (Some l) (Some n) d =
        Failure 422 \<lparr>detail = ''Validation error'', err_code = ''validation_error''\<rparr>)"
proof -
  let ?xs = "sort_key sat_id (satellites d)"
  let ?p = "\<lambda>k. take (nat limit) (drop (k * nat limit) ?xs)"
  have "get_satellites (Some limit) (Some (int k * limit)) d =
      Success 200 \<lparr>sl_items = map satellite_read_of (?p k), sl_total = length (satellites d),
        sl_limit = limit, sl_offset = int k * limit\<rparr>" for k
    using assms(1,2)
    by (simp add: get_satellites_def list_satellites_def repo_list_paginated_def respond_def Let_def nat_mult_distrib)
  moreover have "concat (map (\<lambda>k. map satellite_read_of (?p k)) [0..<m]) = map satellite_read_of ?xs"
  proof -
    have "concat (map (\<lambda>k. map satellite_read_of (?p k)) [0..<m]) =
        map satellite_read_of (concat (map ?p [0..<m]))"
      by (simp add: map_concat comp_def)
    also have "concat (map ?p [0..<m]) = ?xs"
      unfolding pages_concat using assms(3) by simp
    finally show ?thesis .
  qed
  moreover have "get_satellites (Some l) (Some n) d =
      Failure 422 \<lparr>detail = ''Validation error'', err_code = ''validation_error''\<rparr>" if "l < 1 \<or> 100 < l \<or> n < 0" for l n
    using that by (auto simp: get_satellites_def respond_def exception_response_def Let_def)
  ultimately show ?thesis
    by (intro exI[of _ "\<lambda>k. map satellite_read_of (?p k)"]) blast
qed

lemma satellite_pages_cover_witness:
  "\<exists>pages. concat (map pages [0..<1]) = map satellite_read_of (sort_key sat_id (satellites sample_db)) \<and>
     get_satellites (Some 50) (Some 0) sample_db =
       Success 200 \<lparr>sl_items = pages 0, sl_total = 1, sl_limit = 50, sl_offset = 0\<rparr>"
proof -
  have "length (satellites sample_db) = 1" by (simp add: sample_db_def)
  then show ?thesis using satellite_pages_cover[of 50 sample_db 1] by fastforce
qed

end
