(* ===== verification/Lifecycle.thy ===== *)
theory Lifecycle
  imports Config
begin

text \<open>
  The life of the process: the application object (\<open>app/main.py\<close>: its CORS middleware and the
  \<open>lifespan\<close>), the checks at startup (\<open>app/core/startup.py\<close>), the engine's options (\<open>app/core/db.py\<close>),
  \<open>start\<close> and \<open>stop\<close> of the two workers (\<open>app/core/jobs/worker.py\<close>, \<open>app/core/events/worker.py\<close>) and
  the health endpoints (\<open>app/api/v1/health.py\<close>). The tasks of the event loop are a list in order of
  creation, and a worker refers to its task by position. What the workers' loops do is in the
  theories \<open>Jobs\<close> and \<open>Outbox\<close>.
\<close>

subsection \<open>The application object\<close>

record cors_middleware =
  allow_origins :: "string list"
  allow_methods :: "string list"
  allow_headers :: "string list"

record application =
  title :: string
  version :: string
  middleware :: "cors_middleware option"

definition build_app :: "settings \<Rightarrow> application" where
  "build_app cfg = \<lparr>title = APP_NAME cfg, version = APP_VERSION cfg,
     middleware = (if cors_origins cfg \<noteq> []
       then Some \<lparr>allow_origins = cors_origins cfg, allow_methods = [''GET''], allow_headers = [''*'']\<rparr>
       else None)\<rparr>"

record engine_options =
  engine_url :: string
  pool_size :: int
  max_overflow :: int
  pool_timeout :: int
  pool_recycle :: int
  pool_pre_ping :: bool

definition create_engine :: "settings \<Rightarrow> engine_options" where
  "create_engine cfg = \<lparr>engine_url = DATABASE_URL cfg, pool_size = DB_POOL_SIZE cfg,
     max_overflow = DB_MAX_OVERFLOW cfg, pool_timeout = DB_POOL_TIMEOUT cfg,
     pool_recycle = DB_POOL_RECYCLE cfg, pool_pre_ping = True\<rparr>"

subsection \<open>The checks at startup\<close>

text \<open>\<open>tzname\<close> is \<open>time.tzname\<close>, \<open>tz_env\<close> the environment variable TZ.\<close>

definition check_utc_timezone :: "settings \<Rightarrow> string \<times> string \<Rightarrow> string option \<Rightarrow> unit result" where
  "check_utc_timezone cfg tzname tz_env =
     (let local_tz = upper (fst tzname);
          env_tz = (case tz_env of None \<Rightarrow> [] | Some s \<Rightarrow> upper s);
          utc_variants = [''UTC'', ''GMT'', ''UCT'', ''UNIVERSAL'', []];
          is_utc = (local_tz \<in> set utc_variants \<or> env_tz = ''UTC'')
      in if is_utc then Inr ()
         else if ENVIRONMENT cfg = ''prod''
         then Inl (RuntimeError (''Process timezone is not UTC (tzname=('' @ py_repr (fst tzname) @ '', '' @
                py_repr (snd tzname) @ ''), TZ='' @ env_tz @ ''). Set TZ=UTC in the deploy environment.''))
         else Inr ())"

text \<open>\<open>check_database\<close>: the connection attempt ends normally or with an exception.\<close>

definition check_database :: "exc option \<Rightarrow> string result" where
  "check_database probe =
     (case probe of
        None \<Rightarrow> Inr ''OK''
      | Some e \<Rightarrow> if is_Exception e then Inr ''UNAVAILABLE'' else Inl e)"

subsection \<open>A worker and its task\<close>

record task =
  task_name :: string
  task_done :: bool

record worker =
  wk_task :: "nat option"
  shutdown_set :: bool

definition new_worker :: worker where
  "new_worker = \<lparr>wk_task = None, shutdown_set = False\<rparr>"

text \<open>The name under which a job worker claims jobs: \<open>f"{socket.gethostname()}:{os.getpid()}"\<close>.\<close>

definition worker_id :: "string \<Rightarrow> nat \<Rightarrow> string" where
  "worker_id hostname pid = hostname @ '':'' @ nat_digits pid"

definition start_worker :: "string \<Rightarrow> worker \<times> task list \<Rightarrow> worker \<times> task list" where
  "start_worker name st =
     (let (wk, tasks) = st
      in (wk\<lparr>shutdown_set := False, wk_task := Some (length tasks)\<rparr>,
          tasks @ [\<lparr>task_name = name, task_done = False\<rparr>]))"

text \<open>\<open>finish_task i\<close>: the task at position \<open>i\<close> has ended.\<close>

definition finish_task :: "nat \<Rightarrow> task list \<Rightarrow> task list" where
  "finish_task i tasks = (if i < length tasks then tasks[i := (tasks ! i)\<lparr>task_done := True\<rparr>] else tasks)"

text \<open>
  \<open>stop\<close>: set the event, cancel a task that is not done and wait for it. \<open>ending\<close> is what the
  cancelled task ends with; \<open>contextlib.suppress(asyncio.CancelledError)\<close> lets anything else pass.
\<close>

definition stop_worker :: "exc option \<Rightarrow> worker \<times> task list \<Rightarrow> exc option \<times> worker \<times> task list" where
  "stop_worker ending st =
     (let (wk, tasks) = st; wk' = wk\<lparr>shutdown_set := True\<rparr>
      in case wk_task wk of
           None \<Rightarrow> (None, wk', tasks)
         | Some i \<Rightarrow>
             if task_done (tasks ! i) then (None, wk', tasks)
             else (if ending = Some CancelledError then None else ending, wk', finish_task i tasks))"

subsection \<open>The lifespan\<close>

text \<open>\<open>app.state\<close> (without \<open>ready\<close> before the startup), the tasks of the loop and the engine.\<close>

record app =
  state_ready :: "bool option"
  outbox_worker :: worker
  job_worker :: worker
  loop_tasks :: "task list"
  engine_disposed :: bool

definition lifespan_startup ::
  "settings \<Rightarrow> string \<times> string \<Rightarrow> string option \<Rightarrow> exc option \<Rightarrow> task list \<Rightarrow> app result" where
  "lifespan_startup cfg tzname tz_env probe tasks =
     rbind (check_utc_timezone cfg tzname tz_env) (\<lambda>_.
     rbind (check_database probe) (\<lambda>db_status.
       let is_ready = (db_status = ''OK'');
           (ow, tasks1) = (if is_ready then start_worker ''outbox-worker'' (new_worker, tasks) else (new_worker, tasks));
           (jw, tasks2) = (if is_ready then start_worker ''job-worker'' (new_worker, tasks1) else (new_worker, tasks1))
       in Inr \<lparr>state_ready = Some is_ready, outbox_worker = ow, job_worker = jw, loop_tasks = tasks2,
               engine_disposed = False\<rparr>))"

definition lifespan_shutdown :: "exc option \<Rightarrow> exc option \<Rightarrow> app \<Rightarrow> exc option \<times> app" where
  "lifespan_shutdown job_ending outbox_ending a =
     (case stop_worker job_ending (job_worker a, loop_tasks a) of
        (Some e, jw, ts) \<Rightarrow> (Some e, a\<lparr>job_worker := jw, loop_tasks := ts\<rparr>)
      | (None, jw, ts) \<Rightarrow>
          (case stop_worker outbox_ending (outbox_worker a, ts) of
             (Some e, ow, ts') \<Rightarrow> (Some e, a\<lparr>job_worker := jw, outbox_worker := ow, loop_tasks := ts'\<rparr>)
           | (None, ow, ts') \<Rightarrow>
               (None, a\<lparr>job_worker := jw, outbox_worker := ow, loop_tasks := ts', state_ready := Some False,
                        engine_disposed := True\<rparr>)))"

subsection \<open>Health\<close>

definition liveness :: "(int \<times> string)" where
  "liveness = (200, ''alive'')"

text \<open>\<open>readiness\<close>: \<open>ready\<close> is \<open>app.state.ready\<close>, if it has been set; \<open>probe\<close> is the outcome of the query.\<close>

definition readiness :: "bool option \<Rightarrow> exc option \<Rightarrow> (int \<times> string) result" where
  "readiness ready probe =
     (if \<not> (case ready of None \<Rightarrow> False | Some b \<Rightarrow> b) then Inr (503, ''not ready'')
      else (case probe of
              Some e \<Rightarrow> if is_Exception e then Inr (503, ''database unavailable'') else Inl e
            | None \<Rightarrow> Inr (200, ''ready'')))"

subsection \<open>Lemmas\<close>

text \<open>The names of the tasks that have not ended.\<close>

definition live :: "task list \<Rightarrow> string list" where
  "live tasks = map task_name (filter (\<lambda>t. \<not> task_done t) tasks)"

lemma length_finish [simp]: "length (finish_task i tasks) = length tasks"
  by (simp add: finish_task_def)

lemma length_finish_all [simp]: "length (fold finish_task is tasks) = length tasks"
  by (induction "is" arbitrary: tasks) simp_all

lemma finish_task_nth:
  "j < length tasks \<Longrightarrow> finish_task i tasks ! j = (if i = j then (tasks ! j)\<lparr>task_done := True\<rparr> else tasks ! j)"
  by (simp add: finish_task_def nth_list_update)

text \<open>After \<open>stop\<close> the worker's task has ended, whatever the cancelled task ends with.\<close>

lemma stop_worker_done:
  assumes "stop_worker ending (wk, tasks) = (r, wk', tasks')" and "wk_task wk = Some i" and "i < length tasks"
  shows "task_done (tasks' ! i)" "length tasks' = length tasks"
    "j < length tasks \<Longrightarrow> j \<noteq> i \<Longrightarrow> tasks' ! j = tasks ! j" "shutdown_set wk'"
    "ending = None \<or> ending = Some CancelledError \<Longrightarrow> r = None" "task_done (tasks ! i) \<Longrightarrow> r = None"
  using assms by (auto simp: stop_worker_def Let_def finish_task_nth split: if_splits)

lemma stop_worker_idle:
  "wk_task wk = None \<Longrightarrow> stop_worker ending (wk, tasks) = (None, wk\<lparr>shutdown_set := True\<rparr>, tasks)"
  by (simp add: stop_worker_def)

lemma startup_Inr:
  assumes "lifespan_startup cfg tzname tz_env probe [] = Inr a"
  shows "state_ready a = Some (probe = None)" "\<not> engine_disposed a"
    "probe = None \<Longrightarrow> wk_task (outbox_worker a) = Some 0 \<and> wk_task (job_worker a) = Some 1 \<and>
       loop_tasks a = [\<lparr>task_name = ''outbox-worker'', task_done = False\<rparr>, \<lparr>task_name = ''job-worker'', task_done = False\<rparr>]"
    "probe \<noteq> None \<Longrightarrow> wk_task (outbox_worker a) = None \<and> wk_task (job_worker a) = None \<and> loop_tasks a = []"
  using assms
  by (auto simp: lifespan_startup_def rbind_eq_Inr check_database_def start_worker_def new_worker_def
      split: option.splits if_splits)

lemma live_none: "(\<And>i. i < length ts \<Longrightarrow> task_done (ts ! i)) \<Longrightarrow> live ts = []"
  by (auto simp: live_def filter_empty_conv in_set_conv_nth)

lemma split_on_from_join:
  assumes "sep \<notin> set s" and "\<forall>t \<in> set ts. sep \<notin> set t"
  shows "split_on_from sep acc (join [sep] (s # ts)) = (rev acc @ s) # ts"
  using assms
proof (induction ts arbitrary: s acc)
  case Nil
  have "split_on_from sep acc s = [rev acc @ s]" using Nil.prems(1)
    by (induction s arbitrary: acc) auto
  then show ?case by simp
next
  case (Cons t ts)
  have "split_on_from sep acc (s @ sep # rest) = (rev acc @ s) # split_on_from sep [] rest" for rest
    using Cons.prems(1) by (induction s arbitrary: acc) auto
  then show ?case using Cons.IH[of t "[]"] Cons.prems(2) by simp
qed

lemma worker_id_injective:
  assumes "worker_id host pid = worker_id host' pid'"
  shows "host = host' \<and> pid = pid'"
proof -
  have digits: "CHR '':'' \<notin> set (nat_digits n)" for n
    using nat_digits_digits[of n] not_is_digit(4) by blast
  have "takeWhile (\<lambda>c. c \<noteq> CHR '':'') (rev (worker_id h p)) = rev (nat_digits p)" for h p
    using digits[of p] by (simp add: worker_id_def takeWhile_append)
  then have "nat_digits pid = nat_digits pid'" using assms by (metis rev_rev_ident)
  moreover from this have "host = host'" using assms by (simp add: worker_id_def)
  ultimately show ?thesis using nat_digits_value by metis
qed

subsection \<open>Properties\<close>

text \<open>Startup and health. The application starts unless the process is in production and not in UTC
  (then with a \<open>RuntimeError\<close>) or the database probe is cancelled. Once it has started, readiness is 200
  exactly when the database answered at startup and answers the probe, and 503 for every other
  outcome of a probe that is not cancelled; before the startup it is always 503.\<close>

theorem startup_and_readiness:
  "((\<exists>m. lifespan_startup cfg tzname tz_env probe tasks = Inl (RuntimeError m)) \<longleftrightarrow>
      ENVIRONMENT cfg = ''prod'' \<and> upper (fst tzname) \<notin> {''UTC'', ''GMT'', ''UCT'', ''UNIVERSAL'', []} \<and>
      map_option upper tz_env \<noteq> Some ''UTC'') \<and>
   (case lifespan_startup cfg tzname tz_env probe tasks of
      Inl e \<Rightarrow> (\<exists>m. e = RuntimeError m) \<or> e = CancelledError
    | Inr a \<Rightarrow> (\<forall>p. readiness (state_ready a) p =
        (if probe = None \<and> p = None then Inr (200, ''ready'')
         else if probe = None \<and> p = Some CancelledError then Inl CancelledError
         else if probe = None then Inr (503, ''database unavailable'')
         else Inr (503, ''not ready'')))) \<and>
   (\<forall>p. readiness None p = Inr (503, ''not ready''))"
  by (auto simp: lifespan_startup_def check_utc_timezone_def check_database_def readiness_def is_Exception_def
      Let_def split: option.splits if_splits prod.splits)

text \<open>C38. No worker outlives the application. When the database answers, the startup leaves exactly one
  task per worker running, and none else. Tasks may have ended by themselves when the shutdown comes.
  If the tasks it cancels end by their cancellation or normally, the shutdown ends normally with no
  task running, both shutdown events set, the engine disposed of, and readiness at 503; if one ends
  with another exception, that exception leaves the shutdown with the engine not disposed of.\<close>

theorem lifespan_balanced:
  assumes "lifespan_startup cfg tzname tz_env probe [] = Inr a"
    and "lifespan_shutdown job_ending outbox_ending (a\<lparr>loop_tasks := fold finish_task ended (loop_tasks a)\<rparr>) = (r, a')"
  shows "live (loop_tasks a) = (if probe = None then [''outbox-worker'', ''job-worker''] else []) \<and>
    (case r of
       None \<Rightarrow> live (loop_tasks a') = [] \<and> shutdown_set (job_worker a') \<and> shutdown_set (outbox_worker a') \<and>
         engine_disposed a' \<and> state_ready a' = Some False
     | Some e \<Rightarrow> r \<in> {job_ending, outbox_ending} \<and> e \<noteq> CancelledError \<and> \<not> engine_disposed a')"
proof (cases "probe = None")
  case False
  then have "wk_task (outbox_worker a) = None" "wk_task (job_worker a) = None" "loop_tasks a = []"
    using startup_Inr(4)[OF assms(1)] by simp_all
  moreover have "fold finish_task ended [] = []" using length_finish_all[of ended "[]"] by (simp del: length_finish_all)
  ultimately show ?thesis using False assms(2) by (auto simp: lifespan_shutdown_def stop_worker_idle live_def)
next
  case True
  note st = startup_Inr(2)[OF assms(1)] startup_Inr(3)[OF assms(1) True]
  let ?ts = "fold finish_task ended (loop_tasks a)"
  have len: "length ?ts = 2" using st(2) by simp
  obtain r1 jw ts1 where job: "stop_worker job_ending (job_worker a, ?ts) = (r1, jw, ts1)"
    by (metis prod_cases3)
  note j = stop_worker_done[OF job, of 1]
  have r1: "r1 \<in> {None, job_ending}" "r1 \<noteq> Some CancelledError"
    using job by (auto simp: stop_worker_def Let_def split: option.splits if_splits)
  show ?thesis
  proof (cases r1)
    case (Some e)
    then have "r = Some e" "\<not> engine_disposed a'"
      using assms(2) job st(1) by (auto simp: lifespan_shutdown_def)
    then show ?thesis using Some r1 True st(2) by (auto simp: live_def)
  next
    case None
    obtain r2 ow ts2 where out: "stop_worker outbox_ending (outbox_worker a, ts1) = (r2, ow, ts2)"
      by (metis prod_cases3)
    note o = stop_worker_done[OF out, of 0]
    have r2: "r2 \<in> {None, outbox_ending}" "r2 \<noteq> Some CancelledError"
      using out by (auto simp: stop_worker_def Let_def split: option.splits if_splits)
    have len2: "length ts1 = 2" "length ts2 = 2" using j(2) o(2) len st(2) by simp_all
    have "task_done (ts2 ! 0)" "task_done (ts2 ! 1)"
      using o(1) o(3)[of 1] j(1) len len2 st(2) by simp_all
    then have "live ts2 = []" using len2 by (intro live_none) (auto simp: less_2_cases_iff)
    then show ?thesis
      using assms(2) job out None r2 True st j(4) o(4) len len2
      by (cases r2) (auto simp: lifespan_shutdown_def live_def)
  qed
qed

lemma lifespan_balanced_witness:
  "\<exists>a. lifespan_startup default_settings (''UTC'', ''UTC'') None None [] = Inr a \<and>
     live (loop_tasks a) = [''outbox-worker'', ''job-worker'']"
proof -
  obtain a where a: "lifespan_startup default_settings (''UTC'', ''UTC'') None None [] = Inr a"
    by (simp add: lifespan_startup_def check_utc_timezone_def check_database_def upper_def char_code_def Let_def
        start_worker_def)
  obtain r a' where "lifespan_shutdown (Some CancelledError) None (a\<lparr>loop_tasks := fold finish_task [1] (loop_tasks a)\<rparr>) = (r, a')"
    by fastforce
  from lifespan_balanced[OF a this] a show ?thesis by simp
qed

text \<open>The CORS setting. Origins joined with commas are read back exactly, when each is trimmed, not
  empty and without a comma; the middleware is installed exactly when there is one, allows these
  origins and the method GET only; and whatever the setting, no allowed origin is empty or padded.\<close>

theorem cors_origins_exact:
  assumes "\<forall>t \<in> set origins. t \<noteq> [] \<and> strip t = t \<and> CHR '','' \<notin> set t"
  shows "middleware (build_app (cfg\<lparr>CORS_ORIGINS := join '','' origins\<rparr>)) =
      (if origins = [] then None
       else Some \<lparr>allow_origins = origins, allow_methods = [''GET''], allow_headers = [''*'']\<rparr>) \<and>
    list_all (\<lambda>t. t \<noteq> [] \<and> strip t = t) (cors_origins cfg')"
proof -
  have "cors_origins (cfg\<lparr>CORS_ORIGINS := join '','' origins\<rparr>) = origins"
  proof (cases origins)
    case Nil
    then show ?thesis by (simp add: cors_origins_def split_on_def strip_def lstrip_def rstrip_def)
  next
    case (Cons t ts)
    have "split_on (CHR '','') (join '','' origins) = origins"
      using split_on_from_join[of "CHR '',''" t ts "[]"] assms by (simp add: Cons split_on_def)
    moreover have "[strip p. p \<leftarrow> ts', strip p \<noteq> []] = ts'" if "\<forall>t \<in> set ts'. t \<noteq> [] \<and> strip t = t" for ts'
      using that by (induction ts') auto
    ultimately show ?thesis using assms by (simp add: cors_origins_def)
  qed
  moreover have "list_all (\<lambda>t. t \<noteq> [] \<and> strip t = t) (cors_origins cfg')"
    by (auto simp: cors_origins_def list_all_iff strip_idem)
  ultimately show ?thesis by (auto simp: build_app_def)
qed

end
