(* ===== verification/Http.thy ===== *)
theory Http
  imports Api Lifecycle
begin

text \<open>
  The HTTP interface as a whole: the routes as the routers declare them (\<open>app/api/v1/__init__.py\<close>,
  \<open>health.py\<close>, \<open>app/tracking/api\<close>) and the handling of a request that FastAPI has matched to its
  endpoint, with the fields it has read. The endpoints are those of the theories \<open>Api\<close> and \<open>Lifecycle\<close>.
\<close>

subsection \<open>Routes\<close>

datatype endpoint =
    Liveness
  | Readiness
  | Satellite_list
  | Station_registration
  | Station_list
  | Station_passes

text \<open>The last component is the declared status of a success, 200 unless the decorator gives another.\<close>

record route =
  rt_method :: string
  rt_path :: string
  rt_endpoint :: endpoint
  rt_status :: int

definition route :: "string \<Rightarrow> string \<Rightarrow> endpoint \<Rightarrow> int \<Rightarrow> route" where
  "route method path ep status = \<lparr>rt_method = method, rt_path = path, rt_endpoint = ep, rt_status = status\<rparr>"

text \<open>\<open>APIRouter(prefix=\<dots>)\<close> and \<open>include_router\<close>: the prefix is put before the paths.\<close>

definition with_prefix :: "string \<Rightarrow> route list \<Rightarrow> route list" where
  "with_prefix prefix routes = map (\<lambda>r. r\<lparr>rt_path := prefix @ rt_path r\<rparr>) routes"

definition health_router :: "route list" where
  "health_router = [
     route ''GET'' ''/health/liveness'' Liveness 200,
     route ''GET'' ''/health/readiness'' Readiness 200]"

definition satellites_router :: "route list" where
  "satellites_router = with_prefix ''/satellites'' [route ''GET'' [] Satellite_list 200]"

definition ground_stations_router :: "route list" where
  "ground_stations_router = with_prefix ''/ground-stations'' [
     route ''POST'' [] Station_registration 201,
     route ''GET'' [] Station_list 200,
     route ''GET'' ''/{ground_station_id}/passes'' Station_passes 200]"

definition v1_router :: "route list" where
  "v1_router = with_prefix ''/v1'' (health_router @ satellites_router @ ground_stations_router)"

subsection \<open>Requests\<close>

text \<open>A request with the fields of its endpoint; for the readiness probe, the outcome of its query.\<close>

datatype request =
    Liveness_request
  | Readiness_request "exc option"
  | Satellites_request "int option" "int option"
  | Register_request ground_station_create
  | Stations_request
  | Passes_request uuid "py_datetime option"

fun endpoint_of :: "request \<Rightarrow> endpoint" where
  "endpoint_of Liveness_request = Liveness"
| "endpoint_of (Readiness_request _) = Readiness"
| "endpoint_of (Satellites_request _ _) = Satellite_list"
| "endpoint_of (Register_request _) = Station_registration"
| "endpoint_of Stations_request = Station_list"
| "endpoint_of (Passes_request _ _) = Station_passes"

text \<open>The body of an endpoint's own answer.\<close>

datatype answer =
    Status_answer string
  | Satellites_answer satellite_list
  | Station_answer ground_station_read
  | Stations_answer ground_station_list
  | Passes_answer pass_list

text \<open>
  The answer and the committed tables. \<open>now\<close> is the time of the request, \<open>is_ready\<close> is \<open>app.state.ready\<close>.
  The health endpoints answer with a status of their own.
\<close>

fun handle_request ::
  "(uuid list \<Rightarrow> uuid) \<Rightarrow> datetime \<Rightarrow> ('g, 'w) shapely \<Rightarrow> (string \<Rightarrow> real) \<Rightarrow> bool option \<Rightarrow> request \<Rightarrow>
   'w db \<Rightarrow> answer response \<times> 'w db" where
  "handle_request gen now lib collate is_ready Liveness_request d =
     (let (status, s) = liveness in (Success status (Status_answer s), d))"
| "handle_request gen now lib collate is_ready (Readiness_request probe) d =
     (case readiness is_ready probe of
        Inr (status, s) \<Rightarrow> (Success status (Status_answer s), d)
      | Inl _ \<Rightarrow> (Internal_error, d))"
| "handle_request gen now lib collate is_ready (Satellites_request limit_q offset_q) d =
     (map_response Satellites_answer (get_satellites limit_q offset_q d), d)"
| "handle_request gen now lib collate is_ready (Register_request body) d =
     (let (r, d') = post_ground_station gen now lib body d in (map_response Station_answer r, d'))"
| "handle_request gen now lib collate is_ready Stations_request d =
     (map_response Stations_answer (get_ground_stations lib collate d), d)"
| "handle_request gen now lib collate is_ready (Passes_request stid after) d =
     (map_response Passes_answer (get_station_passes lib collate now stid after d), d)"

subsection \<open>Lemmas\<close>

lemmas router_defs = v1_router_def with_prefix_def health_router_def satellites_router_def
  ground_stations_router_def route_def

lemma v1_paths:
  "map (\<lambda>r. (rt_method r, rt_path r, rt_endpoint r, rt_status r)) v1_router = [
     (''GET'', ''/v1/health/liveness'', Liveness, 200),
     (''GET'', ''/v1/health/readiness'', Readiness, 200),
     (''GET'', ''/v1/satellites'', Satellite_list, 200),
     (''POST'', ''/v1/ground-stations'', Station_registration, 201),
     (''GET'', ''/v1/ground-stations'', Station_list, 200),
     (''GET'', ''/v1/ground-stations/{ground_station_id}/passes'', Station_passes, 200)]"
  by (simp add: router_defs)

text \<open>What the endpoints that only read can answer.\<close>

lemma readiness_answers:
  "readiness is_ready probe \<in> {Inr (200, ''ready''), Inr (503, ''not ready''), Inr (503, ''database unavailable'')} \<or>
   probe = Some CancelledError \<and> readiness is_ready probe = Inl CancelledError"
  by (auto simp: readiness_def is_Exception_def split: option.splits)

lemma get_satellites_answers:
  obtains x where "get_satellites l n d = Success 200 x" | b where "get_satellites l n d = Failure 422 b"
proof -
  let ?limit = "case l of None \<Rightarrow> 50 | Some l \<Rightarrow> l" and ?offset = "case n of None \<Rightarrow> 0 | Some n \<Rightarrow> n"
  show ?thesis
  proof (cases "1 \<le> ?limit \<and> ?limit \<le> 100 \<and> 0 \<le> ?offset")
    case True
    then show ?thesis
      using that(1)
      by (cases "list_satellites (nat ?limit) (nat ?offset) d") (simp add: get_satellites_def respond_def Let_def)
  next
    case False
    then have "get_satellites l n d = respond 200 (Inl RequestValidationError)"
      by (simp add: get_satellites_def Let_def)
    then show ?thesis using that(2) by (simp add: respond_def exception_response_def)
  qed
qed

lemma get_station_passes_answers:
  assumes "db_ok d" and "shapely_ok lib" and "tracks_ok lib d"
  obtains x where "get_station_passes lib collate now stid after d = Success 200 x"
  | b where "get_station_passes lib collate now stid after d = Failure 404 b"
proof -
  let ?start = "case after of None \<Rightarrow> now | Some t \<Rightarrow> instant_us t"
  show ?thesis
    using station_passes_result[OF assms, of stid collate ?start] that
    by (auto simp: get_station_passes_def respond_def exception_response_def Let_def split: if_splits)
qed

text \<open>A registration whose id is new or not: it commits one station, or nothing.\<close>

lemma post_commits:
  assumes "post_ground_station gen now lib body d = (resp, d')"
  shows "d' = d \<or> (\<exists>station. d' = d\<lparr>stations := stations d @ [station]\<rparr> \<and> st_created_at station = now \<and>
    station_violation station (stations d) = None)"
  using assms
  by (auto simp: post_ground_station_def with_session_def register_ground_station_def repo_create_def rbind_eq_Inr
      split: if_splits sum.splits option.splits)

lemma db_ok_post:
  assumes "db_ok d" and "station_violation station (stations d) = None"
  shows "db_ok (d\<lparr>stations := stations d @ [station]\<rparr>)"
proof -
  have "repo_create station_violation station (stations d) = Inr (station, stations d @ [station])"
    using assms(2) by (simp add: repo_create_def)
  then have "stations_ok (stations d @ [station])"
    using station_table.create_ok[OF db_okD(2)[OF assms(1)]] by blast
  moreover have "predictions_ok (satellites d) (stations d @ [station]) (predictions d)"
    by (rule predictions_ok_more[OF db_okD(3)[OF assms(1)]]) auto
  ultimately show ?thesis using assms(1) by (simp add: db_ok_def)
qed

lemma post_changes: "d\<lparr>stations := stations d @ [station]\<rparr> \<noteq> d"
  by (cases d) simp

lemma request_commits:
  assumes "handle_request gen now lib collate is_ready req d = (resp, d')"
  shows "d' = d \<or> (\<exists>station. d' = d\<lparr>stations := stations d @ [station]\<rparr> \<and> st_created_at station = now \<and>
    station_violation station (stations d) = None)"
  using assms by (cases req) (auto dest: post_commits split: prod.splits sum.splits)

subsection \<open>Properties\<close>



end
