(* ===== verification/Service.thy ===== *)
theory Service
  imports Flights Http
begin

text \<open>
  The whole service as a transition system: the clock, the table \<open>scheduled_jobs\<close>, the other tables and
  the sessions of the outbox workers under way (\<open>flight\<close>). Requests, polls of job workers and the
  single steps of outbox workers (claim an event, one station, commit and settle) interleave in any
  order, each with any clock readings, feeds, ids and failures. Handlers may be cut off by
  \<open>asyncio.wait_for\<close> or a shutdown before or after their commit, and the outcome of an attempt may be
  lost. The invariant says what the stored predictions are worth at any time with one outbox worker;
  with two, the theorem \<open>two_workers_leave_stale_passes\<close> shows what can go wrong.
\<close>

record 'w service =
  sv_now :: datetime
  sv_jobs :: "job list"
  sv_db :: "'w db"
  sv_flights :: "string \<Rightarrow> 'w flight option"

text \<open>
  A handler under \<open>asyncio.wait_for\<close> (\<open>TimeoutError\<close>) or cancelled by the shutdown (\<open>CancelledError\<close>): \<open>intr\<close> is the
  exception it is cut off with, if it is, and whether its commit had been made by then.
\<close>

definition cut_off :: "(exc \<times> bool) option \<Rightarrow> 'w job_handler \<Rightarrow> 'w job_handler" where
  "cut_off intr h w = (case intr of None \<Rightarrow> h w | Some (e, committed) \<Rightarrow> (Some e, if committed then snd (h w) else w))"

definition service_jobs ::
  "(exc \<times> bool) option \<Rightarrow> settings \<Rightarrow> (uuid list \<Rightarrow> uuid) \<Rightarrow> datetime \<Rightarrow> ('s, 'o, 't) skyfield \<Rightarrow>
   (string \<Rightarrow> tle_record list result) \<Rightarrow> 'w db job_registry" where
  "service_jobs intr cfg gen tnow sky fetch =
     map (\<lambda>(name, h). (name, cut_off intr h)) (app_jobs cfg gen tnow sky fetch)"

text \<open>
  The registered handler (\<open>app_dispatcher\<close>), its session having ended with an exception or none and with
  these tables committed.
\<close>

definition flight_dispatcher :: "exc option \<times> 'w db \<Rightarrow> 'w db event_dispatcher" where
  "flight_dispatcher ending = register_handler ''tle.refreshed'' (''recompute_passes'', \<lambda>_ _. ending) []"

text \<open>Ids are UUIDs: numbers of 128 bits.\<close>

definition uuid_gen :: "(uuid list \<Rightarrow> uuid) \<Rightarrow> bool" where
  "uuid_gen gen \<longleftrightarrow> (\<forall>ids. gen ids < 2 ^ 128)"

text \<open>
  The steps, for the outbox workers \<open>workers\<close>. A worker without a session claims the next event that no
  other holds (the row stays locked until its transaction ends) and begins; it then does one station at
  a time. The session ends with its commit once all stations are done, or it is cut off at any point, an
  exception of a station's step included; the worker stores the outcome (\<open>settle\<close>), or fails to
  (\<open>lost\<close>: an exception that leaves \<open>_handle_event\<close>, a crash, a lost connection).
\<close>

inductive service_step ::
  "settings \<Rightarrow> (exc \<Rightarrow> string) \<Rightarrow> ('s, 'o, 't) skyfield \<Rightarrow> ('g, 'w) shapely \<Rightarrow> (string \<Rightarrow> real) \<Rightarrow> string set \<Rightarrow>
   'w service \<Rightarrow> 'w service \<Rightarrow> bool"
  for cfg tb sky lib collate workers where
  tick: "sv_now s \<le> t \<Longrightarrow> service_step cfg tb sky lib collate workers s (s\<lparr>sv_now := t\<rparr>)"
| request: "handle_request gen (sv_now s) lib collate is_ready req (sv_db s) = (resp, d) \<Longrightarrow>
    service_step cfg tb sky lib collate workers s (s\<lparr>sv_db := d\<rparr>)"
| poll: "uuid_gen gen \<Longrightarrow>
    worker_cycle cfg tb (service_jobs intr cfg gen tnow sky fetch) wid p (sv_jobs s, sv_db s) = (r, jobs, d) \<Longrightarrow>
    service_step cfg tb sky lib collate workers s (s\<lparr>sv_jobs := jobs, sv_db := d\<rparr>)"
| claim: "w \<in> workers \<Longrightarrow> sv_flights s w = None \<Longrightarrow>
    \<forall>f \<in> ran (sv_flights s). ev_id (fl_event f) \<in> set (rd_locked rd) \<Longrightarrow>
    next_event rd (events (sv_db s)) = Some ev \<Longrightarrow>
    service_step cfg tb sky lib collate workers s
      (s\<lparr>sv_flights := (sv_flights s)(w \<mapsto> begin_flight collate ev (sv_now s) (sv_db s))\<rparr>)"
| station: "sv_flights s w = Some f \<Longrightarrow> fl_todo f = station # rest \<Longrightarrow>
    flight_station cfg gen tnow sky lib station (sv_db s) f = Inr f' \<Longrightarrow>
    service_step cfg tb sky lib collate workers s (s\<lparr>sv_flights := (sv_flights s)(w \<mapsto> f')\<rparr>)"
| settle: "sv_flights s w = Some f \<Longrightarrow> fl_todo f = [] \<or> (\<exists>e. intr = Some (e, False)) \<Longrightarrow>
    handle_event tb (flight_dispatcher (cut_off intr (commit_flight f) (sv_db s))) rd (fl_event f) (sv_db s) = (Inr ev', d) \<Longrightarrow>
    service_step cfg tb sky lib collate workers s
      (s\<lparr>sv_db := d\<lparr>events := store_event ev' (events d)\<rparr>, sv_flights := (sv_flights s)(w := None)\<rparr>)"
| lost: "sv_flights s w = Some f \<Longrightarrow> fl_todo f = [] \<or> (\<exists>e. intr = Some (e, False)) \<Longrightarrow>
    handle_event tb (flight_dispatcher (cut_off intr (commit_flight f) (sv_db s))) rd (fl_event f) (sv_db s) = (r, d) \<Longrightarrow>
    service_step cfg tb sky lib collate workers s (s\<lparr>sv_db := d, sv_flights := (sv_flights s)(w := None)\<rparr>)"

text \<open>At first the migration has run, the tables are empty but for the seeded job, and no session is under way.\<close>

definition service_start :: "'w service \<Rightarrow> bool" where
  "service_start s \<longleftrightarrow>
     (\<exists>gen now pg. fold_r (run_operation gen now) upgrade empty_pg = Inr pg \<and> sv_jobs s = pg_jobs pg) \<and>
     satellites (sv_db s) = [] \<and> stations (sv_db s) = [] \<and> predictions (sv_db s) = [] \<and> events (sv_db s) = [] \<and>
     (\<forall>w. sv_flights s w = None)"

subsection \<open>The invariant\<close>

definition concerns :: "event \<Rightarrow> satellite \<Rightarrow> bool" where
  "concerns ev s \<longleftrightarrow> payload_satellite_id (ev_payload ev) = Inr (sat_id s)"

text \<open>An event has the one registered type, its satellite exists, and it is pending only if its handler has not succeeded.\<close>

definition event_consistent :: "'w db \<Rightarrow> event \<Rightarrow> bool" where
  "event_consistent d ev \<longleftrightarrow> event_type ev = ''tle.refreshed'' \<and> (\<exists>s \<in> set (satellites d). concerns ev s) \<and>
     (ev_status ev = PENDING \<longrightarrow> ''recompute_passes'' \<notin> completed_of (handler_state ev))"

text \<open>
  The predictions of a satellite as of \<open>t0\<close>: for every station the passes of the stored TLE over the
  horizon from \<open>t0\<close>, or none for a station registered since.
\<close>

definition current_at ::
  "settings \<Rightarrow> ('s, 'o, 't) skyfield \<Rightarrow> ('g, 'w) shapely \<Rightarrow> datetime \<Rightarrow> 'w db \<Rightarrow> satellite \<Rightarrow> bool" where
  "current_at cfg sky lib t0 d s \<longleftrightarrow> (\<forall>station \<in> set (stations d).
     (\<exists>passes. passes_for sky lib (horizon_window cfg t0) 10 24 s station = Inr passes \<and>
        pair_content d (sat_id s) (st_id station) = map (stored_pass lib) passes) \<or>
     t0 \<le> st_created_at station \<and> pair_content d (sat_id s) (st_id station) = [])"

text \<open>The satellite's events, the latest last; once the latest is processed, the predictions are current.\<close>

definition events_of :: "'w db \<Rightarrow> satellite \<Rightarrow> event list" where
  "events_of d s = filter (\<lambda>ev. concerns ev s) (events d)"

definition tracked ::
  "settings \<Rightarrow> ('s, 'o, 't) skyfield \<Rightarrow> ('g, 'w) shapely \<Rightarrow> datetime \<Rightarrow> 'w db \<Rightarrow> satellite \<Rightarrow> bool" where
  "tracked cfg sky lib now d s \<longleftrightarrow> events_of d s \<noteq> [] \<and>
     (ev_status (last (events_of d s)) = PROCESSED \<longrightarrow> (\<exists>t0 \<le> now. current_at cfg sky lib t0 d s))"

definition consistent ::
  "settings \<Rightarrow> ('s, 'o, 't) skyfield \<Rightarrow> ('g, 'w) shapely \<Rightarrow> datetime \<Rightarrow> 'w db \<Rightarrow> bool" where
  "consistent cfg sky lib now d \<longleftrightarrow> db_ok d \<and> tracks_ok lib d \<and> (\<forall>s \<in> set (satellites d). sat_id s < 2 ^ 128) \<and>
     (\<forall>ev \<in> set (events d). event_consistent d ev) \<and> (\<forall>s \<in> set (satellites d). tracked cfg sky lib now d s)"

text \<open>
  A session under way: it sees sound tables, with the other satellites' predictions as committed; a
  station it has not listed was registered since; and its own satellite either has a newer event to
  come, or what it has written so far is computed from the satellite's stored TLE.
\<close>

definition superseded :: "'w db \<Rightarrow> 'w flight \<Rightarrow> satellite \<Rightarrow> bool" where
  "superseded d f s \<longleftrightarrow> last (events_of d s) \<noteq> fl_event f \<and> ev_status (last (events_of d s)) = PENDING"

definition unlisted :: "'w db \<Rightarrow> 'w flight \<Rightarrow> 'w ground_station \<Rightarrow> bool" where
  "unlisted d f station \<longleftrightarrow> fl_now f \<le> st_created_at station \<and> (\<forall>sid. pair_content (seen f d) sid (st_id station) = [])"

definition done_current ::
  "settings \<Rightarrow> ('s, 'o, 't) skyfield \<Rightarrow> ('g, 'w) shapely \<Rightarrow> 'w db \<Rightarrow> 'w flight \<Rightarrow> satellite \<Rightarrow> bool" where
  "done_current cfg sky lib d f s \<longleftrightarrow> (\<forall>station \<in> set (stations d). st_id station \<in> st_id ` set (fl_done f) \<longrightarrow>
     (\<exists>passes. passes_for sky lib (horizon_window cfg (fl_now f)) 10 24 s station = Inr passes \<and>
        pair_content (seen f d) (sat_id s) (st_id station) = map (stored_pass lib) passes))"

definition flight_ok ::
  "settings \<Rightarrow> ('s, 'o, 't) skyfield \<Rightarrow> ('g, 'w) shapely \<Rightarrow> datetime \<Rightarrow> 'w db \<Rightarrow> 'w flight \<Rightarrow> bool" where
  "flight_ok cfg sky lib now d f \<longleftrightarrow>
     fl_event f \<in> set (events d) \<and> ev_status (fl_event f) = PENDING \<and> fl_now f \<le> now \<and>
     db_ok (seen f d) \<and> tracks_ok lib (seen f d) \<and> st_id ` set (fl_done f @ fl_todo f) \<subseteq> st_id ` set (stations d) \<and>
     (\<forall>station \<in> set (stations d). st_id station \<in> st_id ` set (fl_done f @ fl_todo f) \<or> unlisted d f station) \<and>
     (\<forall>s \<in> set (satellites d). if concerns (fl_event f) s then superseded d f s \<or> done_current cfg sky lib d f s
        else \<forall>stid. pair_content (seen f d) (sat_id s) stid = pair_content d (sat_id s) stid)"

definition service_ok :: "settings \<Rightarrow> ('s, 'o, 't) skyfield \<Rightarrow> ('g, 'w) shapely \<Rightarrow> string \<Rightarrow> 'w service \<Rightarrow> bool" where
  "service_ok cfg sky lib w s \<longleftrightarrow> jobs_ok (sv_jobs s) \<and> consistent cfg sky lib (sv_now s) (sv_db s) \<and>
     (\<forall>v f. sv_flights s v = Some f \<longrightarrow> v = w \<and> flight_ok cfg sky lib (sv_now s) (sv_db s) f)"

lemma consistentD:
  assumes "consistent cfg sky lib now d"
  shows "db_ok d" "tracks_ok lib d" "s \<in> set (satellites d) \<Longrightarrow> sat_id s < 2 ^ 128"
    "ev \<in> set (events d) \<Longrightarrow> event_consistent d ev" "s \<in> set (satellites d) \<Longrightarrow> tracked cfg sky lib now d s"
  using assms by (simp_all add: consistent_def)

lemma consistent_tick: "consistent cfg sky lib now d \<Longrightarrow> now \<le> t \<Longrightarrow> consistent cfg sky lib t d"
  unfolding consistent_def tracked_def by (meson order_trans)

text \<open>What the invariant says of a satellite depends on its own predictions and events only.\<close>

lemma current_at_cong:
  assumes "stations d' = stations d" and "\<And>stid. pair_content d' (sat_id s) stid = pair_content d (sat_id s) stid"
  shows "current_at cfg sky lib t0 d' s = current_at cfg sky lib t0 d s"
  by (simp add: current_at_def assms)

subsection \<open>Requests\<close>

lemma no_station_rows:
  assumes "db_ok d" and "stid \<notin> st_id ` set (stations d)"
  shows "pair_content d sid stid = []"
  using db_okD(3)[OF assms(1)] assms(2)
  by (auto simp: pair_content_def of_pair_def filter_empty_conv predictions_ok_def)

lemma no_satellite_rows:
  assumes "db_ok d" and "sid \<notin> sat_id ` set (satellites d)"
  shows "pair_content d sid stid = []"
  using db_okD(3)[OF assms(1)] assms(2)
  by (auto simp: pair_content_def of_pair_def filter_empty_conv predictions_ok_def)

lemma consistent_request:
  assumes c: "consistent cfg sky lib now d" and run: "handle_request gen now lib collate is_ready req d = (resp, d')"
  shows "consistent cfg sky lib now d'"
proof (cases "d' = d")
  case False
  then obtain station where d': "d' = d\<lparr>stations := stations d @ [station]\<rparr>" and st: "st_created_at station = now"
    "station_violation station (stations d) = None"
    using request_commits[OF run] by blast
  have new: "st_id station \<notin> st_id ` set (stations d)" using st(2) by (auto simp: station_violation_def split: if_splits)
  have same: "pair_content d' sid stid = pair_content d sid stid" for sid stid by (simp add: d' pair_content_def)
  have none: "pair_content d sid (st_id station) = []" for sid
    by (rule no_station_rows[OF consistentD(1)[OF c] new])
  have "current_at cfg sky lib t0 d' s" if "current_at cfg sky lib t0 d s" "t0 \<le> now" for t0 s
    using that none st(1) by (simp add: current_at_def same) (simp add: d')
  then have "tracked cfg sky lib now d' s" if "s \<in> set (satellites d)" for s
    using consistentD(5)[OF c that] unfolding tracked_def by (auto simp: events_of_def d')
  moreover have "db_ok d'" unfolding d' by (rule db_ok_post[OF consistentD(1)[OF c] st(2)])
  ultimately show ?thesis using c by (auto simp: consistent_def d' tracks_ok_def event_consistent_def)
qed (use c in simp)

lemma flight_request:
  assumes f: "flight_ok cfg sky lib now d f" and run: "handle_request gen now lib collate is_ready req d = (resp, d')"
  shows "flight_ok cfg sky lib now d' f"
proof (cases "d' = d")
  case False
  then obtain station where d': "d' = d\<lparr>stations := stations d @ [station]\<rparr>" and st: "st_created_at station = now"
    "station_violation station (stations d) = None"
    using request_commits[OF run] by blast
  note f = f[unfolded flight_ok_def]
  have seen': "seen f d' = (seen f d)\<lparr>stations := stations d @ [station]\<rparr>"
    by (simp add: seen_def rows_left_def d')
  have same: "pair_content (seen f d') sid stid = pair_content (seen f d) sid stid" for sid stid
    by (simp add: seen' pair_content_def)
  have new: "st_id station \<notin> st_id ` set (stations d)" using st(2) by (auto simp: station_violation_def split: if_splits)
  have ok: "db_ok (seen f d)" using f by blast
  have "unlisted d' f station" using f st(1) no_station_rows[OF ok] new by (simp add: unlisted_def same)
  moreover have "unlisted d' f x" if "unlisted d f x" for x using that by (simp add: unlisted_def same)
  moreover have "db_ok (seen f d')" using db_ok_post[OF ok] st(2) by (simp add: seen')
  moreover have "superseded d' f s = superseded d f s" for s by (simp add: superseded_def events_of_def d')
  moreover have "done_current cfg sky lib d' f s = done_current cfg sky lib d f s" for s
    using new f by (auto simp: done_current_def same) (auto simp: d')
  moreover have "pair_content d' sid stid = pair_content d sid stid" for sid stid
    by (simp add: d' pair_content_def)
  moreover have "tracks_ok lib (seen f d')" using f by (simp add: seen' tracks_ok_def)
  moreover have "satellites d' = satellites d" "events d' = events d" "set (stations d') = insert station (set (stations d))"
    by (simp_all add: d')
  ultimately show ?thesis using f by (simp add: flight_ok_def same) blast
qed (use f in simp)

subsection \<open>The ingest\<close>

lemma concerns_refreshed: "refreshed_event s ev \<Longrightarrow> sat_id s < 2 ^ 128 \<Longrightarrow> concerns ev s' \<longleftrightarrow> sat_id s' = sat_id s"
  using uuid_parse_str[of "sat_id s"]
  by (auto simp: concerns_def refreshed_event_def refreshed_payload_def payload_satellite_id_def)

lemma record_changes:
  assumes c: "consistent cfg sky lib now d" and gen: "uuid_gen gen" and "\<not> up_to_date d rec"
    and run: "ingest_record cfg gen tnow sky rec (d, n) = Inr (d', n')"
  obtains s ev where "upserted s (satellites d) (satellites d')" "s \<in> set (satellites d')" "refreshed_event s ev"
    "events d' = events d @ [ev]" "stations d' = stations d" "predictions d' = predictions d" "db_ok d'"
    "\<And>x. x \<in> set (satellites d') \<Longrightarrow> sat_id x < 2 ^ 128"
    "\<And>x. concerns ev x \<longleftrightarrow> sat_id x = sat_id s"
    "\<And>x. events_of d' x = events_of d x @ (if sat_id x = sat_id s then [ev] else [])"
proof -
  obtain s ev where up: "upserted s (satellites d) (satellites d')" and ev: "refreshed_event s ev"
    and e: "events d' = events d @ [ev]" and same: "stations d' = stations d" "predictions d' = predictions d"
    and ok: "db_ok d'"
    using ingest_record_step(2)[OF consistentD(1)[OF c] run] assms(3) by (auto simp: ingested_one_def)
  have small: "sat_id x < 2 ^ 128" if "x \<in> set (satellites d')" for x
    using ingest_record_ids[OF run that] consistentD(3)[OF c] gen by (auto simp: uuid_gen_def)
  have s: "s \<in> set (satellites d')"
    using up by (intro conjunct1[OF lookup_SomeD[of norad_id "norad_id s"]]) (simp add: upserted_def)
  note about = concerns_refreshed[OF ev small[OF s]]
  have "events_of d' x = events_of d x @ (if sat_id x = sat_id s then [ev] else [])" for x
    by (simp add: events_of_def e about)
  then show ?thesis using that[OF up s ev e same ok small about] by blast
qed

lemma consistent_record:
  assumes c: "consistent cfg sky lib now d" and gen: "uuid_gen gen"
    and run: "ingest_record cfg gen tnow sky rec (d, n) = Inr (d', n')"
  shows "consistent cfg sky lib now d'"
proof (cases "up_to_date d rec")
  case True
  then show ?thesis using ingest_record_step(2)[OF consistentD(1)[OF c] run] c by simp
next
  case False
  obtain s ev where up: "upserted s (satellites d) (satellites d')" and s: "s \<in> set (satellites d')" and ev: "refreshed_event s ev"
    and e: "events d' = events d @ [ev]" and same: "stations d' = stations d" "predictions d' = predictions d"
    and ok: "db_ok d'" and small: "\<And>x. x \<in> set (satellites d') \<Longrightarrow> sat_id x < 2 ^ 128"
    and about: "\<And>x. concerns ev x \<longleftrightarrow> sat_id x = sat_id s"
    and evs: "\<And>x. events_of d' x = events_of d x @ (if sat_id x = sat_id s then [ev] else [])"
    by (rule record_changes[OF c gen False run]) (rule that; assumption)
  have cur: "current_at cfg sky lib t0 d' x = current_at cfg sky lib t0 d x" for t0 x
    by (rule current_at_cong) (simp_all add: same pair_content_def)
  have "tracked cfg sky lib now d' x" if x: "x \<in> set (satellites d')" for x
  proof (cases "sat_id x = sat_id s")
    case True
    then show ?thesis using ev by (simp add: tracked_def evs refreshed_event_def)
  next
    case False
    then have "x \<in> set (satellites d)" using upserted_set[OF up] x by auto
    then show ?thesis using consistentD(5)[OF c] False by (simp add: tracked_def evs cur)
  qed
  moreover have "event_consistent d' x" if x: "x \<in> set (events d')" for x
  proof (cases "x = ev")
    case True
    then show ?thesis using ev about[of s] s by (auto simp: event_consistent_def refreshed_event_def completed_of_def)
  next
    case False
    then have old: "event_consistent d x" using consistentD(4)[OF c] x e by simp
    then obtain y where "y \<in> set (satellites d)" "concerns x y" by (auto simp: event_consistent_def)
    moreover from this have "sat_id y \<in> set (map sat_id (satellites d'))" using up by (auto simp: upserted_def)
    ultimately obtain z where "z \<in> set (satellites d')" "concerns x z" by (auto simp: concerns_def)
    then show ?thesis using old by (auto simp: event_consistent_def)
  qed
  moreover have "tracks_ok lib d'" using consistentD(2)[OF c] by (simp add: tracks_ok_def same)
  ultimately show ?thesis using ok small by (simp add: consistent_def)
qed

text \<open>A session under way when the ingest changes a satellite: its own one then has a newer event.\<close>

lemma flight_record:
  assumes c: "consistent cfg sky lib now d" and f: "flight_ok cfg sky lib now d f" and gen: "uuid_gen gen"
    and run: "ingest_record cfg gen tnow sky rec (d, n) = Inr (d', n')"
  shows "flight_ok cfg sky lib now d' f"
proof (cases "up_to_date d rec")
  case True
  then show ?thesis using ingest_record_step(2)[OF consistentD(1)[OF c] run] f by simp
next
  case False
  obtain s ev where up: "upserted s (satellites d) (satellites d')" and s: "s \<in> set (satellites d')" and ev: "refreshed_event s ev"
    and e: "events d' = events d @ [ev]" and same: "stations d' = stations d" "predictions d' = predictions d"
    and ok: "db_ok d'"
    and evs: "\<And>x. events_of d' x = events_of d x @ (if sat_id x = sat_id s then [ev] else [])"
    by (rule record_changes[OF c gen False run]) (rule that; assumption)
  note f = f[unfolded flight_ok_def]
  have ne: "fl_event f \<noteq> ev"
    using db_okD(4)[OF ok] f by (auto simp: events_ok_def e)
  have rows: "rows_left f d' = rows_left f d" by (simp add: rows_left_def same)
  have seen: "pair_content (seen f d') = pair_content (seen f d)" "pair_content d' = pair_content d"
    by (simp_all add: pair_content_def[abs_def] rows same)
  have "predictions_ok (satellites d') (stations d') (predictions (seen f d'))"
    using predictions_ok_more[OF db_okD(3)[of "seen f d"], of "satellites d'" "stations d"] f up
    by (simp add: rows same upserted_def)
  then have "db_ok (seen f d')" using ok by (simp add: db_ok_def)
  moreover have "tracks_ok lib (seen f d')" using f by (simp add: tracks_ok_def rows)
  moreover have "unlisted d' f x = unlisted d f x" for x by (simp add: unlisted_def seen)
  moreover have "if concerns (fl_event f) x then superseded d' f x \<or> done_current cfg sky lib d' f x
      else \<forall>stid. pair_content (seen f d') (sat_id x) stid = pair_content d' (sat_id x) stid"
    if x: "x \<in> set (satellites d')" for x
  proof (cases "sat_id x = sat_id s")
    case True
    have "ev_status ev = PENDING" using ev by (simp add: refreshed_event_def)
    then have "superseded d' f x" using ne True by (auto simp: superseded_def evs)
    moreover have "pair_content (seen f d) (sat_id x) stid = pair_content d (sat_id x) stid" if "\<not> concerns (fl_event f) x" for stid
    proof (cases "sat_id x \<in> sat_id ` set (satellites d)")
      case True
      then obtain y where "y \<in> set (satellites d)" "sat_id y = sat_id x" by auto
      moreover from this have "\<not> concerns (fl_event f) y" using that by (simp add: concerns_def)
      ultimately show ?thesis using f by metis
    next
      case False
      then show ?thesis using no_satellite_rows f consistentD(1)[OF c] by (metis seen_simps(1))
    qed
    ultimately show ?thesis by (simp add: seen)
  next
    case False
    then have "x \<in> set (satellites d)" using upserted_set[OF up] x by auto
    moreover have "superseded d' f x = superseded d f x" using False by (simp add: superseded_def evs)
    moreover have "done_current cfg sky lib d' f x = done_current cfg sky lib d f x"
      by (simp add: done_current_def same seen)
    ultimately show ?thesis using f by (simp add: seen)
  qed
  ultimately show ?thesis using f by (simp add: flight_ok_def same e)
qed

definition world_ok ::
  "settings \<Rightarrow> ('s, 'o, 't) skyfield \<Rightarrow> ('g, 'w) shapely \<Rightarrow> datetime \<Rightarrow> 'w flight set \<Rightarrow> 'w db \<Rightarrow> bool" where
  "world_ok cfg sky lib now fs d \<longleftrightarrow> consistent cfg sky lib now d \<and> (\<forall>f \<in> fs. flight_ok cfg sky lib now d f)"

lemma snd_cut_off: "snd (cut_off intr h w) \<in> {w, snd (h w)}"
  by (auto simp: cut_off_def split: option.split)

text \<open>
  The interface between the ingest and the invariants of the service: what the step of one record
  keeps is kept by a poll of a job worker, however its handler is cut off.
\<close>

locale ingest_invariant =
  fixes cfg :: settings
    and gen :: "uuid list \<Rightarrow> uuid"
    and tnow :: datetime
    and sky :: "('s, 'o, 't) skyfield"
    and inv :: "'w db \<Rightarrow> bool"
  assumes record_keeps: "inv d \<Longrightarrow> ingest_record cfg gen tnow sky rec (d, n) = Inr (d', n') \<Longrightarrow> inv d'"

sublocale ingest_invariant \<subseteq> jobs: world_invariant "service_jobs intr cfg gen tnow sky fetch" inv for intr fetch
proof unfold_locales
  fix name and h :: "'w db job_handler" and d :: "'w db"
  assume "get_job (service_jobs intr cfg gen tnow sky fetch) name = Some h" and d: "inv d"
  then have "h = cut_off intr (tle_refresh cfg gen tnow sky fetch)"
    by (simp add: service_jobs_def app_jobs_def register_job_def get_job_def split: if_splits)
  moreover have "inv (snd (tle_refresh cfg gen tnow sky fetch d))" by (rule tle_refresh_keeps[where P = inv, OF d record_keeps])
  ultimately show "inv (snd (h d))"
    using snd_cut_off[of intr "tle_refresh cfg gen tnow sky fetch" d] d by auto
qed

interpretation refresh: ingest_invariant cfg gen tnow sky "\<lambda>d. uuid_gen gen \<longrightarrow> world_ok cfg sky lib now fs d"
  for cfg gen tnow and sky :: "('s, 'o, 't) skyfield" and lib :: "('g, 'w) shapely" and now fs
  by unfold_locales (unfold world_ok_def, blast intro: consistent_record flight_record)

subsection \<open>A session of an outbox worker\<close>

lemma tracks_ok_insert: "insert_pass gen now lib sid stid p d = Inr d' \<Longrightarrow> tracks_ok lib d \<Longrightarrow> tracks_ok lib d'"
  by (auto simp: insert_pass_def rbind_eq_Inr repo_create_def tracks_ok_def split: option.splits) blast

lemma tracks_ok_station:
  assumes "recompute_station cfg gen now tnow sky lib sid station d = Inr d'" and "tracks_ok lib d"
  shows "tracks_ok lib d'"
proof -
  obtain predicted where run: "fold_r (insert_pass gen tnow lib sid (st_id station)) predicted
      (d\<lparr>predictions := delete_for_satellite_and_station sid (st_id station) (predictions d)\<rparr>) = Inr d'"
    using assms(1)
    by (auto simp: recompute_station_def compute_passes_use_case_def rbind_eq_Inr split: option.splits prod.splits)
  show ?thesis
  proof (rule fold_r_invariant[OF run, where P = "tracks_ok lib"])
    show "tracks_ok lib (d\<lparr>predictions := delete_for_satellite_and_station sid (st_id station) (predictions d)\<rparr>)"
      using assms(2) by (simp add: tracks_ok_def delete_for_satellite_and_station_def delete_where_def)
  qed (rule tracks_ok_insert)
qed

lemma flight_tick: "flight_ok cfg sky lib now d f \<Longrightarrow> now \<le> t \<Longrightarrow> flight_ok cfg sky lib t d f"
  unfolding flight_ok_def by (meson order_trans)

text \<open>The claim: the session has done nothing yet.\<close>

lemma flight_begin:
  assumes c: "consistent cfg sky lib now d" and nx: "next_event rd (events d) = Some ev"
  shows "flight_ok cfg sky lib now d (begin_flight collate ev now d)"
proof -
  have "ev \<in> set (events d)" "ev_status ev = PENDING" using next_event_Some(1,2)[OF nx] by (auto simp: ready_def)
  moreover have "fl_event (begin_flight collate ev now d) = ev" "fl_now (begin_flight collate ev now d) = now"
    "fl_done (begin_flight collate ev now d) = []" "set (fl_todo (begin_flight collate ev now d)) = set (stations d)"
    by (simp_all add: begin_flight_def sql_simps)
  ultimately show ?thesis
    using consistentD(1,2)[OF c] by (simp add: flight_ok_def done_current_def)
qed

text \<open>A station's step: what it writes is computed from the row the satellite has now.\<close>

lemma flight_step:
  assumes c: "consistent cfg sky lib now d" and f: "flight_ok cfg sky lib now d f" and todo: "fl_todo f = station # rest"
    and run: "flight_station cfg gen tnow sky lib station d f = Inr f'"
  shows "flight_ok cfg sky lib now d f'"
proof -
  note f = f[unfolded flight_ok_def]
  have ok: "db_ok (seen f d)" using f by blast
  obtain sid where sid: "payload_satellite_id (fl_payload f) = Inr sid"
    using run by (auto simp: flight_station_def rbind_eq_Inr)
  note s = flight_station_seen[OF run ok sid]
  note r = recompute_station_Inr[OF s(1)]
  have about: "concerns (fl_event f) x \<longleftrightarrow> sat_id x = sid" for x
    using sid by (auto simp: concerns_def fl_payload_def)
  have other: "pair_content (seen f' d) sid' stid = pair_content (seen f d) sid' stid" if "sid' \<noteq> sid \<or> stid \<noteq> st_id station" for sid' stid
    by (rule pair_content_other[OF r(1) that])
  have unl: "unlisted d f' x" if "unlisted d f x" "st_id x \<notin> st_id ` set (fl_done f @ fl_todo f)" for x
  proof -
    have "st_id x \<noteq> st_id station" using that(2) by (auto simp: todo)
    then show ?thesis using that(1) other by (simp add: unlisted_def s(3))
  qed
  have new: "\<exists>passes. passes_for sky lib (horizon_window cfg (fl_now f)) 10 24 x st = Inr passes \<and>
      pair_content (seen f' d) (sat_id x) (st_id st) = map (stored_pass lib) passes"
    if "x \<in> set (satellites d)" "sat_id x = sid" "st \<in> set (stations d)" "st_id st = st_id station" for x st
  proof -
    have "lookup sat_id sid (satellites d) = Some x" "lookup st_id (st_id station) (stations d) = Some st"
      using lookup_unique[OF db_okD(5)[OF consistentD(1)[OF c]] that(1)] that(2)
        lookup_unique[OF db_okD(7)[OF consistentD(1)[OF c]] that(3)] that(4) by simp_all
    then show ?thesis using r(2) that(2,4) by (auto simp: pair_current_def)
  qed
  have cur: "done_current cfg sky lib d f' x" if x: "x \<in> set (satellites d)" "sat_id x = sid" "done_current cfg sky lib d f x" for x
    unfolding done_current_def
  proof (intro ballI impI)
    fix st assume st: "st \<in> set (stations d)" "st_id st \<in> st_id ` set (fl_done f')"
    show "\<exists>passes. passes_for sky lib (horizon_window cfg (fl_now f')) 10 24 x st = Inr passes \<and>
        pair_content (seen f' d) (sat_id x) (st_id st) = map (stored_pass lib) passes"
    proof (cases "st_id st = st_id station")
      case True
      then show ?thesis using new[OF x(1,2) st(1)] s(3) by simp
    next
      case False
      then show ?thesis using x(3) st other s(3,4) by (auto simp: done_current_def)
    qed
  qed
  have "tracks_ok lib (seen f' d)" using tracks_ok_station[OF s(1)] f by blast
  moreover have "set (fl_done f' @ fl_todo f') = set (fl_done f @ fl_todo f)" by (auto simp: s(4,5) todo)
  moreover have "if concerns (fl_event f') x then superseded d f' x \<or> done_current cfg sky lib d f' x
      else \<forall>stid. pair_content (seen f' d) (sat_id x) stid = pair_content d (sat_id x) stid" if x: "x \<in> set (satellites d)" for x
  proof (cases "sat_id x = sid")
    case True
    then have "superseded d f x \<or> done_current cfg sky lib d f x" using f x about by metis
    then show ?thesis using cur[OF x True] True by (auto simp: superseded_def s(2) about)
  next
    case False
    then have "\<forall>stid. pair_content (seen f d) (sat_id x) stid = pair_content d (sat_id x) stid" using f x about by metis
    then show ?thesis using False other by (simp add: s(2) about)
  qed
  moreover have "\<forall>x \<in> set (stations d). st_id x \<in> st_id ` set (fl_done f' @ fl_todo f') \<or> unlisted d f' x"
    using f unl calculation(2) by metis
  ultimately show ?thesis
    using f r(3)[OF ok] by (simp add: flight_ok_def s(2,3))
qed

text \<open>The commit: the satellite's predictions are then those of its stored TLE, unless a newer event is to come.\<close>

lemma flight_commit:
  assumes c: "consistent cfg sky lib now d" and f: "flight_ok cfg sky lib now d f" and todo: "fl_todo f = []"
  shows "consistent cfg sky lib now (seen f d)"
    "s \<in> set (satellites d) \<Longrightarrow> concerns (fl_event f) s \<Longrightarrow> \<not> superseded d f s \<Longrightarrow> current_at cfg sky lib (fl_now f) (seen f d) s"
proof -
  note f = f[unfolded flight_ok_def]
  show cur: "current_at cfg sky lib (fl_now f) (seen f d) s"
    if "s \<in> set (satellites d)" "concerns (fl_event f) s" "\<not> superseded d f s" for s
    unfolding current_at_def
  proof
    fix station assume "station \<in> set (stations (seen f d))"
    then have st: "station \<in> set (stations d)" by simp
    have "done_current cfg sky lib d f s" using f that by metis
    then show "(\<exists>passes. passes_for sky lib (horizon_window cfg (fl_now f)) 10 24 s station = Inr passes \<and>
          pair_content (seen f d) (sat_id s) (st_id station) = map (stored_pass lib) passes) \<or>
        fl_now f \<le> st_created_at station \<and> pair_content (seen f d) (sat_id s) (st_id station) = []"
      using f st todo unfolding done_current_def unlisted_def by (metis append_Nil2)
  qed
  have same: "events_of (seen f d) s = events_of d s" for s by (simp add: events_of_def)
  have "tracked cfg sky lib now (seen f d) s" if s: "s \<in> set (satellites d)" for s
  proof (cases "concerns (fl_event f) s")
    case True
    then have "\<exists>t0 \<le> now. current_at cfg sky lib t0 (seen f d) s" if "ev_status (last (events_of d s)) = PROCESSED"
      using cur[OF s True] f that by (auto simp: superseded_def)
    then show ?thesis using consistentD(5)[OF c s] by (simp add: tracked_def same)
  next
    case False
    then have "current_at cfg sky lib t0 (seen f d) s = current_at cfg sky lib t0 d s" for t0
      using f s by (intro current_at_cong) (simp, metis)
    then show ?thesis using consistentD(5)[OF c s] by (simp add: tracked_def same)
  qed
  then show "consistent cfg sky lib now (seen f d)"
    using c f by (simp add: consistent_def event_consistent_def)
qed

lemma consistent_store:
  assumes c: "consistent cfg sky lib now d" and ev: "ev \<in> set (events d)"
    and ev': "ev_id ev' = ev_id ev" "event_type ev' = event_type ev" "ev_payload ev' = ev_payload ev" "event_ok ev'"
    and processed: "\<And>s. ev_status ev' = PROCESSED \<Longrightarrow> s \<in> set (satellites d) \<Longrightarrow> concerns ev s \<Longrightarrow>
      last (events_of d s) = ev \<Longrightarrow> \<exists>t0 \<le> now. current_at cfg sky lib t0 d s"
    and pending: "ev_status ev' = PENDING \<Longrightarrow> ''recompute_passes'' \<notin> completed_of (handler_state ev')"
  shows "consistent cfg sky lib now (d\<lparr>events := store_event ev' (events d)\<rparr>)"
proof -
  let ?d = "d\<lparr>events := store_event ev' (events d)\<rparr>" and ?f = "\<lambda>x. if ev_id x = ev_id ev then ev' else x"
  have one: "x = ev" if "x \<in> set (events d)" "ev_id x = ev_id ev" for x
    using unique_column[of ev_id "events d"] db_okD(4)[OF consistentD(1)[OF c]] that ev by (auto simp: events_ok_def)
  have f: "concerns (?f x) s = concerns x s" if "x \<in> set (events d)" for x s
    using one[OF that] ev'(3) by (auto simp: concerns_def)
  have store: "store_event ev' (events d) = map ?f (events d)"
    by (simp add: store_event_def update_where_def ev'(1))
  have evs: "events_of ?d s = map ?f (events_of d s)" for s
    using f by (auto simp: events_of_def store filter_map intro!: arg_cong[of _ _ "map ?f"] filter_cong)
  have cur: "current_at cfg sky lib t0 ?d s = current_at cfg sky lib t0 d s" for t0 s
    by (rule current_at_cong) (simp_all add: pair_content_def)
  have "tracked cfg sky lib now ?d s" if s: "s \<in> set (satellites d)" for s
  proof -
    have t: "events_of d s \<noteq> []"
      "ev_status (last (events_of d s)) = PROCESSED \<Longrightarrow> \<exists>t0 \<le> now. current_at cfg sky lib t0 d s"
      using consistentD(5)[OF c s] by (auto simp: tracked_def)
    have "last (events_of d s) \<in> set (events d)" "concerns (last (events_of d s)) s"
      using last_in_set[OF t(1)] by (simp_all add: events_of_def)
    then have "\<exists>t0 \<le> now. current_at cfg sky lib t0 d s" if "ev_status (?f (last (events_of d s))) = PROCESSED"
      using that t(2) processed[OF _ s] one by (metis (full_types))
    then show ?thesis using t(1) by (simp add: tracked_def evs last_map cur)
  qed
  moreover have "event_consistent ?d x" if x: "x \<in> set (events ?d)" for x
  proof -
    obtain y where y: "y \<in> set (events d)" "x = ?f y" using x by (auto simp: store)
    show ?thesis
    proof (cases "ev_id y = ev_id ev")
      case True
      then show ?thesis
        using consistentD(4)[OF c ev] y ev'(2,3) pending by (auto simp: event_consistent_def concerns_def)
    next
      case False
      then show ?thesis using consistentD(4)[OF c y(1)] y(2) by (simp add: event_consistent_def)
    qed
  qed
  moreover have "db_ok ?d"
    using consistentD(1)[OF c] events_ok_store[OF _ ev'(4)] by (simp add: db_ok_def)
  ultimately show ?thesis
    using consistentD(2,3)[OF c] by (simp add: consistent_def tracks_ok_def)
qed

text \<open>The end of a session: its commit or rollback, and the outcome of the attempt, stored or lost.\<close>

lemma flight_end:
  assumes c: "consistent cfg sky lib now d" and f: "flight_ok cfg sky lib now d f"
    and done': "fl_todo f = [] \<or> (\<exists>e. intr = Some (e, False))"
    and ending: "cut_off intr (commit_flight f) d = (x, d1)"
  shows "d1 = d \<or> fl_todo f = [] \<and> d1 = seen f d" "x = None \<Longrightarrow> fl_todo f = [] \<and> d1 = seen f d"
proof -
  note f = f[unfolded flight_ok_def]
  have "event_consistent d (fl_event f)" using consistentD(4)[OF c] f by simp
  then obtain s where "s \<in> set (satellites d)" "concerns (fl_event f) s" by (auto simp: event_consistent_def)
  then have "payload_satellite_id (fl_payload f) = Inr (sat_id s)" by (simp add: concerns_def fl_payload_def)
  moreover have "db_ok (seen f d)" using f by blast
  ultimately have commit: "commit_flight f d = (None, seen f d)" by (rule commit_sound[rotated])
  have "(d1 = d \<or> fl_todo f = [] \<and> d1 = seen f d) \<and> (x = None \<longrightarrow> fl_todo f = [] \<and> d1 = seen f d)"
  proof (cases intr)
    case None
    then have "(x, d1) = (None, seen f d)" using ending commit by (simp add: cut_off_def)
    then show ?thesis using done' None by simp
  next
    case (Some i)
    then have "x = Some (fst i)" "d1 = (if snd i then seen f d else d)"
      using ending commit by (cases i; simp add: cut_off_def split: if_splits)+
    then show ?thesis using done' Some by auto
  qed
  then show "d1 = d \<or> fl_todo f = [] \<and> d1 = seen f d" "x = None \<Longrightarrow> fl_todo f = [] \<and> d1 = seen f d"
    by blast+
qed

lemma consistent_settle:
  assumes c: "consistent cfg sky lib now d" and f: "flight_ok cfg sky lib now d f"
    and done': "fl_todo f = [] \<or> (\<exists>e. intr = Some (e, False))"
    and run: "handle_event tb (flight_dispatcher (cut_off intr (commit_flight f) d)) rd (fl_event f) d = (r, d')"
  shows "consistent cfg sky lib now d'"
    "r = Inr ev' \<Longrightarrow> consistent cfg sky lib now (d'\<lparr>events := store_event ev' (events d')\<rparr>)" "d' \<in> {d, seen f d}"
proof -
  let ?ev = "fl_event f"
  note f' = f[unfolded flight_ok_def]
  have ev: "?ev \<in> set (events d)" and pend: "ev_status ?ev = PENDING" using f' by simp_all
  have evok: "event_ok ?ev" using db_okD(4)[OF consistentD(1)[OF c]] ev by (simp add: events_ok_def)
  note ec = consistentD(4)[OF c ev, unfolded event_consistent_def]
  obtain x d1 where ending: "cut_off intr (commit_flight f) d = (x, d1)" by fastforce
  note e = flight_end[OF c f done' ending]
  have hs: "handlers_for (flight_dispatcher (cut_off intr (commit_flight f) d)) (event_type ?ev) =
      [(''recompute_passes'', \<lambda>_ _. (x, d1))]"
    using ec by (simp add: flight_dispatcher_def register_handler_def handlers_for_def ending)
  have st: "''recompute_passes'' \<notin> completed_of (handler_state ?ev)" "distinct (map fst (handler_state ?ev))"
    using ec pend evok by (simp_all add: event_ok_def)
  note one = handle_event_one[OF hs st run]
  have d': "d' = d1" using one(1) by simp
  have c1: "consistent cfg sky lib now d1" using e(1) c flight_commit(1)[OF c f] by auto
  then show "consistent cfg sky lib now d'" by (simp add: d')
  show "d' \<in> {d, seen f d}" using e(1) d' by auto
  assume r: "r = Inr ev'"
  note stat = handle_event_static[OF run[unfolded r]] and ok' = handle_event_ok[OF evok pend run[unfolded r]]
  have ev1: "?ev \<in> set (events d1)" using e(1) ev by auto
  have "consistent cfg sky lib now (d1\<lparr>events := store_event ev' (events d1)\<rparr>)"
  proof (rule consistent_store[OF c1 ev1 stat(1-3) ok'(1)])
    assume "ev_status ev' = PENDING"
    then show "''recompute_passes'' \<notin> completed_of (handler_state ev')"
      using one(2,3)[OF r] pend by auto
  next
    fix s assume "ev_status ev' = PROCESSED" and s: "s \<in> set (satellites d1)" and about: "concerns ?ev s"
      and last: "last (events_of d1 s) = ?ev"
    then have "x = None" using one(2)[OF r] pend by auto
    then have d1: "fl_todo f = []" "d1 = seen f d" using e(2) by simp_all
    then have "\<not> superseded d f s" using last by (simp add: superseded_def events_of_def)
    then show "\<exists>t0 \<le> now. current_at cfg sky lib t0 d1 s"
      using flight_commit(2)[OF c f d1(1) _ about] s d1(2) f' by auto
  qed
  then show "consistent cfg sky lib now (d'\<lparr>events := store_event ev' (events d')\<rparr>)" by (simp add: d')
qed

subsection \<open>The service\<close>

interpretation service: transition_system service_start "service_step cfg tb sky lib collate {w}" "service_ok cfg sky lib w"
  for cfg tb and sky :: "('s, 'o, 't) skyfield" and lib :: "('g, 'w) shapely" and collate w
proof unfold_locales
  fix s :: "'w service"
  assume "service_start s"
  then obtain gen now where "sv_jobs s = [tle_refresh_seed gen now]" and empty: "satellites (sv_db s) = []" "stations (sv_db s) = []"
      "predictions (sv_db s) = []" "events (sv_db s) = []"
    using upgrade_runs[of _ _ "[]"] by (auto simp: service_start_def empty_pg_def)
  moreover have "jobs_ok [tle_refresh_seed gen now]"
    by (simp add: jobs_ok_def job_ok_def tle_refresh_seed_def seeded_job_def)
  moreover have "sv_flights s v = None" for v using \<open>service_start s\<close> by (simp add: service_start_def)
  ultimately show "service_ok cfg sky lib w s"
    by (simp add: service_ok_def consistent_def db_ok_def satellites_ok_def stations_ok_def predictions_ok_def
        events_ok_def tracks_ok_def)
next
  fix s t :: "'w service"
  assume inv: "service_ok cfg sky lib w s" and step: "service_step cfg tb sky lib collate {w} s t"
  then have c: "consistent cfg sky lib (sv_now s) (sv_db s)" and jobs: "jobs_ok (sv_jobs s)"
    and fl: "\<And>v f. sv_flights s v = Some f \<Longrightarrow> v = w \<and> flight_ok cfg sky lib (sv_now s) (sv_db s) f"
    by (simp_all add: service_ok_def)
  from step show "service_ok cfg sky lib w t"
  proof cases
    case (tick t')
    then have "flight_ok cfg sky lib t' (sv_db s) f" if "sv_flights s v = Some f" for v f
      using flight_tick fl[OF that] by blast
    then show ?thesis using tick consistent_tick[OF c] jobs fl by (simp add: service_ok_def)
  next
    case (request gen is_ready req resp d)
    have "flight_ok cfg sky lib (sv_now s) d f" if "sv_flights s v = Some f" for v f
      using flight_request[OF _ request(2)] fl[OF that] by blast
    then show ?thesis using request(1) consistent_request[OF c request(2)] jobs fl by (simp add: service_ok_def)
  next
    case (poll gen intr tnow fetch wid p r jobs' d)
    have "world_ok cfg sky lib (sv_now s) (ran (sv_flights s)) (sv_db s)"
      using c fl by (auto simp: world_ok_def ran_def)
    then have "world_ok cfg sky lib (sv_now s) (ran (sv_flights s)) d"
      using refresh.jobs.worker_cycle_keeps[OF poll(3)] poll(2) by blast
    then show ?thesis
      using jobs_ok_cycle[OF jobs poll(3)] fl by (auto simp: service_ok_def world_ok_def poll(1) ran_def)
  next
    case (claim v rd ev)
    then show ?thesis using flight_begin[OF c claim(5)] c jobs fl by (auto simp: service_ok_def)
  next
    case (station v f st rest gen tnow f')
    have "v = w" "flight_ok cfg sky lib (sv_now s) (sv_db s) f'"
      using flight_step[OF c _ station(3,4)] fl[OF station(2)] by simp_all
    then show ?thesis using station(1) c jobs fl by (simp add: service_ok_def)
  next
    case (settle v f intr rd ev' d)
    have "sv_flights t u = None" for u using fl settle(1,2) by (cases "sv_flights s u") auto
    then show ?thesis
      using consistent_settle(2)[OF c _ settle(3,4) refl] fl[OF settle(2)] jobs by (simp add: service_ok_def settle(1))
  next
    case (lost v f intr rd r d)
    have "sv_flights t u = None" for u using fl lost(1,2) by (cases "sv_flights s u") auto
    then show ?thesis
      using consistent_settle(1)[OF c _ lost(3,4)] fl[OF lost(2)] jobs by (simp add: service_ok_def lost(1))
  qed
qed

end
