(* ===== verification/Scenario.thy ===== *)
theory Scenario
  imports Service
begin

text \<open>
  Runs of the service on a small instance: one station, one satellite, whose pass is at a time that
  depends on its TLE (\<open>drift_sky\<close>). A first run registers the station, refreshes and processes the
  event with one outbox worker. A second one refreshes again while a worker is in the middle of the
  first event, and a second worker processes the new event first.
\<close>

subsection \<open>The instance\<close>

text \<open>Every satellite has one pass, at a time that is read off its second line, found when the window covers it.\<close>

definition pass_time :: "string \<Rightarrow> datetime" where
  "pass_time s = seconds (10000 + 100 * int (length s))"

definition drift_sky :: "(string, unit, int) skyfield" where
  "drift_sky = sample_sky\<lparr>
     EarthSatellite := (\<lambda>l1 l2. Inr l2),
     find_events := (\<lambda>s o' t0 t1 el.
       if t0 \<le> pass_time s \<and> pass_time s + seconds 2 \<le> t1
       then ([pass_time s, pass_time s + seconds 1, pass_time s + seconds 2], [RISE, CULMINATE, SET])
       else ([], []))\<rparr>"

lemma drift_sky_ok: "skyfield_ok drift_sky"
  by (auto simp: skyfield_ok_def drift_sky_def sample_sky_def split: if_splits)

definition small_gen :: "uuid list \<Rightarrow> uuid" where
  "small_gen ids = (1 + sum_list ids) mod 2 ^ 128"

lemma small_gen_ids: "uuid_gen small_gen" "small_gen [] = 1" "small_gen [Suc 0] = 2"
  by (simp_all add: uuid_gen_def small_gen_def)

lemma drift_passes:
  assumes "passes_for drift_sky lib (horizon_window cfg t0) 10 24 x station = Inr ps"
  shows "length ps \<le> 1"
proof -
  let ?t1 = "t0 + seconds (PASS_PREDICTION_HORIZON_HOURS cfg * 3600)" and ?p = "pass_time (tle_line2 x)"
  have sat: "EarthSatellite drift_sky (tle_line1 x) (tle_line2 x) = Inr (tle_line2 x)" by (simp add: drift_sky_def)
  let ?obs = "\<lparr>obs_latitude = snd (wkb_to_lonlat lib (location station)),
    obs_longitude = fst (wkb_to_lonlat lib (location station)), elevation_m = altitude_m station\<rparr>"
  obtain ets codes where fe: "find_events drift_sky (tle_line2 x)
      (latlon drift_sky (obs_latitude ?obs) (obs_longitude ?obs) (elevation_m ?obs))
      (from_datetime drift_sky t0) (from_datetime drift_sky ?t1) 10 = (ets, codes)" by fastforce
  have run: "compute_passes drift_sky (tle_line1 x) (tle_line2 x) ?obs (Aware t0, Aware ?t1) 10 24 = Inr ps"
    using assms by (simp add: passes_for_def horizon_window_def)
  have "length ps = length (scan_triples None None (zip ets codes))"
    using arg_cong[OF compute_passes_times[OF run sat fe], of length] by simp
  moreover have "length (scan_triples None None (zip ets codes)) \<le> 1"
    using fe by (auto simp: drift_sky_def event_codes split: if_splits)
  ultimately show ?thesis by simp
qed

text \<open>In a window that covers it, exactly that pass.\<close>

lemma drift_pass:
  assumes "t0 \<le> pass_time (tle_line2 x)" and "pass_time (tle_line2 x) \<le> seconds 20000"
    and "seconds 20002 \<le> t0 + seconds (PASS_PREDICTION_HORIZON_HOURS cfg * 3600)"
  obtains p where "passes_for drift_sky lib (horizon_window cfg t0) 10 24 x station = Inr [p]"
    "aos_at p = pass_time (tle_line2 x)" "2 \<le> length (ground_track p)"
proof -
  let ?t1 = "t0 + seconds (PASS_PREDICTION_HORIZON_HOURS cfg * 3600)" and ?p = "pass_time (tle_line2 x)"
  have sat: "EarthSatellite drift_sky (tle_line1 x) (tle_line2 x) = Inr (tle_line2 x)" by (simp add: drift_sky_def)
  let ?obs = "\<lparr>obs_latitude = snd (wkb_to_lonlat lib (location station)),
    obs_longitude = fst (wkb_to_lonlat lib (location station)), elevation_m = altitude_m station\<rparr>"
  have lt: "t0 < ?t1" using assms by simp
  obtain ps where run: "compute_passes drift_sky (tle_line1 x) (tle_line2 x) ?obs (Aware t0, Aware ?t1) 10 24 = Inr ps"
    and len: "\<forall>p \<in> set ps. length (ground_track p) = 24"
    using compute_passes_total[OF drift_sky_ok sat lt, of 10 24 ?obs] by auto
  have "?p + seconds 2 \<le> ?t1" using assms by simp
  then have "find_events drift_sky (tle_line2 x) (latlon drift_sky (obs_latitude ?obs) (obs_longitude ?obs) (elevation_m ?obs))
      (from_datetime drift_sky t0) (from_datetime drift_sky ?t1) 10 =
      ([?p, ?p + seconds 1, ?p + seconds 2], [RISE, CULMINATE, SET])"
    using assms(1) by (simp add: drift_sky_def sample_sky_def)
  note times = compute_passes_times[OF run sat this]
  have "utc_datetime drift_sky t = t" for t by (simp add: drift_sky_def sample_sky_def)
  then have "map (\<lambda>p. (aos_at p, peak_at p, los_at p)) ps = [(?p, ?p + seconds 1, ?p + seconds 2)]"
    using times by (simp add: event_codes)
  then obtain p where "ps = [p]" "aos_at p = ?p" by auto
  then show ?thesis using that run len by (auto simp: passes_for_def horizon_window_def)
qed

subsection \<open>Two refreshes\<close>

definition later_tle :: tle_record where
  "later_tle = sample_tle\<lparr>line2 := ''2 25544 B''\<rparr>"

definition tle_row :: "tle_record \<Rightarrow> datetime option \<Rightarrow> satellite" where
  "tle_row rec updated = \<lparr>sat_id = 1, norad_id = 25544, sat_name = ''ISS'', tle_line1 = line1 rec, tle_line2 = line2 rec,
     epoch = 7, sat_created_at = 0, sat_updated_at = updated\<rparr>"

definition tle_event :: "uuid \<Rightarrow> datetime \<Rightarrow> event" where
  "tle_event i now = \<lparr>ev_id = i, aggregate_id = Some 1, correlation_id = None, event_type = ''tle.refreshed'',
     ev_payload = [(''satellite_id'', JStr (uuid_str 1)), (''norad_id'', JInt 25544)], ev_status = PENDING, retry_count = 0,
     max_retries = 8, scheduled_at = now, ev_last_error = None, ev_created_at = now, processed_at = None, handler_state = []\<rparr>"

lemma drift_epoch: "tle_epoch drift_sky l1 l2 = Inr 7"
  by (simp add: tle_epoch_def build_satellite_def drift_sky_def sample_sky_def)

lemma first_ingest:
  assumes "satellites d = []" and "events d = []"
  shows "\<exists>n. tle_refresh default_settings small_gen 0 drift_sky (\<lambda>_. Inr [sample_tle]) d =
    (None, d\<lparr>satellites := [tle_row sample_tle None], events := [tle_event 1 0], notified := n\<rparr>)"
proof -
  have "ingest_record default_settings small_gen 0 drift_sky sample_tle (d, 0) =
      Inr (d\<lparr>satellites := [tle_row sample_tle None], events := [tle_event 1 0],
        notified := notified d @ [(CHANNEL, uuid_str 1)]\<rparr>, 1)"
    using assms
    by (simp add: ingest_record_def sample_tle_norad get_by_norad_id_def drift_epoch repo_create_def satellite_violation_def
        publish_refreshed_def publish_def Let_def small_gen_ids refreshed_payload_def tle_row_def tle_event_def
        default_settings_def) (simp add: sample_tle_def)
  then show ?thesis by (intro exI[of _ "notified d @ [(CHANNEL, uuid_str 1)]"]) (simp add: tle_refresh_def ingest_tles_def)
qed

lemma second_ingest:
  assumes "satellites d = [tle_row sample_tle None]" and "events d = [tle_event 1 0]"
  shows "\<exists>n. tle_refresh default_settings small_gen now drift_sky (\<lambda>_. Inr [later_tle]) d =
    (None, d\<lparr>satellites := [tle_row later_tle (Some now)], events := [tle_event 1 0, tle_event 2 now], notified := n\<rparr>)"
proof -
  have lines: "line1 later_tle = line1 sample_tle" "tle_name later_tle = ''ISS''" "line2 later_tle \<noteq> line2 sample_tle"
    by (simp_all add: later_tle_def sample_tle_def)
  have upd: "update_satellite now (tle_row sample_tle None) [Attr_name ''ISS'', Attr_tle_line1 (line1 later_tle),
      Attr_tle_line2 (line2 later_tle), Attr_epoch 7] [tle_row sample_tle None] =
      Inr (tle_row later_tle (Some now), [tle_row later_tle (Some now)])"
    using lines by (simp add: update_satellite_def repo_update_def tle_row_def satellite_violation_def
        delete_where_def update_where_def Let_def)
  have "ingest_record default_settings small_gen now drift_sky later_tle (d, 0) =
      Inr (d\<lparr>satellites := [tle_row later_tle (Some now)], events := [tle_event 1 0, tle_event 2 now],
        notified := notified d @ [(CHANNEL, uuid_str 2)]\<rparr>, 1)"
    using assms lines upd
    by (simp add: ingest_record_def sample_tle_norad get_by_norad_id_def drift_epoch
        publish_refreshed_def publish_def Let_def small_gen_ids refreshed_payload_def)
      (simp add: tle_row_def tle_event_def small_gen_ids default_settings_def)
  then show ?thesis by (intro exI[of _ "notified d @ [(CHANNEL, uuid_str 2)]"]) (simp add: tle_refresh_def ingest_tles_def)
qed

subsection \<open>The steps of a run\<close>

definition drift_db ::
  "satellite \<Rightarrow> plain_wkb ground_station \<Rightarrow> plain_wkb pass_prediction list \<Rightarrow> event list \<Rightarrow> (string \<times> string) list \<Rightarrow> plain_wkb db" where
  "drift_db x station rows evs n = \<lparr>satellites = [x], stations = [station], predictions = rows, events = evs, notified = n\<rparr>"

lemma drift_db_simps [simp]:
  "satellites (drift_db x station rows evs n) = [x]" "stations (drift_db x station rows evs n) = [station]"
  "predictions (drift_db x station rows evs n) = rows" "events (drift_db x station rows evs n) = evs"
  "(drift_db x station rows evs n)\<lparr>predictions := rows'\<rparr> = drift_db x station rows' evs n"
  "(drift_db x station rows evs n)\<lparr>events := evs'\<rparr> = drift_db x station rows evs' n"
  by (simp_all add: drift_db_def)

definition drift_flight :: "event \<Rightarrow> datetime \<Rightarrow> plain_wkb ground_station \<Rightarrow> plain_wkb pass_prediction list \<Rightarrow> plain_wkb flight" where
  "drift_flight ev now station rows = \<lparr>fl_event = ev, fl_now = now, fl_done = [station], fl_todo = [],
     fl_deleted = [], fl_inserted = rows\<rparr>"

text \<open>A session over the one station, while no predictions are committed.\<close>

lemma drift_flight_station:
  assumes "payload_satellite_id (ev_payload ev) = Inr (sat_id x)"
    and "0 \<le> now" "now \<le> pass_time (tle_line2 x)" "pass_time (tle_line2 x) \<le> seconds 20000"
  obtains row where
    "flight_station default_settings gen tnow drift_sky plain_shapely station (drift_db x station [] evs n)
       (begin_flight (\<lambda>_. 0) ev now (drift_db x station [] evs n)) = Inr (drift_flight ev now station [row])"
    "pp_id row = gen []" "pass_key row = (sat_id x, st_id station, pass_time (tle_line2 x))"
proof -
  let ?d = "drift_db x station [] evs n" and ?f = "begin_flight (\<lambda>_. 0) ev now (drift_db x station [] evs n)"
  have "seconds 20002 \<le> now + seconds (PASS_PREDICTION_HORIZON_HOURS default_settings * 3600)"
    using assms(2) by (simp add: default_settings_def)
  from drift_pass[OF assms(3,4) this, of plain_shapely station]
  obtain p where p: "passes_for drift_sky plain_shapely (horizon_window default_settings now) 10 24 x station = Inr [p]"
    "aos_at p = pass_time (tle_line2 x)" "2 \<le> length (ground_track p)" by metis
  let ?row = "\<lparr>pp_id = gen [], satellite_id = sat_id x, ground_station_id = st_id station,
               pp_aos_at = aos_at p, pp_los_at = los_at p, pp_peak_at = peak_at p,
               pp_peak_elevation_deg = peak_elevation_deg p,
               track = from_shape plain_shapely (LineString plain_shapely (ground_track p)) SRID_WGS84,
               pp_created_at = tnow, pp_updated_at = None\<rparr>"
  have found: "lookup sat_id (sat_id x) (satellites ?d) = Some x" "lookup st_id (st_id station) (stations ?d) = Some station"
    by (simp_all add: lookup_def)
  have "insert_pass gen tnow plain_shapely (sat_id x) (st_id station) p ?d = Inr (drift_db x station [?row] evs n)"
    using p(3) by (simp add: insert_pass_def linestring_to_wkb_def repo_create_def prediction_violation_def)
  then have "recompute_station default_settings gen now tnow drift_sky plain_shapely (sat_id x) station ?d =
      Inr (drift_db x station [?row] evs n)"
    using p(1) by (simp add: recompute_station_def use_case_unfold[OF found] delete_for_satellite_and_station_def
        delete_where_def)
  then have "flight_station default_settings gen tnow drift_sky plain_shapely station ?d ?f = Inr (drift_flight ev now station [?row])"
    using assms(1) by (simp add: flight_station_def fl_payload_def Let_def rows_left_def)
      (simp add: begin_flight_def drift_flight_def list_all_stations_def select_order_by_def rows_left_def)
  then show ?thesis using that p(2) by (simp add: pass_key_def)
qed

lemma settle_processed:
  assumes "event_type ev = ''tle.refreshed''" and "handler_state ev = []"
  obtains ev' where "handle_event tb (flight_dispatcher (None, d')) rd ev d = (Inr ev', d')"
    "ev_status ev' = PROCESSED" "ev_id ev' = ev_id ev" "ev_payload ev' = ev_payload ev"
proof -
  have "handlers_for (flight_dispatcher (None, d')) (event_type ev) = [(''recompute_passes'', \<lambda>_ _. (None, d'))]"
    by (simp add: assms(1) flight_dispatcher_def handlers_for_def register_handler_def)
  from handle_event_single[OF this assms(2) refl, of tb rd d] obtain ev' where
    h: "handle_event tb (flight_dispatcher (None, d')) rd ev d = (Inr ev', d')" "ev_status ev' = PROCESSED" by blast
  show ?thesis by (rule that[OF h handle_event_static(1,3)[OF h(1)]])
qed

subsection \<open>Register and refresh\<close>

definition blank_db :: "plain_wkb db" where
  "blank_db = \<lparr>satellites = [], stations = [], predictions = [], events = [], notified = []\<rparr>"

definition drift_state :: "datetime \<Rightarrow> job \<Rightarrow> plain_wkb db \<Rightarrow> (string \<Rightarrow> plain_wkb flight option) \<Rightarrow> plain_wkb service" where
  "drift_state now j d fl = \<lparr>sv_now = now, sv_jobs = [j], sv_db = d, sv_flights = fl\<rparr>"

lemma drift_state_simps [simp]:
  "sv_now (drift_state now j d fl) = now" "sv_jobs (drift_state now j d fl) = [j]"
  "sv_db (drift_state now j d fl) = d" "sv_flights (drift_state now j d fl) = fl"
  "(drift_state now j d fl)\<lparr>sv_now := now'\<rparr> = drift_state now' j d fl"
  "(drift_state now j d fl)\<lparr>sv_db := d'\<rparr> = drift_state now j d' fl"
  "(drift_state now j d fl)\<lparr>sv_jobs := [j'], sv_db := d'\<rparr> = drift_state now j' d' fl"
  "(drift_state now j d fl)\<lparr>sv_flights := fl'\<rparr> = drift_state now j d fl'"
  "(drift_state now j d fl)\<lparr>sv_db := d', sv_flights := fl'\<rparr> = drift_state now j d' fl'"
  by (simp_all add: drift_state_def)

definition drift_start :: "plain_wkb service" where
  "drift_start = drift_state 0 (tle_refresh_seed sample_gen 0) blank_db (\<lambda>_. None)"

abbreviation drift_step :: "string set \<Rightarrow> plain_wkb service \<Rightarrow> plain_wkb service \<Rightarrow> bool" where
  "drift_step \<equiv> service_step default_settings (\<lambda>e. ''tb'') drift_sky plain_shapely (\<lambda>_. 0)"

lemma drift_service_start: "service_start drift_start"
proof -
  have "\<exists>pg. fold_r (run_operation sample_gen 0) upgrade empty_pg = Inr pg \<and> sv_jobs drift_start = pg_jobs pg"
    using upgrade_runs[of sample_gen 0 "[]"] by (simp add: empty_pg_def drift_start_def)
  then have "\<exists>gen now pg. fold_r (run_operation gen now) upgrade empty_pg = Inr pg \<and> sv_jobs drift_start = pg_jobs pg"
    by blast
  then show ?thesis by (simp add: service_start_def drift_start_def blank_db_def)
qed

definition later_poll :: poll where
  "later_poll = \<lparr>poll_recover = seconds 7300, poll_now = seconds 7300, poll_clk = (\<lambda>_.
     \<lparr>ck_lease = seconds 7300, ck_due = seconds 7300, ck_updated = seconds 7300, ck_end = seconds 7301\<rparr>)\<rparr>"

lemma drift_poll:
  fixes p :: poll and d :: "plain_wkb db"
  assumes "job_status j = PENDING" "job_name j = ''tle_refresh''"
    and "next_run_at j \<le> poll_now p" "next_run_at j \<le> ck_due (poll_clk p 0)"
    and "tle_refresh default_settings small_gen tnow drift_sky fetch d = (None, d')"
  obtains j' where "drift_step workers (drift_state now j d fl) (drift_state now j' d' fl)"
    "job_status j' = PENDING" "job_name j' = ''tle_refresh''"
    "next_run_at j' = ck_end (poll_clk p 0) + seconds (interval_seconds j)"
proof -
  let ?j = "reschedule_values (ck_end (poll_clk p 0)) (interval_seconds j) None j"
  have "cut_off None h = h" for h :: "plain_wkb db job_handler" by (simp add: cut_off_def ext)
  then have "service_jobs None default_settings small_gen tnow drift_sky fetch =
      (app_jobs default_settings small_gen tnow drift_sky fetch :: plain_wkb db job_registry)"
    by (simp add: service_jobs_def app_jobs_def register_job_def)
  then have "worker_cycle default_settings (\<lambda>e. ''tb'') (service_jobs None default_settings small_gen tnow drift_sky fetch)
      ''j'' p ([j], d) = (Inr (), [?j], d')"
    using refresh_poll[OF assms, of "\<lambda>e. ''tb''" "''j''"] by simp
  then have "drift_step workers (drift_state now j d fl) (drift_state now ?j d' fl)"
    using service_step.poll[OF small_gen_ids(1), of default_settings "\<lambda>e. ''tb''" None tnow drift_sky fetch "''j''" p
        "drift_state now j d fl" "Inr ()" "[?j]" d' plain_shapely "\<lambda>_. 0" workers] by simp
  then show ?thesis using that[of ?j] assms(2) by (simp add: reschedule_values_def)
qed

text \<open>A station is registered, and the seeded job is run.\<close>

lemma first_refresh:
  obtains j station n where
    "(drift_step workers)\<^sup>*\<^sup>* drift_start
       (drift_state 0 j (drift_db (tle_row sample_tle None) station [] [tle_event 1 0] n) (\<lambda>_. None))"
    "job_status j = PENDING" "job_name j = ''tle_refresh''" "next_run_at j \<le> seconds 7300" "length (st_name station) \<le> 255"
proof -
  have blank: "db_ok blank_db"
    by (simp add: blank_db_def db_ok_def satellites_ok_def stations_ok_def predictions_ok_def events_ok_def)
  obtain resp d1 where post: "post_ground_station sample_gen 0 plain_shapely sample_body blank_db = (resp, d1)" by fastforce
  have "valid_create sample_body" by (simp add: valid_create_def sample_body_def create_altitude_def)
  then obtain station where d1: "d1 = blank_db\<lparr>stations := [station]\<rparr>" "st_name station = gc_name sample_body"
    using post_result[OF blank sample_gen_fresh plain_shapely_ok post] by (auto simp: blank_db_def)
  have s1: "drift_step workers drift_start (drift_state 0 (tle_refresh_seed sample_gen 0) d1 (\<lambda>_. None))"
    using service_step.request[of sample_gen drift_start plain_shapely "\<lambda>_. 0" None "Register_request sample_body"
        "map_response Station_answer resp" d1] post
    by (simp add: drift_start_def)
  obtain n where "tle_refresh default_settings small_gen 0 drift_sky (\<lambda>_. Inr [sample_tle]) d1 =
      (None, drift_db (tle_row sample_tle None) station [] [tle_event 1 0] n)"
    using first_ingest[of d1] by (auto simp: d1 blank_db_def drift_db_def)
  note ingest = this
  let ?j = "tle_refresh_seed sample_gen 0"
  have j0: "job_status ?j = PENDING" "job_name ?j = ''tle_refresh''" "next_run_at ?j = 0" "interval_seconds ?j = 7200"
    by (simp_all add: tle_refresh_seed_def seeded_job_def)
  have due: "next_run_at ?j \<le> poll_now sample_poll" "next_run_at ?j \<le> ck_due (poll_clk sample_poll 0)"
    and ending: "ck_end (poll_clk sample_poll 0) = 11"
    by (simp_all add: j0(3) sample_poll_def sample_clock_def)
  obtain j where j: "drift_step workers (drift_state 0 ?j d1 (\<lambda>_. None))
      (drift_state 0 j (drift_db (tle_row sample_tle None) station [] [tle_event 1 0] n) (\<lambda>_. None))"
    "job_status j = PENDING" "job_name j = ''tle_refresh''" "next_run_at j = 11 + seconds 7200"
    by (rule drift_poll[OF j0(1,2) due ingest, of workers 0 "\<lambda>_. None"]) (simp add: ending j0(4))
  have "(drift_step workers)\<^sup>*\<^sup>* drift_start
       (drift_state 0 j (drift_db (tle_row sample_tle None) station [] [tle_event 1 0] n) (\<lambda>_. None))"
    using s1 j(1) by (meson rtranclp.rtrancl_into_rtrancl rtranclp.rtrancl_refl)
  then show ?thesis using that j(2-4) d1(2) by (simp add: sample_body_def)
qed

subsection \<open>A session\<close>

lemma drift_session:
  fixes gen :: "uuid list \<Rightarrow> uuid"
  assumes "w \<in> workers" "fl w = None" "\<forall>f \<in> ran fl. ev_id (fl_event f) \<in> set (rd_locked rd)"
    and nx: "next_event rd evs = Some ev" and "payload_satellite_id (ev_payload ev) = Inr (sat_id x)"
    and "0 \<le> now" "now \<le> pass_time (tle_line2 x)" "pass_time (tle_line2 x) \<le> seconds 20000"
  obtains row where
    "(drift_step workers)\<^sup>*\<^sup>* (drift_state now j (drift_db x station [] evs n) fl)
       (drift_state now j (drift_db x station [] evs n) (fl(w \<mapsto> drift_flight ev now station [row])))"
    "pp_id row = gen []" "pass_key row = (sat_id x, st_id station, pass_time (tle_line2 x))"
proof -
  let ?d = "drift_db x station [] evs n"
  let ?f = "begin_flight (\<lambda>_. 0) ev now ?d"
  obtain row where st: "flight_station default_settings gen now drift_sky plain_shapely station ?d ?f = Inr (drift_flight ev now station [row])"
    "pp_id row = gen []" "pass_key row = (sat_id x, st_id station, pass_time (tle_line2 x))"
    by (rule drift_flight_station[OF assms(5-8), of gen now station evs n])
  have "drift_step workers (drift_state now j ?d fl) (drift_state now j ?d (fl(w \<mapsto> ?f)))"
    using service_step.claim[OF assms(1), of "drift_state now j ?d fl" rd ev default_settings "\<lambda>e. ''tb''" drift_sky plain_shapely "\<lambda>_. 0"]
      assms(2,3) nx by simp
  moreover have todo: "fl_todo ?f = [station]"
    by (simp add: begin_flight_def list_all_stations_def select_order_by_def)
  have "drift_step workers (drift_state now j ?d (fl(w \<mapsto> ?f))) (drift_state now j ?d (fl(w \<mapsto> drift_flight ev now station [row])))"
    using service_step.station[of "drift_state now j ?d (fl(w \<mapsto> ?f))" w ?f station "[]" default_settings gen now drift_sky plain_shapely
        "drift_flight ev now station [row]" "\<lambda>e. ''tb''" "\<lambda>_. 0" workers] todo st(1) by simp
  ultimately have "(drift_step workers)\<^sup>*\<^sup>* (drift_state now j ?d fl) (drift_state now j ?d (fl(w \<mapsto> drift_flight ev now station [row])))"
    by (meson rtranclp.rtrancl_into_rtrancl rtranclp.rtrancl_refl)
  then show ?thesis by (rule that[OF _ st(2,3)])
qed

lemma drift_settle:
  assumes "fl w = Some (drift_flight ev t0 station [row])" and "predictions_ok [x] [station] (rows @ [row])"
    and "payload_satellite_id (ev_payload ev) = Inr sid" "event_type ev = ''tle.refreshed''" "handler_state ev = []"
  obtains ev' where
    "drift_step workers (drift_state now j (drift_db x station rows evs n) fl)
       (drift_state now j (drift_db x station (rows @ [row]) (store_event ev' evs) n) (fl(w := None)))"
    "ev_status ev' = PROCESSED" "ev_id ev' = ev_id ev" "ev_payload ev' = ev_payload ev"
proof -
  let ?d = "drift_db x station rows evs n" and ?f = "drift_flight ev t0 station [row]"
  have f: "fl_todo ?f = []" "fl_event ?f = ev" "fl_inserted ?f = [row]" "fl_deleted ?f = []" by (simp_all add: drift_flight_def)
  have "fold_r (insert_row ?d) [row] rows = Inr (rows @ [row])" by (rule insert_rows) (simp add: assms(2))
  then have "commit_flight ?f ?d = (None, drift_db x station (rows @ [row]) evs n)"
    using assms(3) by (simp add: commit_flight_def fl_payload_def f rows_left_def)
  then have commit: "cut_off None (commit_flight ?f) ?d = (None, drift_db x station (rows @ [row]) evs n)"
    by (simp add: cut_off_def)
  obtain ev' where h: "handle_event (\<lambda>e. ''tb'') (flight_dispatcher (None, drift_db x station (rows @ [row]) evs n)) sample_round ev ?d =
      (Inr ev', drift_db x station (rows @ [row]) evs n)"
    "ev_status ev' = PROCESSED" "ev_id ev' = ev_id ev" "ev_payload ev' = ev_payload ev"
    by (rule settle_processed[OF assms(4,5)])
  have "drift_step workers (drift_state now j ?d fl)
      (drift_state now j (drift_db x station (rows @ [row]) (store_event ev' evs) n) (fl(w := None)))"
    using service_step.settle[of "drift_state now j ?d fl" w ?f None "\<lambda>e. ''tb''" sample_round ev'
        "drift_db x station (rows @ [row]) evs n" default_settings drift_sky plain_shapely "\<lambda>_. 0" workers]
      assms(1) f commit h(1) by simp
  then show ?thesis by (rule that[OF _ h(2-4)])
qed

lemma tle_event_facts:
  "payload_satellite_id (ev_payload (tle_event i t)) = Inr 1" "event_type (tle_event i t) = ''tle.refreshed''"
  "handler_state (tle_event i t) = []" "ev_id (tle_event i t) = i" "ev_status (tle_event i t) = PENDING"
  "scheduled_at (tle_event i t) = t"
  using uuid_parse_str[of 1] by (simp_all add: tle_event_def payload_satellite_id_def)

lemma tle_row_facts:
  "sat_id (tle_row rec u) = 1" "tle_line2 (tle_row rec u) = line2 rec"
  "pass_time (line2 sample_tle) = seconds 10700" "pass_time (line2 later_tle) = seconds 10900"
  by (simp_all add: tle_row_def pass_time_def sample_tle_def later_tle_def)

subsection \<open>One outbox worker\<close>

lemma one_worker_run:
  obtains s x station where "(drift_step {''a''})\<^sup>*\<^sup>* drift_start s" "satellites (sv_db s) = [x]" "stations (sv_db s) = [station]"
    "ev_status (last (events_of (sv_db s) x)) = PROCESSED"
proof -
  let ?x = "tle_row sample_tle None" and ?ev = "tle_event 1 0"
  obtain j station n where r: "(drift_step {''a''})\<^sup>*\<^sup>* drift_start
       (drift_state 0 j (drift_db ?x station [] [?ev] n) (\<lambda>_. None))" by (rule first_refresh)
  have nx: "next_event sample_round [?ev] = Some ?ev"
    by (simp add: next_event_def select_order_by_def ready_def sample_round_def tle_event_facts)
  have sid: "payload_satellite_id (ev_payload ?ev) = Inr (sat_id ?x)" by (simp add: tle_event_facts tle_row_facts)
  have w: "''a'' \<in> {''a''}" "(\<lambda>_. None) ''a'' = None"
    "\<forall>f \<in> ran (\<lambda>_. None :: plain_wkb flight option). ev_id (fl_event f) \<in> set (rd_locked sample_round)" by (simp_all add: ran_def)
  have t: "0 \<le> (0 :: datetime)" "0 \<le> pass_time (tle_line2 ?x)" "pass_time (tle_line2 ?x) \<le> seconds 20000"
    by (simp_all add: tle_row_facts)
  obtain row where s1: "(drift_step {''a''})\<^sup>*\<^sup>* (drift_state 0 j (drift_db ?x station [] [?ev] n) (\<lambda>_. None))
      (drift_state 0 j (drift_db ?x station [] [?ev] n) ((\<lambda>_. None)(''a'' \<mapsto> drift_flight ?ev 0 station [row])))"
    "pp_id row = sample_gen []" "pass_key row = (sat_id ?x, st_id station, pass_time (tle_line2 ?x))"
    by (rule drift_session[OF w nx sid t])
  have ok: "predictions_ok [?x] [station] ([] @ [row])"
    using s1(3) by (simp add: predictions_ok_def pass_key_def)
  have fl: "((\<lambda>_. None)(''a'' \<mapsto> drift_flight ?ev 0 station [row])) ''a'' = Some (drift_flight ?ev 0 station [row])" by simp
  obtain ev' where s2: "drift_step {''a''} (drift_state 0 j (drift_db ?x station [] [?ev] n)
      ((\<lambda>_. None)(''a'' \<mapsto> drift_flight ?ev 0 station [row])))
      (drift_state 0 j (drift_db ?x station ([] @ [row]) (store_event ev' [?ev]) n) (((\<lambda>_. None)(''a'' \<mapsto> drift_flight ?ev 0 station [row]))(''a'' := None)))"
    "ev_status ev' = PROCESSED" "ev_id ev' = ev_id ?ev" "ev_payload ev' = ev_payload ?ev"
    by (rule drift_settle[where fl = "(\<lambda>_. None)(''a'' \<mapsto> drift_flight ?ev 0 station [row])", OF fl ok tle_event_facts(1-3)])
  let ?s = "drift_state 0 j (drift_db ?x station ([] @ [row]) (store_event ev' [?ev]) n)
      (((\<lambda>_. None)(''a'' \<mapsto> drift_flight ?ev 0 station [row]))(''a'' := None))"
  have "(drift_step {''a''})\<^sup>*\<^sup>* drift_start ?s"
    using r s1(1) s2(1) by (meson rtranclp_trans rtranclp.rtrancl_into_rtrancl)
  moreover have "store_event ev' [?ev] = [ev']" using s2(3) by (simp add: store_event_def update_where_def)
  moreover have "concerns ev' ?x" using s2(4) by (simp add: concerns_def tle_event_facts tle_row_facts)
  ultimately show ?thesis using s2(2) by (intro that[of ?s ?x station]) (simp_all add: events_of_def)
qed

subsection \<open>Two outbox workers\<close>

lemma two_worker_run:
  obtains s x station where "(drift_step {''a'', ''b''})\<^sup>*\<^sup>* drift_start s" "satellites (sv_db s) = [x]" "stations (sv_db s) = [station]"
    "list_all (\<lambda>ev. ev_status ev = PROCESSED) (events (sv_db s))" "sv_flights s = (\<lambda>_. None)"
    "length (pair_content (sv_db s) (sat_id x) (st_id station)) = 2"
proof -
  let ?W = "{''a'', ''b''}" and ?now = "seconds 7300"
  let ?x1 = "tle_row sample_tle None" and ?e1 = "tle_event 1 0"
  let ?x2 = "tle_row later_tle (Some ?now)" and ?e2 = "tle_event 2 ?now"
  obtain j station n where r: "(drift_step ?W)\<^sup>*\<^sup>* drift_start (drift_state 0 j (drift_db ?x1 station [] [?e1] n) (\<lambda>_. None))"
    and j: "job_status j = PENDING" "job_name j = ''tle_refresh''" "next_run_at j \<le> ?now" by (rule first_refresh)
  have s1: "drift_step ?W (drift_state 0 j (drift_db ?x1 station [] [?e1] n) (\<lambda>_. None))
      (drift_state ?now j (drift_db ?x1 station [] [?e1] n) (\<lambda>_. None))"
    using service_step.tick[of "drift_state 0 j (drift_db ?x1 station [] [?e1] n) (\<lambda>_. None)" ?now] by simp
  have nx: "next_event sample_round [?e1] = Some ?e1"
    by (simp add: next_event_def select_order_by_def ready_def sample_round_def tle_event_facts)
  have sid: "payload_satellite_id (ev_payload ?e1) = Inr (sat_id ?x1)" "payload_satellite_id (ev_payload ?e2) = Inr (sat_id ?x2)"
    by (simp_all add: tle_event_facts tle_row_facts)
  have w: "''a'' \<in> ?W" "(\<lambda>_. None) ''a'' = None"
    "\<forall>f \<in> ran (\<lambda>_. None :: plain_wkb flight option). ev_id (fl_event f) \<in> set (rd_locked sample_round)" by (simp_all add: ran_def)
  have t: "0 \<le> ?now" "?now \<le> pass_time (tle_line2 ?x1)" "pass_time (tle_line2 ?x1) \<le> seconds 20000"
    "?now \<le> pass_time (tle_line2 ?x2)" "pass_time (tle_line2 ?x2) \<le> seconds 20000"
    by (simp_all add: tle_row_facts)
  obtain ra where s2: "(drift_step ?W)\<^sup>*\<^sup>* (drift_state ?now j (drift_db ?x1 station [] [?e1] n) (\<lambda>_. None))
      (drift_state ?now j (drift_db ?x1 station [] [?e1] n) ((\<lambda>_. None)(''a'' \<mapsto> drift_flight ?e1 ?now station [ra])))"
    "pp_id ra = sample_gen []" "pass_key ra = (sat_id ?x1, st_id station, pass_time (tle_line2 ?x1))"
    by (rule drift_session[OF w nx sid(1) t(1-3)])
  let ?fa = "(\<lambda>_. None)(''a'' \<mapsto> drift_flight ?e1 ?now station [ra])"
  obtain n2 where "tle_refresh default_settings small_gen ?now drift_sky (\<lambda>_. Inr [later_tle]) (drift_db ?x1 station [] [?e1] n) =
      (None, drift_db ?x2 station [] [?e1, ?e2] n2)"
    using second_ingest[of "drift_db ?x1 station [] [?e1] n" ?now] by (auto simp: drift_db_def)
  note ingest = this
  have due: "next_run_at j \<le> poll_now later_poll" "next_run_at j \<le> ck_due (poll_clk later_poll 0)"
    using j(3) by (simp_all add: later_poll_def)
  obtain j2 where s3: "drift_step ?W (drift_state ?now j (drift_db ?x1 station [] [?e1] n) ?fa)
      (drift_state ?now j2 (drift_db ?x2 station [] [?e1, ?e2] n2) ?fa)"
    by (rule drift_poll[OF j(1,2) due ingest])
  let ?rd = "sample_round\<lparr>rd_now := ?now, rd_locked := [1]\<rparr>"
  have nxb: "next_event ?rd [?e1, ?e2] = Some ?e2"
    by (simp add: next_event_def select_order_by_def ready_def sample_round_def tle_event_facts)
  have b: "''b'' \<in> ?W" "?fa ''b'' = None" "\<forall>f \<in> ran ?fa. ev_id (fl_event f) \<in> set (rd_locked ?rd)"
    by (simp_all add: ran_def drift_flight_def tle_event_facts)
  obtain rb where s4: "(drift_step ?W)\<^sup>*\<^sup>* (drift_state ?now j2 (drift_db ?x2 station [] [?e1, ?e2] n2) ?fa)
      (drift_state ?now j2 (drift_db ?x2 station [] [?e1, ?e2] n2) (?fa(''b'' \<mapsto> drift_flight ?e2 ?now station [rb])))"
    "pp_id rb = (\<lambda>_. 2) []" "pass_key rb = (sat_id ?x2, st_id station, pass_time (tle_line2 ?x2))"
    by (rule drift_session[OF b nxb sid(2) t(1,4,5)])
  let ?fb = "?fa(''b'' \<mapsto> drift_flight ?e2 ?now station [rb])"
  have okb: "predictions_ok [?x2] [station] ([] @ [rb])" and ok: "predictions_ok [?x2] [station] ([rb] @ [ra])"
    using s2(2,3) s4(2,3) by (auto simp: predictions_ok_def pass_key_def tle_row_facts sample_gen_def)
  have fb: "?fb ''b'' = Some (drift_flight ?e2 ?now station [rb])" by simp
  obtain e2 where s5: "drift_step ?W (drift_state ?now j2 (drift_db ?x2 station [] [?e1, ?e2] n2) ?fb)
      (drift_state ?now j2 (drift_db ?x2 station ([] @ [rb]) (store_event e2 [?e1, ?e2]) n2) (?fb(''b'' := None)))"
    "ev_status e2 = PROCESSED" "ev_id e2 = ev_id ?e2" "ev_payload e2 = ev_payload ?e2"
    by (rule drift_settle[where fl = ?fb, OF fb okb tle_event_facts(1-3)])
  have fa: "(?fb(''b'' := None)) ''a'' = Some (drift_flight ?e1 ?now station [ra])" by simp
  obtain e1 where s6: "drift_step ?W (drift_state ?now j2 (drift_db ?x2 station [rb] (store_event e2 [?e1, ?e2]) n2) (?fb(''b'' := None)))
      (drift_state ?now j2 (drift_db ?x2 station ([rb] @ [ra]) (store_event e1 (store_event e2 [?e1, ?e2])) n2)
        ((?fb(''b'' := None))(''a'' := None)))"
    "ev_status e1 = PROCESSED" "ev_id e1 = ev_id ?e1" "ev_payload e1 = ev_payload ?e1"
    by (rule drift_settle[where fl = "?fb(''b'' := None)" and rows = "[rb]", OF fa ok tle_event_facts(1-3)])
  let ?s = "drift_state ?now j2 (drift_db ?x2 station ([rb] @ [ra]) (store_event e1 (store_event e2 [?e1, ?e2])) n2)
        ((?fb(''b'' := None))(''a'' := None))"
  have "(drift_step ?W)\<^sup>*\<^sup>* drift_start (drift_state ?now j2 (drift_db ?x2 station [] [?e1, ?e2] n2) ?fa)"
    using r s1 s2(1) s3 by (meson rtranclp_trans rtranclp.rtrancl_into_rtrancl)
  then have "(drift_step ?W)\<^sup>*\<^sup>* drift_start ?s"
    using s4(1) s5(1) s6(1) unfolding append_Nil by (meson rtranclp_trans rtranclp.rtrancl_into_rtrancl)
  moreover have "store_event e1 (store_event e2 [?e1, ?e2]) = [e1, e2]"
    using s5(3) s6(3) by (simp add: store_event_def update_where_def tle_event_facts)
  moreover have "length (pair_content (sv_db ?s) (sat_id ?x2) (st_id station)) = 2"
    using s2(3) s4(3) by (simp add: pair_content_def of_pair_def pass_key_def tle_row_facts)
  moreover have "sv_flights ?s = (\<lambda>_. None)" by auto
  ultimately show ?thesis using s5(2) s6(2) by (intro that[of ?s ?x2 station]) simp_all
qed

end
