(* ===== verification/Served.thy ===== *)
theory Served
  imports Scenario
begin

text \<open>
  What the service promises its users: the properties of all its runs with one outbox worker, from the
  invariant of the theory \<open>Service\<close>, and what two outbox workers can do to it.
\<close>

subsection \<open>What the API serves\<close>

text \<open>The times and the elevation of a pass, in an answer and in the pass service's result.\<close>

definition view_times :: "pass_read \<Rightarrow> datetime \<times> datetime \<times> datetime \<times> real" where
  "view_times v = (pr_aos_at v, pr_los_at v, pr_peak_at v, pr_peak_elevation_deg v)"

definition pass_times :: "satellite_pass \<Rightarrow> datetime \<times> datetime \<times> datetime \<times> real" where
  "pass_times p = (aos_at p, los_at p, peak_at p, peak_elevation_deg p)"

lemma stored_passes_after:
  "map row_content rows = map (stored_pass lib) passes \<Longrightarrow>
   map (\<lambda>p. (pp_aos_at p, pp_los_at p, pp_peak_at p, pp_peak_elevation_deg p)) (filter (\<lambda>p. t \<le> pp_aos_at p) rows) =
     map pass_times (filter (\<lambda>p. t \<le> aos_at p) passes) \<and> map pp_aos_at rows = map aos_at passes"
proof (induction rows arbitrary: passes)
  case (Cons r rows)
  then obtain p ps where p: "passes = p # ps" "row_content r = stored_pass lib p" "map row_content rows = map (stored_pass lib) ps"
    by auto
  then show ?case using Cons.IH[OF p(3)] by (simp add: row_content_def stored_pass_def pass_times_def)
qed simp

lemma filter_views:
  assumes "list_all2 (view_of_row d) rows views" and "db_ok d" and "s \<in> set (satellites d)"
  shows "map view_times (filter (\<lambda>v. pr_norad_id v = norad_id s) (map pass_read_of views)) =
    map (\<lambda>p. (pp_aos_at p, pp_los_at p, pp_peak_at p, pp_peak_elevation_deg p)) (filter (\<lambda>p. satellite_id p = sat_id s) rows)"
  using assms(1)
proof (induction rule: list_all2_induct)
  case (Cons p rows v views)
  obtain x where x: "x \<in> set (satellites d)" "sat_id x = satellite_id p" "pv_norad_id v = norad_id x"
    using Cons(1) by (auto simp: view_of_row_def dest: lookup_SomeD)
  have "norad_id x = norad_id s \<longleftrightarrow> sat_id x = sat_id s"
    using unique_column[OF db_okD(5)[OF assms(2)] x(1) assms(3)] unique_column[OF db_okD(6)[OF assms(2)] x(1) assms(3)] by auto
  then show ?case using Cons x by (auto simp: view_of_row_def view_times_def pass_read_of_def)
qed simp

lemma station_views:
  assumes "db_ok d" and "shapely_ok lib" and "tracks_ok lib d" and "station \<in> set (stations d)" and s: "s \<in> set (satellites d)"
    and content: "pair_content d (sat_id s) (st_id station) = map (stored_pass lib) passes" and "sorted (map aos_at passes)"
  shows "\<exists>views. get_ground_station_passes lib collate (st_id station) t d = Inr views \<and> sorted (map pv_aos_at views) \<and>
    map view_times (filter (\<lambda>v. pr_norad_id v = norad_id s) (map pass_read_of views)) = map pass_times (filter (\<lambda>p. t \<le> aos_at p) passes)"
proof -
  let ?found = "\<lambda>p. ground_station_id p = st_id station \<and> t \<le> pp_aos_at p"
  let ?pair = "filter (of_pair (sat_id s) (st_id station)) (predictions d)"
  obtain views where v: "get_ground_station_passes lib collate (st_id station) t d = Inr views" "sorted (map pv_aos_at views)"
    "list_all2 (view_of_row d) (sort_key pp_aos_at (filter ?found (predictions d))) views"
    using station_passes_result[OF assms(1-3), of "st_id station" collate t] assms(4) by (auto split: if_splits)
  note rows = stored_passes_after[OF content[unfolded pair_content_def], of t]
  have "filter (\<lambda>p. satellite_id p = sat_id s) (sort_key pp_aos_at (filter ?found (predictions d))) =
      sort_key pp_aos_at (filter (\<lambda>p. t \<le> pp_aos_at p) ?pair)"
    unfolding filter_sort filter_filter of_pair_def by (rule arg_cong[of _ _ "sort_key pp_aos_at"]) (auto intro: filter_cong)
  also have "\<dots> = filter (\<lambda>p. t \<le> pp_aos_at p) (sort_key pp_aos_at ?pair)" by (simp only: filter_sort)
  also have "sort_key pp_aos_at ?pair = ?pair" using rows assms(7) by (intro sort_key_id_if_sorted) simp
  finally show ?thesis using v(1,2) filter_views[OF v(3) assms(1) s] rows by auto
qed

text \<open>The passes a window gives rise one after the other.\<close>

lemma passes_for_sorted:
  assumes "passes_for sky lib (horizon_window cfg t0) 10 24 s station = Inr passes" and "skyfield_ok sky"
  shows "sorted (map aos_at passes)"
proof -
  obtain e where "EarthSatellite sky (tle_line1 s) (tle_line2 s) = Inr e"
    using assms(1) by (auto simp: passes_for_def compute_passes_def build_satellite_def horizon_window_def rbind_eq_Inr split: if_splits)
  then show ?thesis
    using compute_passes_order(3)[OF _ _ assms(2)] assms(1) by (auto simp: passes_for_def horizon_window_def)
qed

subsection \<open>Properties\<close>





text \<open>C7. Two outbox workers (two processes or replicas) can leave stale predictions until the next refresh. There is a run
  of the migrated service with two workers, each event held by one worker at a time, after which every
  event is processed and no session is under way, but the predictions of the satellite for a station
  are not the passes of its stored TLE over the horizon from any time: a worker in the middle of an event
  when the satellite is refreshed commits after the worker that processes the new event, so passes of
  the replaced TLE stay beside the current ones.\<close>

theorem two_workers_leave_stale_passes:
  "\<exists>s x station. service_start drift_start \<and> (drift_step {''a'', ''b''})\<^sup>*\<^sup>* drift_start s \<and>
     satellites (sv_db s) = [x] \<and> stations (sv_db s) = [station] \<and>
     list_all (\<lambda>ev. ev_status ev = PROCESSED) (events (sv_db s)) \<and> sv_flights s = (\<lambda>_. None) \<and>
     (\<nexists>t0 passes. passes_for drift_sky plain_shapely (horizon_window default_settings t0) 10 24 x station = Inr passes \<and>
        pair_content (sv_db s) (sat_id x) (st_id station) = map (stored_pass plain_shapely) passes)"
proof -
  obtain s x station where s: "(drift_step {''a'', ''b''})\<^sup>*\<^sup>* drift_start s" "satellites (sv_db s) = [x]" "stations (sv_db s) = [station]"
    "list_all (\<lambda>ev. ev_status ev = PROCESSED) (events (sv_db s))" "sv_flights s = (\<lambda>_. None)"
    and two: "length (pair_content (sv_db s) (sat_id x) (st_id station)) = 2"
    by (rule two_worker_run)
  have "pair_content (sv_db s) (sat_id x) (st_id station) \<noteq> map (stored_pass plain_shapely) passes"
    if "passes_for drift_sky plain_shapely (horizon_window default_settings t0) 10 24 x station = Inr passes" for t0 passes
    using drift_passes[OF that] two by auto
  then show ?thesis using s drift_service_start by blast
qed

end
