(* ===== verification/Soundness.thy ===== *)
theory Soundness
  imports Scenario
begin

text \<open>
  What holds of the service with any number of outbox workers: the tables keep their constraints, a
  pending event is held by one session at most, and nothing that was committed is lost. The
  predictions may be those of an older TLE then (the theory \<open>Served\<close>), but they are never rows that
  break a key. The lemmas follow each kind of step; the commit of a session is checked against what
  the others have committed.
\<close>

subsection \<open>What later states keep\<close>

text \<open>
  Rows are not lost: stations stay as they are, satellites keep their ids, events their type, payload
  and attempts so far, and an event that is not pending any more is never changed.
\<close>

definition event_kept :: "event \<Rightarrow> event \<Rightarrow> bool" where
  "event_kept ev ev' \<longleftrightarrow> ev_id ev' = ev_id ev \<and> event_type ev' = event_type ev \<and> ev_payload ev' = ev_payload ev \<and>
     max_retries ev' = max_retries ev \<and> retry_count ev \<le> retry_count ev' \<and> (ev_status ev \<noteq> PENDING \<longrightarrow> ev' = ev)"

definition history_kept :: "'w db \<Rightarrow> 'w db \<Rightarrow> bool" where
  "history_kept d d' \<longleftrightarrow> set (stations d) \<subseteq> set (stations d') \<and> sat_id ` set (satellites d) \<subseteq> sat_id ` set (satellites d') \<and>
     (\<forall>ev \<in> set (events d). \<exists>ev' \<in> set (events d'). event_kept ev ev')"

lemma event_kept_refl: "event_kept ev ev"
  by (simp add: event_kept_def)

lemma history_kept_trans: "history_kept d d' \<Longrightarrow> history_kept d' d'' \<Longrightarrow> history_kept d d''"
  unfolding history_kept_def event_kept_def by (metis (no_types, lifting) order_trans)

text \<open>Most steps only add rows.\<close>

definition grown :: "'w db \<Rightarrow> 'w db \<Rightarrow> bool" where
  "grown d d' \<longleftrightarrow> set (stations d) \<subseteq> set (stations d') \<and> sat_id ` set (satellites d) \<subseteq> sat_id ` set (satellites d') \<and>
     set (events d) \<subseteq> set (events d')"

lemma grown_kept: "grown d d' \<Longrightarrow> history_kept d d'"
  unfolding grown_def history_kept_def using event_kept_refl by blast

lemma grown_refl [simp]: "grown d d"
  by (simp add: grown_def)

lemma history_kept_refl [simp]: "history_kept d d"
  by (rule grown_kept[OF grown_refl])

subsection \<open>The commit of a session\<close>

lemma insert_rows_ok:
  assumes "fold_r (insert_row d) new rows = Inr rows'" and "predictions_ok (satellites d) (stations d) rows"
  shows "predictions_ok (satellites d) (stations d) rows'"
proof (rule fold_r_invariant[OF assms(1), where P = "predictions_ok (satellites d) (stations d)"])
  fix row rows rows' assume ok: "predictions_ok (satellites d) (stations d) rows" and "insert_row d row rows = Inr rows'"
  then have "rows' = rows @ [row]" "prediction_violation (satellites d) (stations d) row rows = None"
    by (auto simp: insert_row_def rbind_eq_Inr repo_create_def split: option.splits)
  then show "predictions_ok (satellites d) (stations d) rows'"
    using ok by (auto simp: predictions_ok_def prediction_violation_def split: if_splits)
qed (rule assms(2))

lemma rows_left_ok: "predictions_ok sats stats (predictions d) \<Longrightarrow> predictions_ok sats stats (rows_left f d)"
  by (auto simp: predictions_ok_def rows_left_def distinct_map_filter)

text \<open>Whatever others have committed: the tables stay sound, and only the predictions change.\<close>

lemma commit_keeps:
  assumes "db_ok d"
  shows "\<exists>rows. snd (commit_flight f d) = d\<lparr>predictions := rows\<rparr> \<and> predictions_ok (satellites d) (stations d) rows"
proof (cases "rbind (payload_satellite_id (fl_payload f)) (\<lambda>_. fold_r (insert_row d) (fl_inserted f) (rows_left f d))")
  case (Inl e)
  then show ?thesis using db_okD(3)[OF assms] by (intro exI[of _ "predictions d"]) (simp add: commit_flight_def)
next
  case (Inr rows)
  then have "fold_r (insert_row d) (fl_inserted f) (rows_left f d) = Inr rows" by (simp add: rbind_eq_Inr)
  from insert_rows_ok[OF this rows_left_ok[OF db_okD(3)[OF assms]]] show ?thesis
    by (intro exI[of _ rows]) (simp add: commit_flight_def Inr)
qed

text \<open>The attempt leaves the tables as they were, or as its session left them.\<close>

lemma flight_attempt:
  assumes "handle_event tb (flight_dispatcher (x, d1)) rd ev d = (r, d')"
  shows "d' \<in> {d, d1}"
  using assms
  by (auto simp: handle_event_def dispatch_run flight_dispatcher_def register_handler_def handlers_for_def
      split: prod.splits option.splits if_splits sum.splits)

lemma attempt_keeps:
  assumes "db_ok d" and "handle_event tb (flight_dispatcher (cut_off intr (commit_flight f) d)) rd ev d = (r, d')"
  shows "\<exists>rows. d' = d\<lparr>predictions := rows\<rparr> \<and> predictions_ok (satellites d) (stations d) rows"
proof -
  obtain x d1 where ending: "cut_off intr (commit_flight f) d = (x, d1)" by fastforce
  have "d' = d \<or> d' = d1" using flight_attempt assms(2) unfolding ending by blast
  moreover have "d1 = d \<or> d1 = snd (commit_flight f d)" using snd_cut_off[of intr "commit_flight f" d] by (simp add: ending)
  ultimately show ?thesis using commit_keeps[OF assms(1), of f] db_okD(3)[OF assms(1)] by (metis db.surjective db.update_convs(3))
qed

lemma attempt_stored:
  assumes ok: "db_ok d" and ev: "ev \<in> set (events d)" "ev_status ev = PENDING"
    and run: "handle_event tb (flight_dispatcher (cut_off intr (commit_flight f) d)) rd ev d = (Inr ev', d')"
  shows "db_ok (d'\<lparr>events := store_event ev' (events d')\<rparr>)" "history_kept d (d'\<lparr>events := store_event ev' (events d')\<rparr>)"
    "x \<in> set (events d) \<Longrightarrow> ev_id x \<noteq> ev_id ev \<Longrightarrow> x \<in> set (store_event ev' (events d'))"
proof -
  obtain rows where d': "d' = d\<lparr>predictions := rows\<rparr>" "predictions_ok (satellites d) (stations d) rows"
    using attempt_keeps[OF ok run] by blast
  note stat = handle_event_static[OF run]
  have evok: "event_ok ev" using db_okD(4)[OF ok] ev(1) by (simp add: events_ok_def)
  note ok' = handle_event_ok[OF evok ev(2) run]
  show "db_ok (d'\<lparr>events := store_event ev' (events d')\<rparr>)"
    using ok d' events_ok_store[OF _ ok'(1)] by (simp add: db_ok_def)
  have one: "x = ev" if "x \<in> set (events d)" "ev_id x = ev_id ev" for x
    using unique_column[of ev_id "events d"] db_okD(4)[OF ok] that ev(1) by (auto simp: events_ok_def)
  have mem: "(if ev_id x = ev_id ev then ev' else x) \<in> set (store_event ev' (events d))" if "x \<in> set (events d)" for x
    using that stat(1) by (auto simp: store_event_def update_where_def)
  have "event_kept x (if ev_id x = ev_id ev then ev' else x)" if "x \<in> set (events d)" for x
    using one[OF that] stat ev(2) by (auto simp: event_kept_def)
  then have "\<forall>x \<in> set (events d). \<exists>y \<in> set (store_event ev' (events d)). event_kept x y" using mem by blast
  then show "history_kept d (d'\<lparr>events := store_event ev' (events d')\<rparr>)" by (simp add: history_kept_def d')
  show "x \<in> set (store_event ev' (events d'))" if "x \<in> set (events d)" "ev_id x \<noteq> ev_id ev"
    using mem[OF that(1)] that(2) by (simp add: d')
qed

subsection \<open>Polls and requests\<close>

lemma record_grows:
  assumes "db_ok d" and "ingest_record cfg gen tnow sky rec (d, n) = Inr (d', n')"
  shows "db_ok d'" "grown d d'"
proof -
  have "db_ok d' \<and> grown d d'"
  proof (cases "up_to_date d rec")
    case True
    then show ?thesis using ingest_record_step(2)[OF assms] assms(1) by simp
  next
    case False
    then have "ingested_one sky rec d d'" using ingest_record_step(2)[OF assms] by simp
    then obtain s ev where "upserted s (satellites d) (satellites d')" "events d' = events d @ [ev]"
      "stations d' = stations d" "db_ok d'" unfolding ingested_one_def by blast
    then show ?thesis by (simp add: upserted_def grown_def subset_insertI)
  qed
  then show "db_ok d'" "grown d d'" by simp_all
qed

lemma grown_trans: "grown d d' \<Longrightarrow> grown d' d'' \<Longrightarrow> grown d d''"
  unfolding grown_def by (meson subset_trans)

interpretation growing: ingest_invariant cfg gen tnow sky "\<lambda>d. db_ok d \<and> grown d0 d"
  for cfg gen tnow and sky :: "('s, 'o, 't) skyfield" and d0 :: "'w db"
  by unfold_locales (blast intro: record_grows grown_trans)

lemma request_grows:
  assumes "handle_request gen now lib collate is_ready req d = (resp, d')" and "db_ok d"
  shows "db_ok d'" "grown d d'"
  using request_commits[OF assms(1)] assms(2) db_ok_post[OF assms(2)] by (auto simp: grown_def)

subsection \<open>The invariant\<close>

text \<open>Every session holds a pending event of its own.\<close>

definition holds_own :: "'w service \<Rightarrow> bool" where
  "holds_own s \<longleftrightarrow> (\<forall>v f. sv_flights s v = Some f \<longrightarrow>
     fl_event f \<in> set (events (sv_db s)) \<and> ev_status (fl_event f) = PENDING \<and>
     (\<forall>u g. sv_flights s u = Some g \<longrightarrow> ev_id (fl_event g) = ev_id (fl_event f) \<longrightarrow> u = v))"

lemma holds_ownD:
  assumes "holds_own s" and "sv_flights s v = Some f"
  shows "fl_event f \<in> set (events (sv_db s))" "ev_status (fl_event f) = PENDING"
    "sv_flights s u = Some g \<Longrightarrow> ev_id (fl_event g) = ev_id (fl_event f) \<Longrightarrow> u = v"
  using assms unfolding holds_own_def by metis+

definition service_sound :: "'w service \<Rightarrow> bool" where
  "service_sound s \<longleftrightarrow> jobs_ok (sv_jobs s) \<and> db_ok (sv_db s) \<and> holds_own s"

lemma start_sound: "service_start s \<Longrightarrow> service_sound s"
proof -
  assume "service_start s"
  moreover from this obtain gen now where "sv_jobs s = [tle_refresh_seed gen now]"
    using upgrade_runs[of _ _ "[]"] by (auto simp: service_start_def empty_pg_def)
  moreover have "jobs_ok [tle_refresh_seed gen now]"
    by (simp add: jobs_ok_def job_ok_def tle_refresh_seed_def seeded_job_def)
  ultimately show ?thesis
    by (simp add: service_sound_def holds_own_def service_start_def db_ok_def satellites_ok_def stations_ok_def
        predictions_ok_def events_ok_def)
qed

lemma holds_own_grown:
  "holds_own s \<Longrightarrow> sv_flights t = sv_flights s \<Longrightarrow> grown (sv_db s) (sv_db t) \<Longrightarrow> holds_own t"
  unfolding holds_own_def grown_def by auto

lemma flight_station_event: "flight_station cfg gen tnow sky lib station d f = Inr f' \<Longrightarrow> fl_event f' = fl_event f"
  by (auto simp: flight_station_def rbind_eq_Inr Let_def)

lemma step_sound:
  assumes inv: "service_sound s" and step: "service_step cfg tb sky lib collate workers s t"
  shows "service_sound t \<and> history_kept (sv_db s) (sv_db t)"
proof -
  have jobs: "jobs_ok (sv_jobs s)" and ok: "db_ok (sv_db s)" and own: "holds_own s"
    using inv by (simp_all add: service_sound_def)
  from step show ?thesis
  proof cases
    case (tick t')
    then show ?thesis using inv by (simp add: service_sound_def holds_own_def)
  next
    case (request gen is_ready req resp d)
    note g = request_grows[OF request(2) ok]
    have "holds_own t" by (rule holds_own_grown[OF own]) (simp_all add: request(1) g(2))
    then show ?thesis using jobs g grown_kept by (simp add: service_sound_def request(1))
  next
    case (poll gen intr tnow fetch wid p r jobs' d)
    have g: "db_ok d \<and> grown (sv_db s) d" using growing.jobs.worker_cycle_keeps[OF poll(3), of "sv_db s"] ok by simp
    have "holds_own t" by (rule holds_own_grown[OF own]) (simp_all add: poll(1) g)
    then show ?thesis using jobs_ok_cycle[OF jobs poll(3)] g grown_kept[of "sv_db s" d] by (simp add: service_sound_def poll(1))
  next
    case (claim w rd ev)
    have ev: "ev \<in> set (events (sv_db s))" "ev_status ev = PENDING" "ev_id ev \<notin> set (rd_locked rd)"
      using next_event_Some(1,2)[OF claim(5)] by (auto simp: ready_def)
    then have "ev_id (fl_event f) \<noteq> ev_id ev" "ev_id ev \<noteq> ev_id (fl_event f)" if "sv_flights s v = Some f" for v f
      using claim(4) that by (metis ranI)+
    moreover have "fl_event (begin_flight collate ev (sv_now s) (sv_db s)) = ev" by (simp add: begin_flight_def)
    ultimately have "holds_own t" using own ev unfolding holds_own_def claim(1) by (auto split: if_splits)
    then show ?thesis using jobs ok by (simp add: service_sound_def claim(1))
  next
    case (station w f st rest gen tnow f')
    have "holds_own t"
      using own flight_station_event[OF station(4)] station(2) unfolding holds_own_def station(1)
      by (auto split: if_splits)
    then show ?thesis using jobs ok by (simp add: service_sound_def station(1))
  next
    case (settle w f intr rd ev' d)
    have ev: "fl_event f \<in> set (events (sv_db s))" "ev_status (fl_event f) = PENDING"
      using own settle(2) by (simp_all add: holds_own_def)
    note a = attempt_stored[OF ok ev settle(4)]
    have "fl_event g \<in> set (store_event ev' (events d))" if "sv_flights s v = Some g" "v \<noteq> w" for v g
      using own settle(2) a(3) that unfolding holds_own_def by metis
    then have "holds_own t"
      using own unfolding holds_own_def settle(1) by (auto split: if_splits)
    then show ?thesis using jobs a(1,2) by (simp add: service_sound_def settle(1))
  next
    case (lost w f intr rd r d)
    obtain rows where d: "d = (sv_db s)\<lparr>predictions := rows\<rparr>" "predictions_ok (satellites (sv_db s)) (stations (sv_db s)) rows"
      using attempt_keeps[OF ok lost(4)] by blast
    have "db_ok d" using ok d by (simp add: db_ok_def)
    moreover have "history_kept (sv_db s) d" by (rule grown_kept) (simp add: grown_def d)
    moreover have "holds_own t"
      using own unfolding holds_own_def lost(1) by (auto simp: d split: if_splits)
    ultimately show ?thesis using jobs by (simp add: service_sound_def lost(1))
  qed
qed

interpretation sound: transition_system service_start "service_step cfg tb sky lib collate workers" service_sound
  for cfg tb and sky :: "('s, 'o, 't) skyfield" and lib :: "('g, 'w) shapely" and collate workers
  by unfold_locales (use start_sound step_sound in blast)+

lemma steps_sound:
  "(service_step cfg tb sky lib collate workers)\<^sup>*\<^sup>* s t \<Longrightarrow> service_sound s \<Longrightarrow> history_kept (sv_db s) (sv_db t)"
proof (induction rule: rtranclp_induct)
  case (step t u)
  then have "service_sound t" using sound.inv_steps by blast
  then show ?case using step_sound step history_kept_trans by blast
qed simp

subsection \<open>Property\<close>

text \<open>C8. Nothing committed is lost, however many outbox workers there are. Take any state the service reaches
  from the migrated, empty tables, and any state it reaches later, with requests, polls, single steps of
  sessions, timeouts and crashes in any order. All tables keep their constraints (keys, references, the
  rows' own invariants), a pending event is held by one session at most and none holds a finished one,
  every station and satellite is still there, and every event keeps its type, payload and attempts, an
  event that is PROCESSED or FAILED without any change.\<close>

theorem tables_stay_sound:
  assumes "service_start s0" and "(service_step cfg tb sky lib collate workers)\<^sup>*\<^sup>* s0 s"
    and "(service_step cfg tb sky lib collate workers)\<^sup>*\<^sup>* s t"
  shows "jobs_ok (sv_jobs t) \<and> db_ok (sv_db t) \<and>
    (\<forall>v f. sv_flights t v = Some f \<longrightarrow> ev_status (fl_event f) = PENDING \<and>
       (\<forall>u g. sv_flights t u = Some g \<longrightarrow> ev_id (fl_event g) = ev_id (fl_event f) \<longrightarrow> u = v)) \<and>
    set (stations (sv_db s)) \<subseteq> set (stations (sv_db t)) \<and>
    sat_id ` set (satellites (sv_db s)) \<subseteq> sat_id ` set (satellites (sv_db t)) \<and>
    (\<forall>ev \<in> set (events (sv_db s)). \<exists>ev' \<in> set (events (sv_db t)). event_kept ev ev')"
proof -
  have s: "service_sound s" by (rule sound.inv_reachable[OF assms(1,2)])
  then have "service_sound t" by (rule sound.inv_steps[OF assms(3)])
  then have t: "jobs_ok (sv_jobs t)" "db_ok (sv_db t)" "holds_own t" by (simp_all add: service_sound_def)
  have own: "\<forall>v f. sv_flights t v = Some f \<longrightarrow> ev_status (fl_event f) = PENDING \<and>
      (\<forall>u g. sv_flights t u = Some g \<longrightarrow> ev_id (fl_event g) = ev_id (fl_event f) \<longrightarrow> u = v)"
    by (intro allI impI conjI) (erule holds_ownD(2)[OF t(3)], erule (2) holds_ownD(3)[OF t(3)])
  note kept = steps_sound[OF assms(3) s, unfolded history_kept_def]
  show ?thesis by (intro conjI t(1,2) own conjunct1[OF kept] conjunct1[OF conjunct2[OF kept]] conjunct2[OF conjunct2[OF kept]])
qed

lemma tables_stay_sound_witness:
  "\<exists>s x. (drift_step {''a'', ''b''})\<^sup>*\<^sup>* drift_start s \<and> satellites (sv_db s) = [x] \<and> jobs_ok (sv_jobs s) \<and> db_ok (sv_db s)"
proof -
  obtain s x station where run: "(drift_step {''a'', ''b''})\<^sup>*\<^sup>* drift_start s" "satellites (sv_db s) = [x]"
    by (rule two_worker_run)
  note sound = tables_stay_sound[OF drift_service_start rtranclp.rtrancl_refl run(1)]
  show ?thesis by (intro exI[of _ s] exI[of _ x] conjI run conjunct1[OF sound] conjunct1[OF conjunct2[OF sound]])
qed

end
