(* ===== verification/Typing.thy ===== *)
theory Typing
  imports Soundness
begin

text \<open>
  The types of the stored data: in every run of the service each row of the tables is one that the
  columns of the migrated schema can hold. The lemmas are the bounds behind it: a catalog number has at
  most five characters, and an event's attempts are bounded by \<open>OUTBOX_MAX_RETRIES\<close>.
\<close>

subsection \<open>The range of catalog numbers\<close>

lemma parse_digits_bound: "0 < base \<Longrightarrow> parse_digits base acc us cs = Some n \<Longrightarrow> n < (acc + 1) * base ^ length cs"
proof (induction cs arbitrary: acc us)
  case (Cons c cs)
  show ?case
  proof (cases "c = CHR ''_''")
    case True
    then have "n < (acc + 1) * base ^ length cs" using Cons by (auto split: if_splits)
    moreover have "(acc + 1) * base ^ length cs \<le> (acc + 1) * base ^ length (c # cs)"
      using Cons.prems(1) by (intro mult_le_mono2 power_increasing) simp_all
    ultimately show ?thesis by (rule less_le_trans)
  next
    case False
    then obtain d where d: "d < base" "parse_digits base (acc * base + d) False cs = Some n"
      using Cons.prems by (auto split: option.splits if_splits)
    have "n < (acc * base + d + 1) * base ^ length cs" by (rule Cons.IH[OF Cons.prems(1) d(2)])
    also have "\<dots> \<le> ((acc + 1) * base) * base ^ length cs" using d(1) by (intro mult_right_mono) simp_all
    finally show ?thesis by (simp add: algebra_simps)
  qed
qed (simp split: if_splits)

lemma length_int_strip: "length (int_strip s) \<le> length s"
  using length_dropWhile_le[of int_space "rev (dropWhile int_space s)"] length_dropWhile_le[of int_space s]
  by (simp add: int_strip_def)

lemma norad_bound: "tle_norad_id l1 = Inr n \<Longrightarrow> \<bar>n\<bar> < 10 ^ 5"
proof -
  let ?s = "int_strip (slice 2 7 l1)"
  assume "tle_norad_id l1 = Inr n"
  then obtain m where m: "parse_digits 10 0 True (snd (split_sign ?s)) = Some m" "\<bar>n\<bar> = int m"
    by (auto simp: tle_norad_id_def py_int_def split: prod.splits option.splits if_splits)
  have "length (snd (split_sign ?s)) \<le> length ?s" by (auto simp: split_sign_def split: list.splits)
  also have "\<dots> \<le> 5" using length_int_strip[of "slice 2 7 l1"] by (simp add: slice_def)
  finally have "(10 :: nat) ^ length (snd (split_sign ?s)) \<le> 10 ^ 5" by (intro power_increasing) simp_all
  moreover have "m < 10 ^ length (snd (split_sign ?s))" using parse_digits_bound[OF _ m(1)] by simp
  ultimately have "m < 10 ^ 5" by simp
  then show ?thesis using m(2) by simp
qed

subsection \<open>The bounds as an invariant\<close>

definition bounded :: "settings \<Rightarrow> 'w db \<Rightarrow> bool" where
  "bounded cfg d \<longleftrightarrow> (\<forall>s \<in> set (satellites d). \<bar>norad_id s\<bar> < 10 ^ 5) \<and>
     (\<forall>ev \<in> set (events d). max_retries ev = OUTBOX_MAX_RETRIES cfg \<and> length (event_type ev) \<le> 255)"

lemma set_attrs_norad: "norad_id (set_attrs set_sat_attr data s) = norad_id s"
proof (induction data arbitrary: s)
  case (Cons a data)
  then show ?case by (cases a) simp_all
qed simp

lemma bounded_publish:
  "publish_refreshed cfg gen tnow s k d = Inr d' \<Longrightarrow> bounded cfg d \<Longrightarrow> bounded cfg d'"
  by (auto simp: publish_refreshed_def publish_def bounded_def rbind_eq_Inr Let_def split: if_splits)

lemma bounded_record:
  assumes "ingest_record cfg gen tnow sky rec (d, n) = Inr (d', n')" and "bounded cfg d"
  shows "bounded cfg d'"
proof -
  obtain m where m: "tle_norad_id (line1 rec) = Inr m" using assms(1) by (auto simp: ingest_record_def rbind_eq_Inr)
  have sats: "bounded cfg (d\<lparr>satellites := sats\<rparr>)" if "\<forall>s \<in> set sats. s \<in> set (satellites d) \<or> \<bar>norad_id s\<bar> < 10 ^ 5" for sats
    using that assms(2) by (auto simp: bounded_def)
  show ?thesis
  proof (cases "get_by_norad_id m (satellites d)")
    case None
    then obtain s sats where p: "publish_refreshed cfg gen tnow s m (d\<lparr>satellites := sats\<rparr>) = Inr d'"
      and s: "norad_id s = m" "sats = satellites d @ [s]"
      using assms(1) m by (auto simp: ingest_record_def rbind_eq_Inr repo_create_def split: option.splits)
    have "\<forall>x \<in> set sats. x \<in> set (satellites d) \<or> \<bar>norad_id x\<bar> < 10 ^ 5" using s norad_bound[OF m] by auto
    then show ?thesis using bounded_publish[OF p] sats by blast
  next
    case (Some s0)
    show ?thesis
    proof (cases "tle_line1 s0 \<noteq> line1 rec \<or> tle_line2 s0 \<noteq> line2 rec")
      case True
      then obtain data s sats where u: "update_satellite tnow s0 data (satellites d) = Inr (s, sats)"
        and p: "publish_refreshed cfg gen tnow s m (d\<lparr>satellites := sats\<rparr>) = Inr d'"
        using assms(1) m Some by (auto simp: ingest_record_def rbind_eq_Inr)
      have "s0 \<in> set (satellites d)" using Some by (auto simp: get_by_norad_id_lookup dest: lookup_SomeD)
      then have "\<bar>norad_id s0\<bar> < 10 ^ 5" using assms(2) by (simp add: bounded_def)
      then have "\<forall>x \<in> set sats. x \<in> set (satellites d) \<or> \<bar>norad_id x\<bar> < 10 ^ 5"
        using u by (auto simp: update_satellite_def repo_update_def Let_def set_attrs_norad update_where_def split: if_splits option.splits)
      then show ?thesis using bounded_publish[OF p] sats by blast
    next
      case False
      then show ?thesis using assms m Some by (simp add: ingest_record_def)
    qed
  qed
qed

interpretation bounded_refresh: ingest_invariant cfg gen tnow sky "bounded cfg"
  for cfg gen tnow and sky :: "('s, 'o, 't) skyfield"
  by unfold_locales (rule bounded_record)

text \<open>Everything else leaves the satellites and the constant parts of the events alone.\<close>

lemma bounded_cong: "satellites d' = satellites d \<Longrightarrow> events d' = events d \<Longrightarrow> bounded cfg d' = bounded cfg d"
  by (simp add: bounded_def)

lemma bounded_request: "handle_request gen now lib collate is_ready req d = (resp, d') \<Longrightarrow> bounded cfg d \<Longrightarrow> bounded cfg d'"
  using request_commits[of gen now lib collate is_ready req d resp d'] by (auto simp: bounded_def)

lemma bounded_settle:
  assumes ok: "db_ok d" and ev: "ev \<in> set (events d)"
    and run: "handle_event tb (flight_dispatcher (cut_off intr (commit_flight f) d)) rd ev d = (r, d')"
    and b: "bounded cfg d"
  shows "bounded cfg d'" "r = Inr ev' \<Longrightarrow> bounded cfg (d'\<lparr>events := store_event ev' (events d')\<rparr>)"
proof -
  have d': "satellites d' = satellites d" "events d' = events d" using attempt_keeps[OF ok run] by auto
  then show b': "bounded cfg d'" using b bounded_cong by blast
  assume "r = Inr ev'"
  note stat = handle_event_static[OF run[unfolded this]]
  have "x = ev' \<or> x \<in> set (events d')" if "x \<in> set (store_event ev' (events d'))" for x
    using that by (auto simp: store_event_def update_where_def)
  then show "bounded cfg (d'\<lparr>events := store_event ev' (events d')\<rparr>)"
    using b' b ev stat(2,4) unfolding bounded_def by (fastforce simp: d')
qed

interpretation typed: transition_system service_start "service_step cfg tb sky lib collate workers"
    "\<lambda>s. service_sound s \<and> bounded cfg (sv_db s)"
  for cfg tb and sky :: "('s, 'o, 't) skyfield" and lib :: "('g, 'w) shapely" and collate workers
proof unfold_locales
  fix s :: "'w service"
  assume "service_start s"
  moreover from this have "bounded cfg (sv_db s)" by (simp add: service_start_def bounded_def)
  ultimately show "service_sound s \<and> bounded cfg (sv_db s)" using start_sound by blast
next
  fix s t :: "'w service"
  assume inv: "service_sound s \<and> bounded cfg (sv_db s)" and step: "service_step cfg tb sky lib collate workers s t"
  then have ok: "db_ok (sv_db s)" and own: "holds_own s" and b: "bounded cfg (sv_db s)"
    by (simp_all add: service_sound_def)
  from step have "bounded cfg (sv_db t)"
  proof cases
    case (request gen is_ready req resp d)
    then show ?thesis using bounded_request[OF request(2) b] by simp
  next
    case (poll gen intr tnow fetch wid p r jobs' d)
    then show ?thesis using bounded_refresh.jobs.worker_cycle_keeps[OF poll(3) b] by simp
  next
    case (settle w f intr rd ev' d)
    then show ?thesis using bounded_settle(2)[OF ok holds_ownD(1)[OF own settle(2)] settle(4) b refl] by simp
  next
    case (lost w f intr rd r d)
    then show ?thesis using bounded_settle(1)[OF ok holds_ownD(1)[OF own lost(2)] lost(4) b] by simp
  qed (use b in simp_all)
  then show "service_sound t \<and> bounded cfg (sv_db t)" using step_sound inv step by blast
qed

subsection \<open>The rows and the schema\<close>

lemma rows_accepted:
  assumes "db_ok d" and "bounded cfg d" and "- (2 ^ 31) \<le> OUTBOX_MAX_RETRIES cfg" and "OUTBOX_MAX_RETRIES cfg < 2 ^ 31"
  shows "s \<in> set (satellites d) \<Longrightarrow> list_all (column_accepts (satellite_row s)) satellites_columns"
    "st \<in> set (stations d) \<Longrightarrow> list_all (column_accepts (station_row st)) ground_stations_columns"
    "list_all (column_accepts (prediction_row p)) pass_predictions_columns"
    "ev \<in> set (events d) \<Longrightarrow> list_all (column_accepts (event_row ev)) outbox_events_columns"
proof -
  show "list_all (column_accepts (satellite_row s)) satellites_columns" if "s \<in> set (satellites d)"
  proof -
    have "length (sat_name s) \<le> 255" "\<bar>norad_id s\<bar> < 10 ^ 5"
      using db_okD(1)[OF assms(1)] assms(2) that by (simp_all add: satellites_ok_def bounded_def)
    then show ?thesis by (auto simp: accept_defs)
  qed
  show "list_all (column_accepts (station_row st)) ground_stations_columns" if "st \<in> set (stations d)"
    using db_okD(2)[OF assms(1)] that by (auto simp: accept_defs stations_ok_def)
  show "list_all (column_accepts (prediction_row p)) pass_predictions_columns"
    by (auto simp: accept_defs)
  show "list_all (column_accepts (event_row ev)) outbox_events_columns" if "ev \<in> set (events d)"
  proof -
    have ok: "event_ok ev" "max_retries ev = OUTBOX_MAX_RETRIES cfg" "length (event_type ev) \<le> 255"
      using db_okD(4)[OF assms(1)] assms(2) that by (simp_all add: events_ok_def bounded_def)
    then have "0 \<le> retry_count ev" "retry_count ev \<le> max 1 (OUTBOX_MAX_RETRIES cfg)"
      by (auto simp: event_ok_def attempts_allowed_def split: row_status.splits)
    then show ?thesis using ok(2,3) assms(3,4) by (auto simp: accept_defs max_def split: if_splits)
  qed
qed

subsection \<open>Property\<close>



end
