(* ===== verification/Recovery.thy ===== *)
theory Recovery
  imports Soundness
begin

text \<open>
  The service comes back by itself. Whatever has happened in a run with one outbox worker (timeouts,
  cancellations, sessions lost before or after their commit, ingests in between), once the failures are
  over one batch of the worker, as the code runs it (\<open>process_batch\<close> with the registered handler),
  handles everything that was left pending. The variant of the batch is the number of pending events.
\<close>

subsection \<open>Stored elements can be propagated\<close>

text \<open>The ingest has built a satellite of every TLE it stores, so the handler can too.\<close>

definition loadable :: "('s, 'o, 't) skyfield \<Rightarrow> 'w db \<Rightarrow> bool" where
  "loadable sky d \<longleftrightarrow> (\<forall>s \<in> set (satellites d). \<exists>e. EarthSatellite sky (tle_line1 s) (tle_line2 s) = Inr e)"

lemma loadable_record:
  assumes "db_ok d" and "ingest_record cfg gen tnow sky rec (d, n) = Inr (d', n')" and "loadable sky d"
  shows "loadable sky d'"
proof (cases "up_to_date d rec")
  case True
  then show ?thesis using ingest_record_step(2)[OF assms(1,2)] assms(3) by simp
next
  case False
  then have "ingested_one sky rec d d'" using ingest_record_step(2)[OF assms(1,2)] by simp
  then obtain s where s: "refreshed_sat sky rec s" "upserted s (satellites d) (satellites d')"
    by (auto simp: ingested_one_def)
  from s(1) have "\<exists>e. EarthSatellite sky (tle_line1 s) (tle_line2 s) = Inr e"
    by (auto simp: refreshed_sat_def tle_epoch_def build_satellite_def rbind_eq_Inr)
  then show ?thesis using upserted_set[OF s(2)] assms(3) by (auto simp: loadable_def)
qed

interpretation loading: ingest_invariant cfg gen tnow sky "\<lambda>d. db_ok d \<and> loadable sky d"
  for cfg gen tnow and sky :: "('s, 'o, 't) skyfield"
  by unfold_locales (blast intro: record_grows loadable_record)

lemma loadable_cong: "satellites d' = satellites d \<Longrightarrow> loadable sky d' = loadable sky d"
  by (simp add: loadable_def)

interpretation recoverable: transition_system service_start "service_step cfg tb sky lib collate workers"
    "\<lambda>s. service_sound s \<and> loadable sky (sv_db s)"
  for cfg tb and sky :: "('s, 'o, 't) skyfield" and lib :: "('g, 'w) shapely" and collate workers
proof unfold_locales
  fix s :: "'w service"
  assume "service_start s"
  moreover from this have "loadable sky (sv_db s)" by (simp add: service_start_def loadable_def)
  ultimately show "service_sound s \<and> loadable sky (sv_db s)" using start_sound by blast
next
  fix s t :: "'w service"
  assume inv: "service_sound s \<and> loadable sky (sv_db s)" and step: "service_step cfg tb sky lib collate workers s t"
  then have ok: "db_ok (sv_db s)" and l: "loadable sky (sv_db s)" by (simp_all add: service_sound_def)
  from step have "loadable sky (sv_db t)"
  proof cases
    case (request gen is_ready req resp d)
    then show ?thesis using request_commits[OF request(2)] l by (auto simp: loadable_def)
  next
    case (poll gen intr tnow fetch wid p r jobs' d)
    then show ?thesis using loading.jobs.worker_cycle_keeps[OF poll(3)] ok l by simp
  next
    case (settle w f intr rd ev' d)
    have "satellites d = satellites (sv_db s)" using attempt_keeps[OF ok settle(4)] by auto
    then show ?thesis using l by (simp add: settle(1) loadable_def)
  next
    case (lost w f intr rd r d)
    have "satellites d = satellites (sv_db s)" using attempt_keeps[OF ok lost(4)] by auto
    then show ?thesis using l by (simp add: lost(1) loadable_def)
  qed (use l in simp_all)
  then show "service_sound t \<and> loadable sky (sv_db t)" using step_sound inv step by blast
qed

subsection \<open>One round of the batch\<close>

lemma round_recovers:
  assumes ok: "db_ok w" and lib: "fresh_ids gen" "skyfield_ok sky" "0 < PASS_PREDICTION_HORIZON_HOURS cfg"
    and x: "x \<in> set (satellites w)" "concerns ev x" and l: "loadable sky w"
    and ev: "event_consistent w ev" "ev_status ev = PENDING"
  obtains ev' w' where "handle_event tb (app_dispatcher cfg gen now tnow sky lib collate) rd ev w = (Inr ev', w')"
    "ev_status ev' = PROCESSED" "db_ok w'" "satellites w' = satellites w" "stations w' = stations w"
    "predicted cfg now sky lib x w'" "\<And>sid stid. sid \<noteq> sat_id x \<Longrightarrow> pair_content w' sid stid = pair_content w sid stid"
proof -
  have lk: "lookup sat_id (sat_id x) (satellites w) = Some x" by (rule lookup_unique[OF db_okD(5)[OF ok] x(1)])
  obtain e where "EarthSatellite sky (tle_line1 x) (tle_line2 x) = Inr e" using l x(1) by (auto simp: loadable_def)
  from recompute_completes[OF ok lib(1,2) lk this lib(3), of "ev_payload ev" now tnow lib collate] x(2)
  obtain w' where w': "recompute_passes cfg gen now tnow sky lib collate (ev_payload ev) w = (None, w')" "db_ok w'"
    "\<forall>station \<in> set (stations w). \<exists>passes. passes_for sky lib (horizon_window cfg now) 10 24 x station = Inr passes \<and>
       map row_content (filter (of_pair (sat_id x) (st_id station)) (predictions w')) = map (stored_pass lib) passes"
    "\<forall>sid stid. sid \<noteq> sat_id x \<longrightarrow> pair_content w' sid stid = pair_content w sid stid"
    "satellites w' = satellites w" "stations w' = stations w" unfolding concerns_def by blast
  have "handlers_for (app_dispatcher cfg gen now tnow sky lib collate) (event_type ev) =
      [(''recompute_passes'', recompute_passes cfg gen now tnow sky lib collate)]"
    "''recompute_passes'' \<notin> completed_of (handler_state ev)"
    using ev by (simp_all add: app_dispatcher_handlers event_consistent_def)
  from handle_event_fresh[OF this w'(1)] obtain ev' where
    h: "handle_event tb (app_dispatcher cfg gen now tnow sky lib collate) rd ev w = (Inr ev', w')" "ev_status ev' = PROCESSED"
    by blast
  have "predicted cfg now sky lib x w'" using w'(3) unfolding predicted_def w'(6) pair_content_def by blast
  then show ?thesis using that[OF h w'(2,5,6)] w'(4) by blast
qed

subsection \<open>The batch\<close>

text \<open>A satellite that an event still to be handled is about.\<close>

definition awaited :: "event list \<Rightarrow> satellite \<Rightarrow> bool" where
  "awaited evs x \<longleftrightarrow> (\<exists>ev \<in> set evs. ev_status ev = PENDING \<and> concerns ev x)"

lemma predicted_cong:
  "stations w' = stations w \<Longrightarrow> (\<And>stid. pair_content w' (sat_id x) stid = pair_content w (sat_id x) stid) \<Longrightarrow>
   predicted cfg now sky lib x w' = predicted cfg now sky lib x w"
  by (simp add: predicted_def)

lemma batch_recovers:
  assumes lib: "fresh_ids gen" "skyfield_ok sky" "0 < PASS_PREDICTION_HORIZON_HOURS cfg"
    and env: "\<forall>k. rd_locked (env k) = [] \<and> t \<le> rd_now (env k)"
    and "db_ok w" and "loadable sky w" and "events_ok evs" and "pending_count evs \<le> n"
    and "\<forall>ev \<in> set evs. event_consistent w ev \<and> (ev_status ev = PENDING \<longrightarrow> scheduled_at ev \<le> t)"
  shows "\<exists>evs' w'. process_events tb (app_dispatcher cfg gen now tnow sky lib collate) env k n (evs, w) =
      (Inr (), evs', w') \<and> db_ok w' \<and> satellites w' = satellites w \<and> stations w' = stations w \<and> events_ok evs' \<and>
    map ev_id evs' = map ev_id evs \<and> (\<forall>ev \<in> set evs'. ev_status ev = PROCESSED \<or> ev_status ev \<noteq> PENDING \<and> ev \<in> set evs) \<and>
    (\<forall>x \<in> set (satellites w). if awaited evs x then predicted cfg now sky lib x w'
       else \<forall>stid. pair_content w' (sat_id x) stid = pair_content w (sat_id x) stid)"
  using assms(5-9)
proof (induction n arbitrary: k evs w)
  case 0
  then have "filter (\<lambda>ev. ev_status ev = PENDING) evs = []" by (simp add: pending_count_def)
  then show ?case using 0 by (auto simp: awaited_def filter_empty_conv)
next
  case (Suc n)
  show ?case
  proof (cases "next_event (env k) evs")
    case None
    then have "filter (ready (env k)) evs = []" by (simp add: next_event_None)
    then have "\<forall>ev \<in> set evs. ev_status ev \<noteq> PENDING"
      using Suc.prems(5) env[rule_format, of k] by (fastforce simp: filter_empty_conv ready_def)
    then show ?thesis using None Suc.prems by (auto simp: awaited_def)
  next
    case (Some ev)
    have ev: "ev \<in> set evs" "ev_status ev = PENDING" using next_event_Some(1,2)[OF Some] by (auto simp: ready_def)
    have cons: "event_consistent w ev" using Suc.prems(5) ev(1) by blast
    then obtain x0 where x0: "x0 \<in> set (satellites w)" "concerns ev x0" by (auto simp: event_consistent_def)
    have evok: "event_ok ev" and d: "distinct (map ev_id evs)"
      using Suc.prems(3) ev(1) by (simp_all add: events_ok_def)
    from round_recovers[OF Suc.prems(1) lib x0 Suc.prems(2) cons ev(2)]
    obtain ev1 w1 where h: "handle_event tb (app_dispatcher cfg gen now tnow sky lib collate) (env k) ev w = (Inr ev1, w1)"
      "ev_status ev1 = PROCESSED" "db_ok w1" "satellites w1 = satellites w" "stations w1 = stations w"
      "predicted cfg now sky lib x0 w1" "\<And>sid stid. sid \<noteq> sat_id x0 \<Longrightarrow> pair_content w1 sid stid = pair_content w sid stid"
      by blast
    note h1 = handle_event_ok[OF evok ev(2) h(1)] and st = handle_event_static[OF h(1)]
    let ?evs = "store_event ev1 evs"
    have one: "y = ev" if "y \<in> set evs" "ev_id y = ev_id ev" for y using unique_column[OF d that(1) ev(1) that(2)] .
    have mem: "y \<in> set ?evs \<longleftrightarrow> y = ev1 \<or> y \<in> set evs \<and> ev_id y \<noteq> ev_id ev" for y
      using ev(1) h1(2) by (auto simp: store_event_def update_where_def image_iff)
    have "pending_count ?evs \<le> n" using pending_count_store[OF d ev(1,2) h1(2)] h(2) Suc.prems(4) by simp
    moreover have same: "event_consistent w1 y = event_consistent w y" for y by (simp add: event_consistent_def h(4))
    have "event_consistent w1 ev1" using cons h(2) st(2,3) unfolding same by (simp add: event_consistent_def concerns_def)
    then have "\<forall>y \<in> set ?evs. event_consistent w1 y \<and> (ev_status y = PENDING \<longrightarrow> scheduled_at y \<le> t)"
      using Suc.prems(5) h(2) by (auto simp: mem same)
    moreover have "loadable sky w1" using Suc.prems(2) h(4) by (simp add: loadable_def)
    ultimately obtain evs' w' where r: "process_events tb (app_dispatcher cfg gen now tnow sky lib collate) env (Suc k) n
        (?evs, w1) = (Inr (), evs', w')" "db_ok w'" "satellites w' = satellites w1" "stations w' = stations w1" "events_ok evs'"
      "map ev_id evs' = map ev_id ?evs" "\<forall>ev \<in> set evs'. ev_status ev = PROCESSED \<or> ev_status ev \<noteq> PENDING \<and> ev \<in> set ?evs"
      "\<forall>x \<in> set (satellites w1). if awaited ?evs x then predicted cfg now sky lib x w'
         else \<forall>stid. pair_content w' (sat_id x) stid = pair_content w1 (sat_id x) stid"
      using Suc.IH[of w1 ?evs "Suc k"] h(3) events_ok_store[OF Suc.prems(3) h1(1)] by metis
    have content: "if awaited evs x then predicted cfg now sky lib x w'
        else \<forall>stid. pair_content w' (sat_id x) stid = pair_content w (sat_id x) stid" if x: "x \<in> set (satellites w)" for x
    proof -
      have rest: "awaited ?evs x \<longleftrightarrow> (\<exists>y \<in> set evs. ev_id y \<noteq> ev_id ev \<and> ev_status y = PENDING \<and> concerns y x)"
        using h(2) unfolding awaited_def Bex_def mem by auto
      show ?thesis
      proof (cases "sat_id x = sat_id x0")
        case True
        then have "x = x0" by (rule unique_column[OF db_okD(5)[OF Suc.prems(1)] x x0(1)])
        then have "predicted cfg now sky lib x w'"
          using r(8)[rule_format, of x] x h(4,6) predicted_cong[of w' w1 x cfg now sky lib] r(4)
          by (auto split: if_splits)
        moreover have "awaited evs x" using ev x0(2) \<open>x = x0\<close> by (auto simp: awaited_def)
        ultimately show ?thesis by simp
      next
        case False
        then have "\<not> concerns ev x" using x0(2) by (simp add: concerns_def)
        then have "awaited evs x \<longleftrightarrow> (\<exists>y \<in> set evs. ev_id y \<noteq> ev_id ev \<and> ev_status y = PENDING \<and> concerns y x)"
          using one unfolding awaited_def by metis
        then have "awaited evs x \<longleftrightarrow> awaited ?evs x" by (simp only: rest)
        then show ?thesis using r(8)[rule_format, of x] x h(4,7) False by simp
      qed
    qed
    have kept: "\<forall>y \<in> set evs'. ev_status y = PROCESSED \<or> ev_status y \<noteq> PENDING \<and> y \<in> set evs"
      using r(7) h(2) by (auto simp: mem)
    have "process_events tb (app_dispatcher cfg gen now tnow sky lib collate) env k (Suc n) (evs, w) = (Inr (), evs', w')"
      using Some h(1) r(1) by simp
    moreover have "satellites w' = satellites w" "stations w' = stations w" "map ev_id evs' = map ev_id evs"
      using r(3,4,6) h(4,5) by (simp_all add: ids_store)
    ultimately show ?thesis
      by (intro exI[of _ evs'] exI[of _ w'] conjI ballI r(2,5) kept[rule_format] content)
  qed
qed

subsection \<open>Property\<close>



end
