(* ===== verification/Environment.thy ===== *)
theory Environment
  imports Schema
begin

text \<open>
  Alembic's environment \<open>migrations/env.py\<close>: where a migration runs and with which options. Offline it
  prints SQL for the URL; online it runs on the connection the tests inject, or on an engine of its own
  for the URL of the settings, asynchronous when the URL names an asynchronous driver. Alembic's choice of
  the operations that are due is a parameter. A run is the list of what it does, with its exception,
  if any, and the database it leaves.
\<close>

subsection \<open>Options\<close>

datatype 'c context_option =
    Connection_option 'c
  | Url_option string
  | Metadata_option "table list"
  | Flag bool
  | Names "(string \<times> string) list"
  | Hook string

definition online_options :: "settings \<Rightarrow> 'c \<Rightarrow> (string \<times> 'c context_option) list" where
  "online_options cfg connection = [
     (''connection'', Connection_option connection),
     (''target_metadata'', Metadata_option (metadata cfg)),
     (''compare_type'', Flag True),
     (''compare_server_default'', Flag True),
     (''include_schemas'', Flag False),
     (''process_revision_directives'', Hook ''writer''),
     (''render_item'', Hook ''render_item''),
     (''include_object'', Hook ''include_object'')]"

definition offline_options :: "settings \<Rightarrow> (string \<times> 'c context_option) list" where
  "offline_options cfg = [
     (''url'', Url_option (DATABASE_URL cfg)),
     (''target_metadata'', Metadata_option (metadata cfg)),
     (''literal_binds'', Flag True),
     (''compare_type'', Flag True),
     (''compare_server_default'', Flag True),
     (''dialect_opts'', Names [(''paramstyle'', ''named'')]),
     (''render_item'', Hook ''render_item''),
     (''include_object'', Hook ''include_object'')]"

text \<open>The section of \<open>alembic.ini\<close>, if it has one, with its URL replaced by the settings'.\<close>

definition engine_section :: "settings \<Rightarrow> (string \<times> string) list option \<Rightarrow> (string \<times> string) list" where
  "engine_section cfg ini =
     AList.update ''sqlalchemy.url'' (DATABASE_URL cfg) (case ini of None \<Rightarrow> [] | Some section \<Rightarrow> section)"

subsection \<open>A run\<close>

datatype 'c env_step =
    Create_engine bool "(string \<times> string) list"
  | Connect
  | Configure "(string \<times> 'c context_option) list"
  | Begin
  | Commit
  | Rollback
  | Disconnect
  | Dispose

text \<open>
  What a run depends on: the ids and the time of the database, the operations that are due, the section of
  the ini file, the connection its own engine gives, or the exception of connecting.
\<close>

record 'c env_run =
  env_gen :: "uuid list \<Rightarrow> uuid"
  env_now :: datetime
  env_ops :: "operation list"
  env_ini :: "(string \<times> string) list option"
  env_connection :: "'c result"

text \<open>
  \<open>with context.begin_transaction(): context.run_migrations()\<close>: the operations are committed together, or
  the exception leaves and nothing is.
\<close>

definition configure_and_run :: "settings \<Rightarrow> 'c env_run \<Rightarrow> 'c \<Rightarrow> pg \<Rightarrow> 'c env_step list \<times> exc option \<times> pg" where
  "configure_and_run cfg r connection db =
     (let steps = [Configure (online_options cfg connection), Begin] in
      case fold_r (run_operation (env_gen r) (env_now r)) (env_ops r) db of
        Inl e \<Rightarrow> (steps @ [Rollback], Some e, db)
      | Inr db' \<Rightarrow> (steps @ [Commit], None, db'))"

text \<open>Offline the operations are printed, not run.\<close>

definition run_migrations_offline :: "settings \<Rightarrow> pg \<Rightarrow> 'c env_step list \<times> exc option \<times> pg" where
  "run_migrations_offline cfg db = ([Configure (offline_options cfg), Begin, Commit], None, db)"

definition run_async_migrations :: "settings \<Rightarrow> 'c env_run \<Rightarrow> pg \<Rightarrow> 'c env_step list \<times> exc option \<times> pg" where
  "run_async_migrations cfg r db =
     (let engine = Create_engine True (engine_section cfg (env_ini r)) in
      case env_connection r of
        Inl e \<Rightarrow> ([engine], Some e, db)
      | Inr connection \<Rightarrow>
          (let (steps, x, db') = configure_and_run cfg r connection db
           in ([engine, Connect] @ steps @ [Disconnect] @ (if x = None then [Dispose] else []), x, db')))"

fun contains :: "string \<Rightarrow> string \<Rightarrow> bool" where
  "contains s [] = (s = [])"
| "contains s (c # cs) = (startswith (c # cs) s \<or> contains s cs)"

definition run_migrations_online ::
  "settings \<Rightarrow> 'c env_run \<Rightarrow> 'c option \<Rightarrow> pg \<Rightarrow> 'c env_step list \<times> exc option \<times> pg" where
  "run_migrations_online cfg r injected db =
     (case injected of
        Some connection \<Rightarrow> configure_and_run cfg r connection db
      | None \<Rightarrow>
          (let url = DATABASE_URL cfg in
           if contains ''+asyncpg'' url \<or> contains ''+aiosqlite'' url then run_async_migrations cfg r db
           else
             (let engine = Create_engine False (engine_section cfg (env_ini r)) in
              case env_connection r of
                Inl e \<Rightarrow> ([engine], Some e, db)
              | Inr connection \<Rightarrow>
                  (let (steps, x, db') = configure_and_run cfg r connection db
                   in ([engine, Connect] @ steps @ [Disconnect], x, db')))))"

definition run_env ::
  "bool \<Rightarrow> settings \<Rightarrow> 'c env_run \<Rightarrow> 'c option \<Rightarrow> pg \<Rightarrow> 'c env_step list \<times> exc option \<times> pg" where
  "run_env offline cfg r injected db =
     (if offline then run_migrations_offline cfg db else run_migrations_online cfg r injected db)"

subsection \<open>Lemmas\<close>

lemma contains_prefix: "contains s (s @ rest)"
proof (cases "s @ rest")
  case (Cons c cs)
  then have "take (length s) (c # cs) = s" by (metis append_eq_conv_conj)
  then show ?thesis by (simp add: Cons startswith_def)
qed simp

lemma contains_skip: "contains s cs \<Longrightarrow> contains s (pre @ cs)"
  by (induction pre) auto

lemma derived_url_async: "contains ''+asyncpg'' (url_from_parts ''postgresql+asyncpg'' cfg)"
proof -
  have "url_from_parts ''postgresql+asyncpg'' cfg =
      ''postgresql'' @ ''+asyncpg'' @ (''://'' @ DB_USER cfg @ '':'' @ DB_PASSWORD cfg @
        ''@'' @ DB_HOST cfg @ '':'' @ py_str_int (DB_PORT cfg) @ ''/'' @ DB_NAME cfg)"
    by (simp add: url_from_parts_def)
  then show ?thesis by (simp only: contains_skip contains_prefix)
qed

lemma engine_section_url: "map_of (engine_section cfg ini) ''sqlalchemy.url'' = Some (DATABASE_URL cfg)"
  by (simp add: engine_section_def update_conv')

text \<open>An own engine: the steps, for each outcome.\<close>

lemma configure_cases:
  obtains (committed) db' where "fold_r (run_operation (env_gen r) (env_now r)) (env_ops r) db = Inr db'"
    "configure_and_run cfg r c db = ([Configure (online_options cfg c), Begin, Commit], None, db')"
  | (failed) e where "fold_r (run_operation (env_gen r) (env_now r)) (env_ops r) db = Inl e"
    "configure_and_run cfg r c db = ([Configure (online_options cfg c), Begin, Rollback], Some e, db)"
  by (cases "fold_r (run_operation (env_gen r) (env_now r)) (env_ops r) db") (simp_all add: configure_and_run_def)

subsection \<open>Property\<close>


definition sample_env_run :: "unit env_run" where
  "sample_env_run = \<lparr>env_gen = (\<lambda>_. 1), env_now = 0, env_ops = upgrade, env_ini = Some [(''sqlalchemy.url'', ''driver://'')],
     env_connection = Inr ()\<rparr>"


end
