(* ===== verification/Spec2Isabelle.thy ===== *)
theory Spec2Isabelle
  imports JobSystem OutboxSystem Served Typing Recovery Environment
begin

text \<open>
  Apsis predicts satellite passes over ground stations: it fetches orbital elements (TLEs) from CelesTrak,
  stores them, and recomputes the passes of a satellite whenever its TLE changes. This library models
  the application under src/app and src/migrations and proves what makes it correct.

  The program and its parts. A job worker (app/core/jobs/worker.py) polls the table scheduled_jobs; its
  one job, tle_refresh, fetches a group of TLEs (app/core/celestrak), upserts the satellites and
  publishes an event per new or changed TLE in the same transaction (app/tracking/use_cases/
  ingest_tles.py, app/core/events/bus.py: a transactional outbox). An outbox worker (app/core/events/
  worker.py) takes the due events one by one and hands them to the dispatcher; the one handler,
  recompute_passes, replaces the predictions of the satellite for every station
  (app/tracking/event_handlers, use_cases/compute_passes.py, services/). The HTTP API registers stations
  and reads stations, satellites and passes. The lifespan (app/main.py) starts and stops the workers,
  and the migration creates the tables and seeds the job.

  The theories, in the order of the imports, and what they model:

  \<^item> Prelude: rows of tables as lists (select, update, delete, lookup by a column), loops that may raise,
    and two interfaces as locales, \<open>transition_system\<close> (reachability and invariants of a step
    relation) and \<open>row_update\<close> (an UPDATE that keeps ids and the rows' invariant).
  \<^item> AppErrors: exceptions (\<open>exc\<close>), results \<open>exc + 'a\<close>, the domain errors and the responses of
    app/core/exceptions.
  \<^item> PyStr, PyNum, PyTime: the string, number and datetime operations of the standard library that
    the source calls (strip, split, int, UUID texts, isoformat, timedelta). Times are microseconds.
  \<^item> Config: \<open>Settings\<close> with its defaults and validators.
  \<^item> Celestrak: the HTTP driver's construction and outcomes, its parser and the client registry; locale
    \<open>tle_source\<close>.
  \<^item> Geometry, Passes: the services. skyfield and shapely are records of functions.
  \<^item> Jobs, JobSystem: one job worker as functions from tables to tables; any number of them as a step
    relation whose steps are the worker's statements.
  \<^item> Dispatcher, Outbox, OutboxSystem: dispatch, the handling of an event, the batch, the loop with its
    reconnections, and any number of workers as a step relation with row locks.
  \<^item> Db: the three tracking tables with their constraints and the repositories; locale
    \<open>checked_table\<close>. \<open>db_ok\<close> is the invariant of all tables.
  \<^item> Ingest, PassPredictions: the use cases, the job handler and the event handler; locale
    \<open>idempotent_handler\<close>.
  \<^item> Api: the endpoints on the values of their fields, with the schemas' validation and responses.
  \<^item> Lifecycle: the application object, the checks at startup, start and stop of the workers, the
    lifespan and the health endpoints.
  \<^item> Http: the routes of the routers with their declared statuses, and the handling of a request from
    its route to its response, the exception handlers included.
  \<^item> Schema: the migration as operations on a database, the ORM declarations, the metadata SQLAlchemy
    derives from them with the naming convention, and PostgreSQL's reading of the constraints.
  \<^item> Environment: migrations/env.py, where the migration runs, with which options and on which connection.
  \<^item> Registry: the application's registries, and the lemmas on a poll and a batch with them.
  \<^item> Flights: the event handler's session statement by statement: what it has read and written so far
    (\<open>flight\<close>), and what it sees of the others' commits (\<open>seen\<close>).
  \<^item> Service: the whole as a transition system over the clock, all tables and the sessions under way;
    requests, polls, handler steps, timeouts and crashes in any order. Scenario runs it on a small
    instance; Served and Recovery hold the properties of its runs with one outbox worker, Soundness and
    Typing those of its runs with any number. Locale \<open>ingest_invariant\<close>: what a poll keeps.
  \<^item> This theory: the properties of a run from the feed, or from the empty database, to the predictions.

  State and operations. A table is a list of records, one field per column; a session's commit is the
  returned table, its rollback the old one. A function that raises returns \<open>Inl\<close> of the exception, and
  \<open>is_Exception\<close> tells \<open>asyncio.CancelledError\<close> from what \<open>except Exception\<close> catches. Every reading of
  the clock, every random draw, every outcome of the network, of a connection and of a lock is an
  argument (\<open>job_clock\<close>, \<open>round_env\<close>, \<open>loop_env\<close>, \<open>env_run\<close>), so that a theorem holds for all of them. Ids
  are given by a function \<open>gen\<close> of the ids in use.

  What is shown. Composition: whatever is interleaved, with any number of outbox workers, the tables
  keep their constraints, nothing committed is lost, no finished event changes, and stored rows fit
  their columns; with one outbox worker, the predictions of a satellite whose latest event is processed
  are those of its stored TLE, which is also what the API answers, and whatever was left pending is
  handled by the next batch; with two, a run that leaves stale predictions is exhibited. A handler's session that nobody interferes with is the
  handler's definition. Safety under concurrency: no job is run twice while its lease lives, no event
  is processed twice. Liveness: every event ends PROCESSED or FAILED, crashed jobs run again, the loop
  recovers, a fresh deployment ends with the predictions of its feed. Function: the ingest, the
  computation of passes, the use case, the handler, the queries and the requests do exactly what they
  promise, on every branch. Bounds of backoff, reconnection and sampling, round trips of the parser and
  the migration, refinement of PostgreSQL's constraints by the model's checks, and the error behaviour.
  Some theorems show where the code does not do what it promises: the stale predictions of two
  workers, the DSN of the listening connection, the last culmination taken for the highest.

  Bounds and fuel. \<open>process_events\<close> recurses on the number of rounds, which is the code's BATCH_SIZE (50);
  a cycle of the job worker takes at most ten jobs. Loops that run until the shutdown
  (\<open>run_worker\<close>, \<open>outbox_run\<close>) run over the list of what they meet, and the theorems hold for every list.
  The termination of events assumes at most 1024 retries: Python's \<open>2**1024\<close> is no float, and the
  attempt would end with an OverflowError instead of a backoff.

  Assumptions of the composition. A request and a poll of the job worker are one step each: each
  has one transaction on the tables it writes. The handler's session is split into its stations, and each of
  its statements sees what is committed by then (read committed); a violated constraint
  is found at the commit at the latest. A station's \<open>created_at\<close> is the time of the request's step. The
  rows of scheduled_jobs are left out of the typing property: \<open>run_count\<close> grows without a bound, and
  \<open>claimed_by\<close> is as long as the host's name.

  Not modelled. Logging; the matching of paths, the injection and the JSON of FastAPI and the reading of
  the environment by pydantic; PostGIS, shapely, skyfield, httpx, asyncpg and the network (parameters);
  the transport of notifications (the worker's callback only logs); the clock of \<open>asyncio.wait_for\<close> (a
  handler may raise TimeoutError at any time); the threads of \<open>run_blocking\<close>, which gives the value of its
  function; Alembic's choice of the revisions that are due; tests, operations and deployment.
\<close>

subsection \<open>Properties\<close>

text \<open>C4. From a TLE feed to predictions. Take any event that an ingest published, and any later sound state
  of the tables that still holds the satellites the ingest left (stations may have come and gone, other
  events may have been handled). Handling the event with the application's registered handler marks it
  PROCESSED in its first attempt, and then the predictions of its satellite are, for every station,
  exactly the passes computed from the ingested TLE over the horizon; no other satellite's predictions
  change.\<close>

theorem feed_reaches_predictions:
  assumes "db_ok d" and "fetch grp = Inr recs" and "distinct (map norad_of recs)"
    and "ingest_tles cfg gen0 t0 sky fetch grp d = Inr (d', n)"
    and "ev \<in> set (drop (length (events d)) (events d'))"
    and "db_ok d2" and "satellites d2 = satellites d'"
    and "fresh_ids gen" and "skyfield_ok sky" and "0 < PASS_PREDICTION_HORIZON_HOURS cfg"
    and "\<forall>s \<in> set (satellites d'). sat_id s < 2 ^ 128"
  shows "\<exists>ev' d3 s. handle_event tb (app_dispatcher cfg gen now tnow sky lib collate) rd ev d2 = (Inr ev', d3) \<and>
    ev_status ev' = PROCESSED \<and> aggregate_id ev = Some (sat_id s) \<and> s \<in> set (satellites d2) \<and> db_ok d3 \<and>
    (\<forall>station \<in> set (stations d2). \<exists>passes.
       passes_for sky lib (horizon_window cfg now) 10 24 s station = Inr passes \<and>
       map row_content (filter (of_pair (sat_id s) (st_id station)) (predictions d3)) = map (stored_pass lib) passes) \<and>
    (\<forall>sid stid. sid \<noteq> sat_id s \<longrightarrow> pair_content d3 sid stid = pair_content d2 sid stid)"
proof -
  obtain s e where s: "refreshed_event s ev" "lookup sat_id (sat_id s) (satellites d2) = Some s"
    "EarthSatellite sky (tle_line1 s) (tle_line2 s) = Inr e"
    using published_event_satellite[OF assms(1-5)] assms(7) by auto
  then have mem: "s \<in> set (satellites d2)" by (auto dest: lookup_SomeD)
  then have id: "sat_id s < 2 ^ 128" using assms(7,11) by simp
  have p: "map_of (ev_payload ev) ''satellite_id'' = Some (JStr (uuid_str (sat_id s)))"
    using s(1) by (simp add: refreshed_event_def refreshed_payload_def)
  from recompute_complete[OF assms(6,8,9) s(2,3) assms(10) p id, of now tnow lib collate]
  obtain d3 where d3: "recompute_passes cfg gen now tnow sky lib collate (ev_payload ev) d2 = (None, d3)" "db_ok d3"
    "\<forall>station \<in> set (stations d2). \<exists>passes.
       passes_for sky lib (horizon_window cfg now) 10 24 s station = Inr passes \<and>
       map row_content (filter (of_pair (sat_id s) (st_id station)) (predictions d3)) = map (stored_pass lib) passes"
    "\<forall>sid stid. sid \<noteq> sat_id s \<longrightarrow> pair_content d3 sid stid = pair_content d2 sid stid" by blast
  have "handlers_for (app_dispatcher cfg gen now tnow sky lib collate) (event_type ev) =
      [(''recompute_passes'', recompute_passes cfg gen now tnow sky lib collate)]" "handler_state ev = []"
    using s(1) by (simp_all add: app_dispatcher_handlers refreshed_event_def)
  from handle_event_single[OF this d3(1)] obtain ev' where
    "handle_event tb (app_dispatcher cfg gen now tnow sky lib collate) rd ev d2 = (Inr ev', d3)" "ev_status ev' = PROCESSED"
    by blast
  moreover have "aggregate_id ev = Some (sat_id s)" using s(1) by (simp add: refreshed_event_def)
  ultimately show ?thesis using mem d3(2-4) by blast
qed

definition start_db :: "plain_wkb db" where
  "start_db = sample_db\<lparr>satellites := []\<rparr>"

lemma start_db_ok: "db_ok start_db"
  using sample_db_ok by (simp add: start_db_def db_ok_def satellites_ok_def sample_db_def predictions_ok_def)

lemma start_ingest:
  "\<exists>d' ev. ingest_tles default_settings sample_gen 0 sample_sky (\<lambda>_. Inr [sample_tle]) ''active'' start_db = Inr (d', 1) \<and>
     events d' = [ev] \<and> map sat_id (satellites d') = [1]"
  using sample_feed_ingest[of start_db sample_gen] by (auto simp: start_db_def sample_db_def sample_gen_def)

lemma feed_reaches_predictions_witness:
  "\<exists>d' ev ev' d3. ingest_tles default_settings sample_gen 0 sample_sky (\<lambda>_. Inr [sample_tle]) ''active'' start_db = Inr (d', 1) \<and>
     events d' = [ev] \<and>
     handle_event (\<lambda>e. ''tb'') (app_dispatcher default_settings sample_gen 0 0 sample_sky plain_shapely (\<lambda>_. 0)) sample_round ev d' =
       (Inr ev', d3) \<and> ev_status ev' = PROCESSED"
proof -
  obtain d' ev where run: "ingest_tles default_settings sample_gen 0 sample_sky (\<lambda>_. Inr [sample_tle]) ''active'' start_db = Inr (d', 1)"
    and ev: "events d' = [ev]" and ids: "map sat_id (satellites d') = [1]"
    using start_ingest by (elim exE conjE) (rule that)
  have new: "ev \<in> set (drop (length (events start_db)) (events d'))"
    by (simp add: ev start_db_def sample_db_def)
  have ok: "db_ok d'"
  proof -
    have "fold_r (ingest_record default_settings sample_gen 0 sample_sky) [sample_tle] (start_db, 0) = Inr (d', 1)"
      using run by (simp add: ingest_tles_def)
    from ingest_fold[OF start_db_ok _ this] show ?thesis by simp
  qed
  have "sat_id s = 1" if "s \<in> set (satellites d')" for s
    using ids that by (cases "satellites d'") auto
  then have small: "\<forall>s \<in> set (satellites d'). sat_id s < 2 ^ 128" by simp
  have horizon: "0 < PASS_PREDICTION_HORIZON_HOURS default_settings" by (simp add: default_settings_def)
  have "distinct (map norad_of [sample_tle])" by simp
  from feed_reaches_predictions[OF start_db_ok refl this run new ok refl sample_gen_fresh sample_sky_ok horizon small,
      of "\<lambda>e. ''tb''" 0 0 plain_shapely "\<lambda>_. 0" sample_round]
  show ?thesis using run ev by blast
qed



end
